(* ===== verification/Prelude.thy ===== *)
theory Prelude
  imports
    Main
    "HOL-Library.AList"
    "HOL-Library.Char_ord"
    "HOL-Library.List_Lexorder"
    "HOL-Library.Word"
    "HOL-Library.Signed_Division"
begin

text \<open>
  Shared material of the development: the fact collections, Go's string and integer
  helpers that several packages call (\<^verbatim>\<open>strings\<close>, \<^verbatim>\<open>strconv\<close>, \<^verbatim>\<open>fmt.Sprint\<close>), Go maps as
  association lists, and the outcome of a call that may panic.
\<close>

named_theorems go_string \<comment> \<open>definitions of Go's string helpers\<close>
named_theorems go_defs \<comment> \<open>definitions unfolded when a component is evaluated\<close>

section \<open>Outcomes\<close>

text \<open>A Go call returns or panics; a panic carries the value given to \<^verbatim>\<open>panic\<close>.\<close>

datatype 'a outcome = Ret 'a | Panic string

fun map_outcome_val :: "('a \<Rightarrow> 'b) \<Rightarrow> 'a outcome \<Rightarrow> 'b outcome" where
  "map_outcome_val f (Ret x) = Ret (f x)"
| "map_outcome_val f (Panic p) = Panic p"

section \<open>Go maps as association lists\<close>

text \<open>
  A Go map with an observable key set is an association list with distinct keys;
  \<open>AList.update\<close> is assignment and \<open>map_of\<close> the lookup.
\<close>

type_synonym ('k, 'v) gomap = "('k \<times> 'v) list"

abbreviation gomap_wf :: "('k, 'v) gomap \<Rightarrow> bool" where
  "gomap_wf m \<equiv> distinct (map fst m)"

definition gomap_set :: "'k \<Rightarrow> 'v \<Rightarrow> ('k, 'v) gomap \<Rightarrow> ('k, 'v) gomap" where
  "gomap_set k v m = AList.update k v m"

lemma map_of_gomap_set [simp]: "map_of (gomap_set k v m) = (map_of m)(k \<mapsto> v)"
  by (simp add: gomap_set_def update_conv')

lemma gomap_wf_set [simp, intro]: "gomap_wf m \<Longrightarrow> gomap_wf (gomap_set k v m)"
  by (simp add: gomap_set_def distinct_update)

lemma fst_set_gomap_set [simp]: "fst ` set (gomap_set k v m) = insert k (fst ` set m)"
  by (metis Map.dom_fun_upd dom_map_of_conv_image_fst map_of_gomap_set option.distinct(1))

lemma gomap_set_not_Nil [simp]: "gomap_set k v m \<noteq> []"
  using fst_set_gomap_set [of k v m] by force

lemma gomap_set_code [code]:
  "gomap_set k v [] = [(k, v)]"
  "gomap_set k v ((k', v') # m) = (if k' = k then (k, v) # m else (k', v') # gomap_set k v m)"
  by (simp_all add: gomap_set_def)

section \<open>First match in a list\<close>

fun find_map :: "('a \<Rightarrow> 'b option) \<Rightarrow> 'a list \<Rightarrow> 'b option" where
  "find_map f [] = None"
| "find_map f (x # xs) = (case f x of Some y \<Rightarrow> Some y | None \<Rightarrow> find_map f xs)"

lemma find_map_append:
  "find_map f (xs @ ys) = (case find_map f xs of Some y \<Rightarrow> Some y | None \<Rightarrow> find_map f ys)"
  by (induction xs) (auto split: option.splits)

lemma find_map_None_iff: "find_map f xs = None \<longleftrightarrow> (\<forall>x \<in> set xs. f x = None)"
  by (induction xs) (auto split: option.splits)

lemma find_map_SomeD: "find_map f xs = Some y \<Longrightarrow> \<exists>x \<in> set xs. f x = Some y"
  by (induction xs) (auto split: option.splits)

lemma concat_map_concat: "concat (map f (concat xss)) = concat (map (\<lambda>xs. concat (map f xs)) xss)"
  by (induction xss) simp_all

section \<open>Strings\<close>

text \<open>Go strings are byte sequences; \<^typ>\<open>string\<close> is a list of bytes read as characters.\<close>

definition go_HasPrefix :: "string \<Rightarrow> string \<Rightarrow> bool" where
  [go_string]: "go_HasPrefix s p \<longleftrightarrow> take (length p) s = p"

definition go_HasSuffix :: "string \<Rightarrow> string \<Rightarrow> bool" where
  [go_string]: "go_HasSuffix s p \<longleftrightarrow> length p \<le> length s \<and> drop (length s - length p) s = p"

text \<open>\<^verbatim>\<open>strings.Cut\<close> for a separator of one byte: text before, text after, found.\<close>

fun go_Cut :: "string \<Rightarrow> char \<Rightarrow> string \<times> string \<times> bool" where
  "go_Cut [] sep = ([], [], False)"
| "go_Cut (c # s) sep =
     (if c = sep then ([], s, True)
      else (case go_Cut s sep of (b, a, f) \<Rightarrow> (c # b, a, f)))"

lemma go_Cut_found: "go_Cut s sep = (b, a, True) \<Longrightarrow> s = b @ sep # a \<and> sep \<notin> set b"
  by (induction s arbitrary: b a) (auto split: if_splits prod.splits)

lemma go_Cut_not_found: "go_Cut s sep = (b, a, False) \<Longrightarrow> b = s \<and> a = [] \<and> sep \<notin> set s"
  by (induction s arbitrary: b a) (auto split: if_splits prod.splits)

lemma go_Cut_append: "sep \<notin> set b \<Longrightarrow> go_Cut (b @ sep # a) sep = (b, a, True)"
  by (induction b) auto

definition go_TrimPrefix :: "string \<Rightarrow> string \<Rightarrow> string" where
  "go_TrimPrefix s p = (if go_HasPrefix s p then drop (length p) s else s)"

lemma go_HasPrefix_append [simp]: "go_HasPrefix (p @ s) p"
  by (simp add: go_HasPrefix_def)

lemma go_HasPrefix_iff: "go_HasPrefix s p \<longleftrightarrow> (\<exists>r. s = p @ r)"
  by (metis append_eq_conv_conj append_take_drop_id go_HasPrefix_def)

lemma go_HasSuffix_iff: "go_HasSuffix s p \<longleftrightarrow> (\<exists>r. s = r @ p)"
proof
  assume "go_HasSuffix s p"
  then have "s = take (length s - length p) s @ p"
    by (metis append_take_drop_id go_HasSuffix_def)
  then show "\<exists>r. s = r @ p" by blast
qed (auto simp: go_HasSuffix_def)

section \<open>Integers and their decimal text\<close>

text \<open>Go's integer division truncates toward zero.\<close>

abbreviation go_quot :: "int \<Rightarrow> int \<Rightarrow> int" where
  "go_quot a b \<equiv> a sdiv b"

definition int64_ok :: "int \<Rightarrow> bool" where
  "int64_ok n \<longleftrightarrow> - (2 ^ 63) \<le> n \<and> n < 2 ^ 63"

definition digit_char :: "nat \<Rightarrow> char" where
  "digit_char d = char_of (48 + d)"

definition char_digit :: "char \<Rightarrow> nat option" where
  "char_digit c =
     (let n = of_char c in if 48 \<le> n \<and> n \<le> 57 then Some (n - 48) else None)"

lemma char_digit_digit_char [simp]: "d < 10 \<Longrightarrow> char_digit (digit_char d) = Some d"
  by (simp add: char_digit_def digit_char_def Let_def)

fun nat_text :: "nat \<Rightarrow> string" where
  "nat_text n = (if n < 10 then [digit_char n] else nat_text (n div 10) @ [digit_char (n mod 10)])"

declare nat_text.simps [simp del]

definition go_Sprint :: "int \<Rightarrow> string" where
  "go_Sprint n = (if n < 0 then CHR ''-'' # nat_text (nat (- n)) else nat_text (nat n))"

text \<open>The value of a string of decimal digits.\<close>

fun digits_value :: "nat \<Rightarrow> string \<Rightarrow> nat option" where
  "digits_value acc [] = Some acc"
| "digits_value acc (c # s) =
     (case char_digit c of None \<Rightarrow> None | Some d \<Rightarrow> digits_value (10 * acc + d) s)"

text \<open>
  The loop of \<^verbatim>\<open>strconv.ParseUint\<close> in base 10: a byte that is no digit is a syntax error, a value
  past 64 bits a range error, whichever comes first.
\<close>

datatype num_error = ErrSyntax | ErrRange

fun parse_uint :: "nat \<Rightarrow> string \<Rightarrow> num_error + nat" where
  "parse_uint acc [] = Inr acc"
| "parse_uint acc (c # s) =
     (case char_digit c of
        None \<Rightarrow> Inl ErrSyntax
      | Some d \<Rightarrow> if 2 ^ 64 \<le> 10 * acc + d then Inl ErrRange else parse_uint (10 * acc + d) s)"

text \<open>
  \<^verbatim>\<open>strconv.Atoi\<close>: an optional sign and at least one digit. The value and the error, as Go
  returns them: 0 with a syntax error, the nearest 64-bit integer with a range error.
\<close>

definition go_Atoi_full :: "string \<Rightarrow> int \<times> num_error option" where
  "go_Atoi_full s =
     (let (neg, ds) = (case s of [] \<Rightarrow> (False, [])
                        | c # r \<Rightarrow> if c = CHR ''-'' then (True, r)
                                   else if c = CHR ''+'' then (False, r) else (False, s))
      in if ds = [] then (0, Some ErrSyntax)
         else case parse_uint 0 ds of
                Inl ErrSyntax \<Rightarrow> (0, Some ErrSyntax)
              | Inl ErrRange \<Rightarrow> (if neg then - (2 ^ 63) else 2 ^ 63 - 1, Some ErrRange)
              | Inr n \<Rightarrow>
                  (let v = (if neg then - int n else int n)
                   in if int64_ok v then (v, None)
                      else (if neg then - (2 ^ 63) else 2 ^ 63 - 1, Some ErrRange)))"

definition go_Atoi :: "string \<Rightarrow> int option" where
  "go_Atoi s = (case go_Atoi_full s of (n, None) \<Rightarrow> Some n | (_, Some _) \<Rightarrow> None)"

text \<open>Conversions to a signed integer of 64 or 32 bits keep the low bits.\<close>

definition wrap64 :: "int \<Rightarrow> int" where
  "wrap64 n = (n + 2 ^ 63) mod 2 ^ 64 - 2 ^ 63"

definition wrap32 :: "int \<Rightarrow> int" where
  "wrap32 n = (n + 2 ^ 31) mod 2 ^ 32 - 2 ^ 31"

lemma wrap64_id: "int64_ok n \<Longrightarrow> wrap64 n = n"
  by (simp add: wrap64_def int64_ok_def)

lemma wrap32_id: "- (2 ^ 31) \<le> n \<Longrightarrow> n < 2 ^ 31 \<Longrightarrow> wrap32 n = n"
  by (simp add: wrap32_def)

lemma wrap32_range: "- (2 ^ 31) \<le> wrap32 n \<and> wrap32 n < 2 ^ 31"
  by (simp add: wrap32_def)

lemma nat_text_not_Nil [simp]: "nat_text n \<noteq> []"
  by (subst nat_text.simps) simp

lemma digits_value_append:
  "digits_value acc (s @ t) =
     (case digits_value acc s of None \<Rightarrow> None | Some n \<Rightarrow> digits_value n t)"
  by (induction s arbitrary: acc) (auto split: option.splits)

lemma digits_value_nat_text [simp]: "digits_value 0 (nat_text n) = Some n"
proof (induction n rule: nat_text.induct)
  case (1 n)
  show ?case
  proof (cases "n < 10")
    case True
    then show ?thesis by (subst nat_text.simps) simp
  next
    case False
    with 1 show ?thesis by (subst nat_text.simps) (simp add: digits_value_append)
  qed
qed

lemma hd_nat_text: "char_digit (hd (nat_text n)) \<noteq> None"
proof (induction n rule: nat_text.induct)
  case (1 n)
  then show ?case
    by (subst nat_text.simps) (simp add: hd_append)
qed

lemma nat_text_sign: "hd (nat_text n) \<noteq> CHR ''-''" "hd (nat_text n) \<noteq> CHR ''+''"
  using hd_nat_text [of n] by (auto simp: char_digit_def)

lemma digits_value_ge: "digits_value acc s = Some n \<Longrightarrow> acc \<le> n"
proof (induction acc s rule: digits_value.induct)
  case (2 acc c s)
  then show ?case by (fastforce split: option.splits)
qed simp

lemma parse_uint_digits_value: "digits_value acc s = Some n \<Longrightarrow> n < 2 ^ 64 \<Longrightarrow> parse_uint acc s = Inr n"
proof (induction acc s rule: digits_value.induct)
  case (2 acc c s)
  then obtain d where d: "char_digit c = Some d" "digits_value (10 * acc + d) s = Some n"
    by (auto split: option.splits)
  with digits_value_ge have "10 * acc + d \<le> n" by blast
  with 2 d show ?case by simp
qed simp

lemma parse_uint_nat_text: "n < 2 ^ 64 \<Longrightarrow> parse_uint 0 (nat_text n) = Inr n"
  by (rule parse_uint_digits_value) simp_all

lemma go_Atoi_Sprint: "int64_ok n \<Longrightarrow> go_Atoi (go_Sprint n) = Some n"
proof (cases "n < 0")
  case True
  assume ok: "int64_ok n"
  with True have "nat (- n) < 2 ^ 64" by (simp add: int64_ok_def nat_less_iff)
  then have "parse_uint 0 (nat_text (nat (- n))) = Inr (nat (- n))" by (rule parse_uint_nat_text)
  with True ok show ?thesis
    by (simp add: go_Atoi_def go_Atoi_full_def go_Sprint_def)
next
  case False
  assume ok: "int64_ok n"
  with False have "nat n < 2 ^ 64" by (simp add: int64_ok_def nat_less_iff)
  then have p: "parse_uint 0 (nat_text (nat n)) = Inr (nat n)" by (rule parse_uint_nat_text)
  obtain c r where cr: "nat_text (nat n) = c # r"
    by (cases "nat_text (nat n)") auto
  with nat_text_sign [of "nat n"] have "c \<noteq> CHR ''-''" "c \<noteq> CHR ''+''" by auto
  with False ok cr p show ?thesis
    by (simp add: go_Atoi_def go_Atoi_full_def go_Sprint_def del: parse_uint.simps)
qed

section \<open>Identifiers and durations\<close>

type_synonym uuid = "128 word"

abbreviation uuid_Nil :: uuid where
  "uuid_Nil \<equiv> 0"

text \<open>\<^verbatim>\<open>time.Duration\<close> counts nanoseconds; PostgreSQL timestamps count microseconds.\<close>

definition Second :: int where "Second = 1000000000"

definition pg_second :: int where "pg_second = 1000000"

definition duration_seconds :: "int \<Rightarrow> int" where
  "duration_seconds d = go_quot d Second"

section \<open>Text of the database\<close>

text \<open>
  A text is its UTF-8 bytes. The SQL function \<^verbatim>\<open>length\<close> counts characters: the bytes that do not
  continue one.
\<close>

definition continues_char :: "char \<Rightarrow> bool" where
  "continues_char c \<longleftrightarrow> 128 \<le> (of_char c :: nat) \<and> (of_char c :: nat) < 192"

definition pg_length :: "string \<Rightarrow> nat" where
  "pg_length s = length (filter (\<lambda>c. \<not> continues_char c) s)"

lemma pg_length_le: "pg_length s \<le> length s"
  by (simp add: pg_length_def)

lemma pg_length_ascii: "(\<And>c. c \<in> set s \<Longrightarrow> (of_char c :: nat) < 128) \<Longrightarrow> pg_length s = length s"
  unfolding pg_length_def continues_char_def
  by (rule arg_cong [of _ _ length]) (force simp: filter_id_conv dest: leD)

section \<open>Letters and hexadecimal text\<close>

text \<open>\<^verbatim>\<open>strings.ToLower\<close> of an ASCII byte.\<close>

definition lower :: "char \<Rightarrow> char" where
  "lower c = (let n = (of_char c :: nat) in if 65 \<le> n \<and> n \<le> 90 then char_of (n + 32) else c)"

definition hex_digit :: "nat \<Rightarrow> char" where
  "hex_digit d = (if d < 10 then char_of (48 + d) else char_of (87 + d))"

definition hex_EncodeToString :: "string \<Rightarrow> string" where
  "hex_EncodeToString bs = concat (map (\<lambda>b. [hex_digit (of_char b div 16), hex_digit (of_char b mod 16)]) bs)"

lemma length_hex [simp]: "length (hex_EncodeToString bs) = 2 * length bs"
  by (induction bs) (auto simp: hex_EncodeToString_def)

lemma hex_digit_inj: "a < 16 \<Longrightarrow> b < 16 \<Longrightarrow> hex_digit a = hex_digit b \<longleftrightarrow> a = b"
proof -
  have "\<forall>a\<in>set [0..<16]. \<forall>b\<in>set [0..<16]. hex_digit a = hex_digit b \<longrightarrow> a = b" by code_simp
  then show "a < 16 \<Longrightarrow> b < 16 \<Longrightarrow> hex_digit a = hex_digit b \<longleftrightarrow> a = b" by fastforce
qed

lemma hex_EncodeToString_inj: "length xs = length ys \<Longrightarrow> hex_EncodeToString xs = hex_EncodeToString ys \<longleftrightarrow> xs = ys"
proof (induction xs ys rule: list_induct2)
  case (Cons x xs y ys)
  have lt: "(of_char c :: nat) < 256" for c
    using nat_of_char_less_256 by simp
  have "(of_char x :: nat) = of_char y \<longleftrightarrow> of_char x div 16 = (of_char y div 16 :: nat) \<and> of_char x mod 16 = (of_char y mod 16 :: nat)"
    by (metis div_mult_mod_eq)
  then have "x = y \<longleftrightarrow> of_char x div 16 = (of_char y div 16 :: nat) \<and> of_char x mod 16 = (of_char y mod 16 :: nat)"
    by (metis char_of_char)
  moreover from lt have "of_char c div 16 < (16 :: nat)" "of_char c mod 16 < (16 :: nat)" for c
    by (simp_all add: less_mult_imp_div_less)
  ultimately show ?case
    using Cons.IH by (simp add: hex_EncodeToString_def hex_digit_inj)
qed simp

end
