(* ===== verification/Errors.thy ===== *)
theory Errors
  imports Prelude
begin

text \<open>
  Package \<^verbatim>\<open>errors\<close> (\<^verbatim>\<open>src/errors/errors.go\<close>): tagged errors with key-value metadata on top of
  Go's error trees. An error value is a tree of \<open>goerr\<close>; a nil error is \<open>None\<close>. The tree
  constructors are the concrete error types the repository builds or receives: messages made
  by \<^verbatim>\<open>errors.New\<close>, sentinels of the standard library, \<open>ConstError\<close>, the package's own
  \<open>taggedError\<close>, the wrappers of \<^verbatim>\<open>fmt.Errorf\<close> (one or several \<^verbatim>\<open>%w\<close>), \<^verbatim>\<open>errors.Join\<close>, the two
  driver errors that carry an SQL state, and any other leaf error. \<open>WithKeyValue\<close> writes into
  the first tagged error of the tree in place; the model returns the updated tree.
\<close>

section \<open>Error trees\<close>

datatype sentinel =
    ErrNoRows | ErrTxDone | ErrUnsupported | ErrServerClosed | ErrNotExist
  | CtxCanceled | CtxDeadlineExceeded

fun sentinel_text :: "sentinel \<Rightarrow> string" where
  "sentinel_text ErrNoRows = ''sql: no rows in result set''"
| "sentinel_text ErrTxDone = ''sql: transaction has already been committed or rolled back''"
| "sentinel_text ErrUnsupported = ''unsupported operation''"
| "sentinel_text ErrServerClosed = ''http: Server closed''"
| "sentinel_text ErrNotExist = ''file does not exist''"
| "sentinel_text CtxCanceled = ''context canceled''"
| "sentinel_text CtxDeadlineExceeded = ''context deadline exceeded''"

text \<open>The fields of the pgx driver's error that the repository reads, and its message.\<close>

record pg_error =
  pg_Severity :: string
  pg_Code :: string
  pg_Message :: string
  pg_Detail :: string
  pg_Hint :: string
  pg_Position :: int
  pg_InternalPosition :: int
  pg_InternalQuery :: string
  pg_Where :: string
  pg_SchemaName :: string
  pg_TableName :: string
  pg_ColumnName :: string
  pg_DataTypeName :: string
  pg_ConstraintName :: string
  pg_File :: string
  pg_Line :: int
  pg_Routine :: string
  pg_errmsg :: string

text \<open>The fields of the lib/pq driver's error; positions and lines are strings there.\<close>

record pq_error =
  pq_Severity :: string
  pq_Code :: string
  pq_Message :: string
  pq_Detail :: string
  pq_Hint :: string
  pq_Position :: string
  pq_InternalPosition :: string
  pq_InternalQuery :: string
  pq_Where :: string
  pq_Schema :: string
  pq_Table :: string
  pq_Column :: string
  pq_DataTypeName :: string
  pq_Constraint :: string
  pq_File :: string
  pq_Line :: string
  pq_Routine :: string
  pq_errmsg :: string

type_synonym ErrorTag = string

datatype goerr =
    ErrorString string
  | Sentinel sentinel
  | ConstError string
  | taggedError ErrorTag goerr "(string, string) gomap"
  | WrapErr string goerr
  | WrapErrs string "goerr list"
  | JoinErr "goerr list"
  | PgErr pg_error
  | PqErr pq_error
  | OpaqueErr string

type_synonym 'a res = "goerr + 'a"

text \<open>The errors directly below a node: \<^verbatim>\<open>Unwrap() error\<close> or \<^verbatim>\<open>Unwrap() []error\<close>.\<close>

fun err_children :: "goerr \<Rightarrow> goerr list" where
  "err_children (taggedError _ e _) = [e]"
| "err_children (WrapErr _ e) = [e]"
| "err_children (WrapErrs _ es) = es"
| "err_children (JoinErr es) = es"
| "err_children _ = []"

lemma err_children_size [termination_simp]: "x \<in> set (err_children e) \<Longrightarrow> size x < size e"
proof (cases e)
  case (WrapErrs m es)
  assume "x \<in> set (err_children e)"
  with WrapErrs have "size x < Suc (size_list size es)"
    by (simp add: less_Suc_eq_le size_list_estimation')
  with WrapErrs show ?thesis by simp
next
  case (JoinErr es)
  assume "x \<in> set (err_children e)"
  with JoinErr have "size x < Suc (size_list size es)"
    by (simp add: less_Suc_eq_le size_list_estimation')
  with JoinErr show ?thesis by simp
qed auto

text \<open>All nodes of an error tree, in the order \<^verbatim>\<open>errors.As\<close> visits them.\<close>

fun err_nodes :: "goerr \<Rightarrow> goerr list" where
  "err_nodes e = e # concat (map err_nodes (err_children e))"

declare err_nodes.simps [simp del]

text \<open>
  \<^verbatim>\<open>errors.AsType\<close> over a view that recognises one dynamic type: depth first, the node before
  the errors below it, the first match wins.
\<close>

fun AsType :: "(goerr \<Rightarrow> 'a option) \<Rightarrow> goerr \<Rightarrow> 'a option"
  and AsType_list :: "(goerr \<Rightarrow> 'a option) \<Rightarrow> goerr list \<Rightarrow> 'a option" where
  "AsType view e =
     (case view e of Some x \<Rightarrow> Some x
      | None \<Rightarrow> (case e of
           taggedError _ e' _ \<Rightarrow> AsType view e'
         | WrapErr _ e' \<Rightarrow> AsType view e'
         | WrapErrs _ es \<Rightarrow> AsType_list view es
         | JoinErr es \<Rightarrow> AsType_list view es
         | _ \<Rightarrow> None))"
| "AsType_list view [] = None"
| "AsType_list view (e # es) =
     (case AsType view e of Some x \<Rightarrow> Some x | None \<Rightarrow> AsType_list view es)"

declare AsType.simps [simp del] AsType_list.simps [simp]

section \<open>Operations\<close>

text \<open>The view that recognises \<^verbatim>\<open>*taggedError\<close>.\<close>

fun tagged_view :: "goerr \<Rightarrow> (ErrorTag \<times> goerr \<times> (string, string) gomap) option" where
  "tagged_view (taggedError t e m) = Some (t, e, m)"
| "tagged_view _ = None"

definition New :: "string \<Rightarrow> goerr option" where
  "New s = Some (ErrorString s)"

text \<open>\<^verbatim>\<open>errors.Join\<close>: nil errors are dropped; nil when nothing is left.\<close>

definition Join :: "goerr option list \<Rightarrow> goerr option" where
  "Join errs =
     (let es = List.map_filter (\<lambda>e. e) errs in if es = [] then None else Some (JoinErr es))"

fun Unwrap :: "goerr option \<Rightarrow> goerr option" where
  "Unwrap (Some (taggedError _ e _)) = Some e"
| "Unwrap (Some (WrapErr _ e)) = Some e"
| "Unwrap _ = None"

lemma Unwrap_size [termination_simp]: "Unwrap (Some e) = Some e' \<Longrightarrow> size e' < size e"
  by (cases e) auto

text \<open>The loop of \<open>UnwrapAll\<close> from a non-nil error; the argument is the variable \<^verbatim>\<open>last\<close>.\<close>

fun unwrap_loop :: "goerr \<Rightarrow> goerr" where
  "unwrap_loop lst = (case Unwrap (Some lst) of None \<Rightarrow> lst | Some e \<Rightarrow> unwrap_loop e)"

declare unwrap_loop.simps [simp del]

definition UnwrapAll :: "goerr option \<Rightarrow> goerr option" where
  "UnwrapAll err = map_option unwrap_loop err"

text \<open>The metadata suffix of \<open>taggedError.Error\<close>: the pairs in the order of their keys.\<close>

fun meta_text :: "(string \<times> string) list \<Rightarrow> string" where
  "meta_text [] = ''''"
| "meta_text [(k, v)] = k @ '': '' @ v"
| "meta_text ((k, v) # kvs) = k @ '': '' @ v @ '', '' @ meta_text kvs"

definition taggedError_Error :: "ErrorTag \<Rightarrow> string \<Rightarrow> (string, string) gomap \<Rightarrow> string" where
  "taggedError_Error tag inner meta =
     (let keys = sort (map fst meta);
          buf = (if 0 < length meta
                 then '' ['' @ meta_text (map (\<lambda>k. (k, the (map_of meta k))) keys) @ '']''
                 else '''')
      in if tag = '''' then inner @ buf else tag @ '': '' @ inner @ buf)"

text \<open>The message of an error; \<^verbatim>\<open>errors.Join\<close> puts one message per line.\<close>

fun err_text :: "goerr \<Rightarrow> string"
  and err_lines :: "goerr list \<Rightarrow> string" where
  "err_text (ErrorString s) = s"
| "err_text (Sentinel x) = sentinel_text x"
| "err_text (ConstError s) = s"
| "err_text (taggedError t e m) = taggedError_Error t (err_text e) m"
| "err_text (WrapErr msg _) = msg"
| "err_text (WrapErrs msg _) = msg"
| "err_text (JoinErr es) = err_lines es"
| "err_text (PgErr p) = pg_errmsg p"
| "err_text (PqErr p) = pq_errmsg p"
| "err_text (OpaqueErr s) = s"
| "err_lines [] = ''''"
| "err_lines (e # es) =
     (if es = [] then err_text e else err_text e @ [char_of (10::nat)] @ err_lines es)"

text \<open>\<^verbatim>\<open>fmt.Errorf\<close> with a text prefix and a final \<^verbatim>\<open>%w\<close>, the only wrapping form the repository uses.\<close>

definition Errorf_w :: "string \<Rightarrow> goerr \<Rightarrow> goerr" where
  "Errorf_w prefix e = WrapErr (prefix @ err_text e) e"

text \<open>The loop of \<open>Tag\<close> over the key-value arguments; a final key alone gets an empty value.\<close>

fun kv_meta :: "string list \<Rightarrow> (string, string) gomap \<Rightarrow> (string, string) gomap" where
  "kv_meta [] m = m"
| "kv_meta [k] m = gomap_set k '''' m"
| "kv_meta (k # v # kvs) m = kv_meta kvs (gomap_set k v m)"

fun Tag :: "goerr option \<Rightarrow> ErrorTag \<Rightarrow> string list \<Rightarrow> goerr option" where
  "Tag None tag kvpairs = None"
| "Tag (Some e) tag kvpairs = Some (taggedError tag e (kv_meta kvpairs []))"

definition TagNew :: "string \<Rightarrow> ErrorTag \<Rightarrow> string list \<Rightarrow> goerr option" where
  "TagNew msg tag kvpairs = Tag (New msg) tag kvpairs"

fun TagOnce :: "goerr option \<Rightarrow> ErrorTag \<Rightarrow> string list \<Rightarrow> goerr option" where
  "TagOnce None tag kvpairs = None"
| "TagOnce (Some e) tag kvpairs =
     (case AsType tagged_view e of Some _ \<Rightarrow> Some e | None \<Rightarrow> Tag (Some e) tag kvpairs)"

section \<open>Lemmas on the tree search\<close>

lemma AsType_err_nodes:
  "AsType view e = find_map view (err_nodes e)"
  "AsType_list view es = find_map view (concat (map err_nodes es))"
proof (induction view e and view es rule: AsType_AsType_list.induct)
  case (1 view e)
  then show ?case
    by (subst AsType.simps, subst err_nodes.simps) (cases e; auto split: option.splits)
qed (auto simp: find_map_append split: option.splits)

lemma err_nodes_size: "x \<in> set (err_nodes e) \<Longrightarrow> size x \<le> size e"
proof (induction e rule: err_nodes.induct)
  case (1 e)
  show ?case
  proof (cases "x = e")
    case False
    with "1.prems" obtain c where c: "c \<in> set (err_children e)" "x \<in> set (err_nodes c)"
      by (subst (asm) err_nodes.simps) auto
    with "1.IH" have "size x \<le> size c" by blast
    with c err_children_size show ?thesis by fastforce
  qed simp
qed

lemma AsType_tagged_size [termination_simp]:
  assumes "AsType tagged_view e = Some (t, e', m)"
  shows "size e' < size e"
proof -
  from assms obtain x where "x \<in> set (err_nodes e)" "tagged_view x = Some (t, e', m)"
    by (auto simp: AsType_err_nodes dest: find_map_SomeD)
  then have "x = taggedError t e' m" "size x \<le> size e"
    by (auto elim: tagged_view.elims intro: err_nodes_size)
  then show ?thesis by simp
qed

section \<open>Queries along the tagged errors\<close>

fun IsTag :: "goerr option \<Rightarrow> ErrorTag \<Rightarrow> bool" where
  "IsTag None tag = False"
| "IsTag (Some e) tag =
     (case AsType tagged_view e of
        Some (t, e', m) \<Rightarrow> (if t = tag then True else IsTag (Some e') tag)
      | None \<Rightarrow> False)"

fun HasKey :: "goerr option \<Rightarrow> string \<Rightarrow> bool" where
  "HasKey None key = False"
| "HasKey (Some e) key =
     (case AsType tagged_view e of
        Some (t, e', m) \<Rightarrow> (if map_of m key \<noteq> None then True else HasKey (Some e') key)
      | None \<Rightarrow> False)"

fun KeyValue :: "goerr option \<Rightarrow> string \<Rightarrow> string" where
  "KeyValue None key = ''''"
| "KeyValue (Some e) key =
     (case AsType tagged_view e of
        Some (t, e', m) \<Rightarrow> (case map_of m key of Some v \<Rightarrow> v | None \<Rightarrow> KeyValue (Some e') key)
      | None \<Rightarrow> '''')"

declare IsTag.simps(2) [simp del] HasKey.simps(2) [simp del] KeyValue.simps(2) [simp del]

text \<open>
  The assignment \<^verbatim>\<open>te.meta[key] = value\<close> of \<open>WithKeyValue\<close> on the first tagged error that
  \<^verbatim>\<open>AsType\<close> finds; \<open>None\<close> when the tree has no tagged error.
\<close>

fun set_tagged :: "string \<Rightarrow> string \<Rightarrow> goerr \<Rightarrow> goerr option"
  and set_tagged_list :: "string \<Rightarrow> string \<Rightarrow> goerr list \<Rightarrow> goerr list option" where
  "set_tagged k v (taggedError t e m) = Some (taggedError t e (gomap_set k v m))"
| "set_tagged k v (WrapErr msg e) = map_option (WrapErr msg) (set_tagged k v e)"
| "set_tagged k v (WrapErrs msg es) = map_option (WrapErrs msg) (set_tagged_list k v es)"
| "set_tagged k v (JoinErr es) = map_option JoinErr (set_tagged_list k v es)"
| "set_tagged k v _ = None"
| "set_tagged_list k v [] = None"
| "set_tagged_list k v (e # es) =
     (case set_tagged k v e of Some e' \<Rightarrow> Some (e' # es)
      | None \<Rightarrow> map_option ((#) e) (set_tagged_list k v es))"

fun WithKeyValue :: "goerr option \<Rightarrow> string \<Rightarrow> string \<Rightarrow> goerr option" where
  "WithKeyValue None key v = None"
| "WithKeyValue (Some e) key v =
     (case set_tagged key v e of Some e' \<Rightarrow> Some e' | None \<Rightarrow> Tag (Some e) '''' [key, v])"

definition CodeKey :: string where "CodeKey = ''code''"

definition UserMessageKey :: string where "UserMessageKey = ''usermsg''"

definition RootErrAsUserMsg :: string where "RootErrAsUserMsg = ''/''"

definition Code :: "goerr option \<Rightarrow> int" where
  "Code e = (case go_Atoi (KeyValue e CodeKey) of Some n \<Rightarrow> n | None \<Rightarrow> 0)"

definition UserMessage :: "goerr option \<Rightarrow> string \<Rightarrow> string" where
  "UserMessage e defaultMsg =
     (let msg = KeyValue e UserMessageKey in
      if msg = '''' then
        (if defaultMsg = RootErrAsUserMsg then
           (case UnwrapAll e of Some root \<Rightarrow> err_text root | None \<Rightarrow> '''')
         else defaultMsg)
      else msg)"

text \<open>
  \<^verbatim>\<open>errors.Is\<close> for the targets the repository compares with: constants (equal by value) and
  sentinels of the standard library (equal by identity).
\<close>

datatype err_target = ConstTarget string | SentinelTarget sentinel

fun matches_target :: "err_target \<Rightarrow> goerr \<Rightarrow> unit option" where
  "matches_target (ConstTarget s) (ConstError s') = (if s = s' then Some () else None)"
| "matches_target (SentinelTarget x) (Sentinel x') = (if x = x' then Some () else None)"
| "matches_target _ _ = None"

fun Is :: "goerr option \<Rightarrow> err_target \<Rightarrow> bool" where
  "Is None target = False"
| "Is (Some e) target = (AsType (matches_target target) e \<noteq> None)"

section \<open>Reference definitions\<close>

text \<open>
  Every tag and metadata of the whole tree, in the order of the tree search, and the same
  list restricted to what the recursive queries visit: the first tagged error, then the
  first tagged error below it, and so on.
\<close>

definition tag_records :: "goerr \<Rightarrow> (ErrorTag \<times> (string, string) gomap) list" where
  "tag_records e =
     concat (map (\<lambda>x. case tagged_view x of None \<Rightarrow> [] | Some (t, _, m) \<Rightarrow> [(t, m)]) (err_nodes e))"

fun tag_spine :: "goerr \<Rightarrow> (ErrorTag \<times> (string, string) gomap) list" where
  "tag_spine e =
     (case AsType tagged_view e of None \<Rightarrow> [] | Some (t, e', m) \<Rightarrow> (t, m) # tag_spine e')"

declare tag_spine.simps [simp del]

text \<open>A chain: no node wraps more than one error.\<close>

definition err_chain :: "goerr \<Rightarrow> bool" where
  "err_chain e \<longleftrightarrow> (\<forall>x \<in> set (err_nodes e). length (err_children x) \<le> 1)"

lemma tag_spine_None: "AsType tagged_view e = None \<Longrightarrow> tag_spine e = []"
  by (simp add: tag_spine.simps)

lemma tag_spine_Some:
  "AsType tagged_view e = Some (t, e', m) \<Longrightarrow> tag_spine e = (t, m) # tag_spine e'"
  by (subst tag_spine.simps) simp

lemma IsTag_spine: "IsTag (Some e) tag \<longleftrightarrow> (\<exists>m. (tag, m) \<in> set (tag_spine e))"
  by (induction e rule: tag_spine.induct)
    (subst IsTag.simps, subst tag_spine.simps, auto split: option.splits)

lemma HasKey_spine: "HasKey (Some e) key \<longleftrightarrow> (\<exists>(t, m) \<in> set (tag_spine e). map_of m key \<noteq> None)"
  by (induction e rule: tag_spine.induct)
    (subst HasKey.simps, subst tag_spine.simps, auto split: option.splits)

lemma KeyValue_spine:
  "KeyValue (Some e) key =
     (case find_map (\<lambda>(t, m). map_of m key) (tag_spine e) of Some v \<Rightarrow> v | None \<Rightarrow> [])"
  by (induction e rule: tag_spine.induct)
    (subst KeyValue.simps, subst tag_spine.simps, auto split: option.splits)

section \<open>The tree search on each constructor\<close>

lemma AsType_tagged_simps [simp]:
  "AsType tagged_view (taggedError t e m) = Some (t, e, m)"
  "AsType tagged_view (WrapErr msg e) = AsType tagged_view e"
  "AsType tagged_view (WrapErrs msg es) = AsType_list tagged_view es"
  "AsType tagged_view (JoinErr es) = AsType_list tagged_view es"
  "AsType tagged_view (ErrorString s) = None"
  "AsType tagged_view (Sentinel x) = None"
  "AsType tagged_view (ConstError s) = None"
  "AsType tagged_view (PgErr pg) = None"
  "AsType tagged_view (PqErr pq) = None"
  "AsType tagged_view (OpaqueErr s) = None"
  by (simp_all add: AsType.simps)

lemma AsType_Is_simps [simp]:
  "AsType (matches_target g) (taggedError t e m) = AsType (matches_target g) e"
  "AsType (matches_target g) (WrapErr msg e) = AsType (matches_target g) e"
  "AsType (matches_target g) (WrapErrs msg es) = AsType_list (matches_target g) es"
  "AsType (matches_target g) (JoinErr es) = AsType_list (matches_target g) es"
  "AsType (matches_target g) (ErrorString s) = None"
  "AsType (matches_target g) (Sentinel x) = matches_target g (Sentinel x)"
  "AsType (matches_target g) (ConstError s) = matches_target g (ConstError s)"
  "AsType (matches_target g) (PgErr pg) = None"
  "AsType (matches_target g) (PqErr pq) = None"
  "AsType (matches_target g) (OpaqueErr s) = None"
  by (cases g; simp add: AsType.simps)+

lemma tag_records_unfold:
  "tag_records e =
     (case tagged_view e of None \<Rightarrow> [] | Some (t, _, m) \<Rightarrow> [(t, m)])
     @ concat (map tag_records (err_children e))"
  unfolding tag_records_def
  by (subst err_nodes.simps) (simp add: concat_map_concat comp_def)

lemma tag_records_simps [simp]:
  "tag_records (taggedError t e m) = (t, m) # tag_records e"
  "tag_records (WrapErr msg e) = tag_records e"
  "tag_records (WrapErrs msg es) = concat (map tag_records es)"
  "tag_records (JoinErr es) = concat (map tag_records es)"
  by (subst tag_records_unfold, simp)+

lemma err_chain_child: "err_chain e \<Longrightarrow> c \<in> set (err_children e) \<Longrightarrow> err_chain c"
  unfolding err_chain_def by (subst (asm) err_nodes.simps) auto

lemma err_chain_children: "err_chain e \<Longrightarrow> length (err_children e) \<le> 1"
  unfolding err_chain_def by (subst (asm) err_nodes.simps) auto

lemma AsType_only_child:
  assumes "tagged_view e = None" "err_children e = [c]"
  shows "AsType tagged_view e = AsType tagged_view c"
  using assms by (cases e) (auto split: option.splits)

lemma AsType_no_child:
  assumes "tagged_view e = None" "err_children e = []"
  shows "AsType tagged_view e = None"
  using assms by (cases e) auto

lemma tag_spine_chain: "err_chain e \<Longrightarrow> tag_spine e = tag_records e"
proof (induction e rule: err_nodes.induct)
  case (1 e)
  show ?case
  proof (cases "tagged_view e")
    case (Some r)
    then obtain t e' m where e: "e = taggedError t e' m"
      by (cases e) auto
    with "1.prems" have "err_chain e'" by (auto intro: err_chain_child)
    with e "1.IH" have "tag_spine e' = tag_records e'" by simp
    with e show ?thesis
      by (subst tag_records_unfold) (simp add: tag_spine_Some)
  next
    case None
    from err_chain_children [OF "1.prems"] consider "err_children e = []" | c where "err_children e = [c]"
      by (cases "err_children e") auto
    then show ?thesis
    proof cases
      case 1
      with None show ?thesis
        by (subst tag_records_unfold) (simp add: tag_spine_None AsType_no_child)
    next
      case (2 c)
      with "1.prems" have "err_chain c" by (auto intro: err_chain_child)
      with 2 "1.IH" have "tag_spine c = tag_records c" by simp
      moreover from None 2 have "tag_spine e = tag_spine c"
        by (simp add: tag_spine.simps AsType_only_child)
      ultimately show ?thesis using None 2
        by (subst tag_records_unfold) simp
    qed
  qed
qed

section \<open>Updating the first tagged error\<close>

lemma set_tagged_None:
  "set_tagged k v e = None \<longleftrightarrow> AsType tagged_view e = None"
  "set_tagged_list k v es = None \<longleftrightarrow> AsType_list tagged_view es = None"
  by (induction k v e and k v es rule: set_tagged_set_tagged_list.induct)
    (auto split: option.splits)

lemma set_tagged_Some:
  "set_tagged k v e = Some e' \<Longrightarrow> AsType tagged_view e = Some (t, i, m) \<Longrightarrow>
     AsType tagged_view e' = Some (t, i, gomap_set k v m)"
  "set_tagged_list k v es = Some es' \<Longrightarrow> AsType_list tagged_view es = Some (t, i, m) \<Longrightarrow>
     AsType_list tagged_view es' = Some (t, i, gomap_set k v m)"
proof (induction k v e and k v es arbitrary: e' and es' rule: set_tagged_set_tagged_list.induct)
  case (7 k v e es)
  then show ?case
    using set_tagged_None(1) [of k v e] by (auto split: option.splits)
qed auto

lemma KeyValue_tagged:
  "AsType tagged_view e = Some (t, i, m) \<Longrightarrow>
     KeyValue (Some e) key = (case map_of m key of Some v \<Rightarrow> v | None \<Rightarrow> KeyValue (Some i) key)"
  by (simp add: KeyValue.simps)

lemma KeyValue_untagged: "AsType tagged_view e = None \<Longrightarrow> KeyValue (Some e) key = []"
  by (simp add: KeyValue.simps)

lemma IsTag_tagged:
  "AsType tagged_view e = Some (t, i, m) \<Longrightarrow> IsTag (Some e) tag \<longleftrightarrow> t = tag \<or> IsTag (Some i) tag"
  by (simp add: IsTag.simps)

lemma IsTag_untagged: "AsType tagged_view e = None \<Longrightarrow> \<not> IsTag (Some e) tag"
  by (simp add: IsTag.simps)

lemmas tag_query = KeyValue_tagged KeyValue_untagged IsTag_tagged IsTag_untagged

section \<open>Key-value arguments\<close>

text \<open>The pairs that the key-value arguments stand for; a later pair wins over an earlier one.\<close>

fun kv_pairs :: "string list \<Rightarrow> (string \<times> string) list" where
  "kv_pairs [] = []"
| "kv_pairs [k] = [(k, [])]"
| "kv_pairs (k # v # kvs) = (k, v) # kv_pairs kvs"

lemma map_of_kv_meta: "map_of (kv_meta kvs m) = map_of m ++ map_of (rev (kv_pairs kvs))"
  by (induction kvs m rule: kv_meta.induct) (auto simp: map_add_def fun_eq_iff split: option.splits)

lemma kv_meta_wf: "gomap_wf m \<Longrightarrow> gomap_wf (kv_meta kvs m)"
  by (induction kvs m rule: kv_meta.induct) auto

lemma sort_keys_eq:
  assumes "gomap_wf m" "gomap_wf m'" "map_of m = map_of m'"
  shows "sort (map fst m) = sort (map fst m')"
proof -
  from assms(3) have "set (map fst m) = set (map fst m')"
    by (metis dom_map_of_conv_image_fst list.set_map)
  with assms(1,2) show ?thesis
    by (metis sorted_list_of_set_sort_remdups distinct_remdups_id)
qed

lemma taggedError_Error_cong:
  assumes "gomap_wf m" "gomap_wf m'" "map_of m = map_of m'"
  shows "taggedError_Error tag inner m = taggedError_Error tag inner m'"
proof -
  from assms have keys: "sort (map fst m) = sort (map fst m')" by (rule sort_keys_eq)
  then have "length m = length m'" by (metis length_map length_sort)
  with keys assms(3) show ?thesis by (simp add: taggedError_Error_def)
qed

section \<open>Properties\<close>

text \<open>
  C32. On an error chain (no node joins several errors) the queries see every tagged error of
  the chain: \<open>IsTag\<close> finds exactly the tags present, \<open>HasKey\<close> exactly the keys present, and
  \<open>KeyValue\<close> returns the value of the outermost error that has the key, or an empty string.
\<close>

theorem tag_queries_see_whole_chain:
  assumes "err_chain e"
  shows "(IsTag (Some e) tag \<longleftrightarrow> (\<exists>m. (tag, m) \<in> set (tag_records e)))
    \<and> (HasKey (Some e) key \<longleftrightarrow> (\<exists>(t, m) \<in> set (tag_records e). map_of m key \<noteq> None))
    \<and> KeyValue (Some e) key =
        (case find_map (\<lambda>(t, m). map_of m key) (tag_records e) of Some v \<Rightarrow> v | None \<Rightarrow> [])"
  using assms by (simp add: IsTag_spine HasKey_spine KeyValue_spine tag_spine_chain)

theorem tag_queries_see_whole_chain_witness:
  "KeyValue (Some (WrapErr ''w'' (taggedError ''a'' (taggedError ''b'' (ErrorString ''x'') [(''k'', ''v'')]) [])))
     ''k'' = ''v''"
proof -
  let ?e = "WrapErr ''w'' (taggedError ''a'' (taggedError ''b'' (ErrorString ''x'') [(''k'', ''v'')]) [])"
  have "err_chain ?e" by (simp add: err_chain_def err_nodes.simps)
  from tag_queries_see_whole_chain [OF this, of "''b''" "''k''"] show ?thesis by simp
qed

text \<open>
  On a joined error the queries follow the first tagged error only: what the second
  operand of \<^verbatim>\<open>errors.Join\<close> is tagged with is never consulted once the first operand is
  tagged, although that operand is part of the error's tree.
\<close>

theorem tag_queries_skip_joined_siblings:
  "IsTag (Join [Tag (Some a) t1 kvs1, Tag (Some b) t2 kvs2]) tag = IsTag (Tag (Some a) t1 kvs1) tag
   \<and> KeyValue (Join [Tag (Some a) t1 kvs1, Tag (Some b) t2 kvs2]) key = KeyValue (Tag (Some a) t1 kvs1) key
   \<and> (t2, kv_meta kvs2 []) \<in> set (tag_records (the (Join [Tag (Some a) t1 kvs1, Tag (Some b) t2 kvs2])))"
  by (simp add: Join_def map_filter_def tag_query)

text \<open>
  \<open>WithKeyValue\<close> on a non-nil error sets the key to the value, keeps the value of every
  other key and adds or removes no tag but the empty one.
\<close>

theorem WithKeyValue_set:
  "KeyValue (WithKeyValue (Some e) k v) k' = (if k' = k then v else KeyValue (Some e) k')
   \<and> (tag \<noteq> [] \<longrightarrow> IsTag (WithKeyValue (Some e) k v) tag = IsTag (Some e) tag)"
proof (cases "AsType tagged_view e")
  case None
  then have "set_tagged k v e = None" by (simp add: set_tagged_None)
  with None show ?thesis by (auto simp: tag_query)
next
  case (Some r)
  obtain t i m where r: "r = (t, i, m)" by (cases r)
  from Some obtain e' where e': "set_tagged k v e = Some e'"
    using set_tagged_None(1) [of k v e] by fastforce
  from set_tagged_Some(1) [OF e' Some [unfolded r]] e' Some r show ?thesis
    by (simp add: tag_query)
qed

theorem WithKeyValue_set_witness:
  "KeyValue (WithKeyValue (Some (ErrorString ''x'')) ''action'' ''login'') ''action'' = ''login''
   \<and> IsTag (WithKeyValue (Some (taggedError ''t'' (ErrorString ''x'') [])) ''a'' ''b'') ''t''"
  using WithKeyValue_set [of "ErrorString ''x''" "''action''" "''login''" "''action''" "''t''"]
    WithKeyValue_set [of "taggedError ''t'' (ErrorString ''x'') []" "''a''" "''b''" "''a''" "''t''"]
  by (simp add: tag_query)

text \<open>
  \<open>Tag\<close> on a non-nil error: a key reads as the last pair given for it (a final key
  without value reads as empty), any other key as before; so a status code printed with
  \<^verbatim>\<open>fmt.Sprint\<close> under "code" is what \<open>Code\<close> returns, for every 64-bit integer.
\<close>

theorem Tag_lookup:
  "KeyValue (Tag (Some e) tag kvs) key =
     (case map_of (rev (kv_pairs kvs)) key of Some v \<Rightarrow> v | None \<Rightarrow> KeyValue (Some e) key)
   \<and> (int64_ok n \<longrightarrow> Code (Tag (Some e) tag (''code'' # go_Sprint n # rest)) =
        (case map_of (rev (kv_pairs rest)) ''code'' of None \<Rightarrow> n
         | Some v \<Rightarrow> (case go_Atoi v of Some i \<Rightarrow> i | None \<Rightarrow> 0)))"
  by (simp add: KeyValue_tagged Code_def CodeKey_def map_of_kv_meta go_Atoi_Sprint
      map_add_def split: option.splits)

theorem Tag_lookup_witness:
  "Code (Tag (Some (ErrorString ''x'')) ''t'' [''code'', go_Sprint 409, ''parameter'', ''email'']) = 409"
proof -
  have "int64_ok 409" by (simp add: int64_ok_def)
  with Tag_lookup [of "ErrorString ''x''" "''t''" "[]" "''k''" 409 "[''parameter'', ''email'']"]
  show ?thesis by simp
qed

text \<open>
  The message of a tagged error depends on the metadata as a map only, not on the order in
  which the pairs were given (Go's map iteration order is unspecified): the keys are printed
  in sorted order.
\<close>

theorem tagged_message_order_independent:
  assumes "map_of (rev (kv_pairs kvs)) = map_of (rev (kv_pairs kvs'))"
  shows "map_option err_text (Tag e tag kvs) = map_option err_text (Tag e tag kvs')"
proof (cases e)
  case (Some x)
  have "map_of (kv_meta kvs []) = map_of (kv_meta kvs' [])"
    using assms by (simp add: map_of_kv_meta)
  then have "taggedError_Error tag (err_text x) (kv_meta kvs []) =
      taggedError_Error tag (err_text x) (kv_meta kvs' [])"
    by (intro taggedError_Error_cong) (simp_all add: kv_meta_wf)
  with Some show ?thesis by simp
qed simp

theorem tagged_message_order_independent_witness:
  "map_option err_text (Tag (New ''e'') ''t'' [''y'', ''2'', ''x'', ''1'']) = Some ''t: e [x: 1, y: 2]''"
proof -
  have "map_of (rev (kv_pairs [''y'', ''2'', ''x'', ''1''])) = map_of (rev (kv_pairs [''x'', ''1'', ''y'', ''2'']))"
    by (auto simp: fun_eq_iff)
  from tagged_message_order_independent [OF this, of "New ''e''" "''t''"] show ?thesis
    by (simp add: New_def gomap_set_code taggedError_Error_def)
qed

end
