(* ===== verification/Ctxvals.thy ===== *)
theory Ctxvals
  imports Errors
begin

text \<open>
  Go contexts and package \<^verbatim>\<open>ctxvals\<close> (\<^verbatim>\<open>src/ctxvals/ctxvals.go\<close>). A context is the chain of
  \<^verbatim>\<open>context.WithValue\<close> bindings, innermost first. Every package of the repository has a private
  key type (\<^verbatim>\<open>type ctxKey int\<close>), so keys carry the package. Values that are pointers to mutable
  objects (the logging container, the session) are addresses into an explicit store.
\<close>

section \<open>Contexts\<close>

datatype ctx_key =
    CtxvalsKey nat
  | PgdbKey nat
  | AcctctxKey nat
  | HTTPServerContextKey
  | LocalAddrContextKey

text \<open>\<^verbatim>\<open>sql.TxOptions\<close> and the options of package \<^verbatim>\<open>pgdb\<close> that embed it.\<close>

record sql_TxOptions =
  Isolation :: int
  ReadOnly :: bool

record TxOptions =
  sqlTxOptions :: sql_TxOptions
  RetryDeadlock :: bool

text \<open>
  The dynamic types stored in contexts. A pointer is an address or \<open>None\<close> for nil; \<open>'a\<close> is the
  account type, \<open>nat\<close> stands for the identity of loggers, servers and transactions.
\<close>

datatype 'a ctx_val =
    VLogger "nat option"
  | VKeyValues nat
  | VServer "nat option"
  | VAddr string
  | VTx nat
  | VTxOptions "TxOptions option"
  | VAccount "'a option"
  | VSession nat

type_synonym 'a ctx = "(ctx_key \<times> 'a ctx_val) list"

definition WithValue :: "'a ctx \<Rightarrow> ctx_key \<Rightarrow> 'a ctx_val \<Rightarrow> 'a ctx" where
  "WithValue c k v = (k, v) # c"

definition ctx_Value :: "'a ctx \<Rightarrow> ctx_key \<Rightarrow> 'a ctx_val option" where
  "ctx_Value c k = map_of c k"

lemma ctx_Value_WithValue [simp]:
  "ctx_Value (WithValue c k v) k' = (if k' = k then Some v else ctx_Value c k')"
  by (simp add: ctx_Value_def WithValue_def)

section \<open>The store of logging containers\<close>

text \<open>The maps allocated by \<open>WithKeyValue\<close>; \<open>'v\<close> is the type of logged values (\<^verbatim>\<open>any\<close>).\<close>

record 'v kv_store =
  kv_next :: nat
  kv_maps :: "nat \<Rightarrow> (string, 'v) gomap"

definition loggerKey :: ctx_key where "loggerKey = CtxvalsKey 0"

definition logKeyValueKey :: ctx_key where "logKeyValueKey = CtxvalsKey 1"

definition WithLogger :: "'a ctx \<Rightarrow> nat option \<Rightarrow> 'a ctx" where
  "WithLogger c logger = WithValue c loggerKey (VLogger logger)"

definition Logger :: "'a ctx \<Rightarrow> nat option" where
  "Logger c = (case ctx_Value c loggerKey of Some (VLogger l) \<Rightarrow> l | _ \<Rightarrow> None)"

text \<open>\<open>slog.Default()\<close> is the argument \<open>dflt\<close>.\<close>

definition LoggerOr :: "nat \<Rightarrow> 'a ctx \<Rightarrow> nat" where
  "LoggerOr dflt c = (case Logger c of None \<Rightarrow> dflt | Some l \<Rightarrow> l)"

definition ctxvals_WithKeyValue :: "'a ctx \<Rightarrow> 'v kv_store \<Rightarrow> 'a ctx \<times> 'v kv_store" where
  "ctxvals_WithKeyValue c st =
     (WithValue c logKeyValueKey (VKeyValues (kv_next st)),
      st\<lparr>kv_next := Suc (kv_next st), kv_maps := (kv_maps st)(kv_next st := [])\<rparr>)"

text \<open>The type assertion on the container: its address, if the context has one.\<close>

definition kv_container :: "'a ctx \<Rightarrow> nat option" where
  "kv_container c = (case ctx_Value c logKeyValueKey of Some (VKeyValues a) \<Rightarrow> Some a | _ \<Rightarrow> None)"

definition SetKeyValue :: "'a ctx \<Rightarrow> string \<Rightarrow> 'v \<Rightarrow> 'v kv_store \<Rightarrow> 'v kv_store" where
  "SetKeyValue c key v st =
     (case kv_container c of
        Some a \<Rightarrow> st\<lparr>kv_maps := (kv_maps st)(a := gomap_set key v (kv_maps st a))\<rparr>
      | None \<Rightarrow> st)"

definition ConsumeKeyValuePairs :: "'a ctx \<Rightarrow> 'v kv_store \<Rightarrow> (string, 'v) gomap \<times> 'v kv_store" where
  "ConsumeKeyValuePairs c st =
     (case kv_container c of
        Some a \<Rightarrow> (kv_maps st a, st\<lparr>kv_maps := (kv_maps st)(a := [])\<rparr>)
      | None \<Rightarrow> ([], st))"

definition HTTPServer :: "'a ctx \<Rightarrow> nat option" where
  "HTTPServer c = (case ctx_Value c HTTPServerContextKey of Some (VServer s) \<Rightarrow> s | _ \<Rightarrow> None)"

definition LocalAddr :: "'a ctx \<Rightarrow> string option" where
  "LocalAddr c = (case ctx_Value c LocalAddrContextKey of Some (VAddr a) \<Rightarrow> Some a | _ \<Rightarrow> None)"

lemmas ctxvals_defs = loggerKey_def logKeyValueKey_def WithLogger_def Logger_def LoggerOr_def
  ctxvals_WithKeyValue_def kv_container_def SetKeyValue_def ConsumeKeyValuePairs_def
  HTTPServer_def LocalAddr_def

section \<open>Properties\<close>

text \<open>A sequence of \<open>SetKeyValue\<close> calls on one context.\<close>

fun set_all :: "'a ctx \<Rightarrow> (string \<times> 'v) list \<Rightarrow> 'v kv_store \<Rightarrow> 'v kv_store" where
  "set_all c [] st = st"
| "set_all c ((k, v) # kvs) st = set_all c kvs (SetKeyValue c k v st)"

lemma SetKeyValue_container:
  "kv_container c = Some a \<Longrightarrow>
     map_of (kv_maps (SetKeyValue c k v st) a) = (map_of (kv_maps st a))(k \<mapsto> v)"
  by (simp add: SetKeyValue_def)

lemma set_all_container:
  "kv_container c = Some a \<Longrightarrow>
     map_of (kv_maps (set_all c kvs st) a) = map_of (kv_maps st a) ++ map_of (rev kvs)"
  by (induction c kvs st rule: set_all.induct)
    (auto simp: SetKeyValue_container map_add_def fun_eq_iff split: option.splits)

lemma set_all_no_container: "kv_container c = None \<Longrightarrow> set_all c kvs st = st"
  by (induction c kvs st rule: set_all.induct) (auto simp: SetKeyValue_def)

lemma kv_container_WithValue:
  "k \<noteq> logKeyValueKey \<Longrightarrow> kv_container (WithValue c k v) = kv_container c"
  by (simp add: kv_container_def)

text \<open>
  The logging container is shared with every context derived from it and is emptied by one
  consumption: pairs set through a context derived with any other key are all returned, the
  last value per key, and a second consumption returns nothing.
\<close>

theorem consume_returns_all_pairs_once:
  assumes "ctxvals_WithKeyValue c0 st0 = (c, st)"
    and "k \<noteq> logKeyValueKey"
    and "ConsumeKeyValuePairs c (set_all (WithValue c k v) kvs st) = (m, st')"
  shows "map_of m = map_of (rev kvs) \<and> fst (ConsumeKeyValuePairs c st') = []"
proof -
  have a: "kv_container c = Some (kv_next st0)" "kv_maps st (kv_next st0) = []"
    using assms(1) by (auto simp: ctxvals_WithKeyValue_def kv_container_def logKeyValueKey_def)
  then have "kv_container (WithValue c k v) = Some (kv_next st0)"
    using assms(2) by (simp add: kv_container_WithValue)
  from set_all_container [OF this, of kvs st] a assms(3) show ?thesis
    by (auto simp: ConsumeKeyValuePairs_def)
qed

theorem consume_returns_all_pairs_once_witness:
  "\<exists>c st m st'. ctxvals_WithKeyValue ([] :: nat ctx) \<lparr>kv_next = 0, kv_maps = \<lambda>_. []\<rparr> = (c, st)
     \<and> ConsumeKeyValuePairs c (set_all (WithValue c loggerKey (VLogger None))
         [(''a'', 1), (''b'', 7), (''a'', 2 :: nat)] st) = (m, st')
     \<and> map_of m ''a'' = Some 2 \<and> fst (ConsumeKeyValuePairs c st') = []"
proof -
  obtain c st where w: "ctxvals_WithKeyValue ([] :: nat ctx)
      \<lparr>kv_next = 0, kv_maps = \<lambda>_. ([] :: (string \<times> nat) list)\<rparr> = (c, st)"
    by fastforce
  obtain m st' where m: "ConsumeKeyValuePairs c (set_all (WithValue c loggerKey (VLogger None))
         [(''a'', 1), (''b'', 7), (''a'', 2)] st) = (m, st')"
    by fastforce
  have "loggerKey \<noteq> logKeyValueKey" by (simp add: ctxvals_defs)
  from consume_returns_all_pairs_once [OF w this m] w m show ?thesis by auto
qed

lemma SetKeyValue_dropped: "kv_container c = None \<Longrightarrow> SetKeyValue c k v st = st"
  by (simp add: SetKeyValue_def)

lemma Logger_WithLogger: "Logger (WithLogger c l) = l"
  by (simp add: ctxvals_defs)

lemma LoggerOr_WithLogger: "LoggerOr d (WithLogger c (Some l)) = l" "LoggerOr d (WithLogger c None) = d"
  by (simp_all add: ctxvals_defs)

end
