(* ===== verification/Pgdb.thy ===== *)
theory Pgdb
  imports Ctxvals
begin

text \<open>
  Package \<^verbatim>\<open>pgdb\<close> (\<^verbatim>\<open>src/pgdb/database.go\<close>): transactions with rollback and deadlock retry,
  contexts that carry the current transaction, SQL text escaping, and the decoding of
  driver errors. The driver behind the interfaces \<open>BeginTxer\<close> and \<open>Txer\<close> is a record of
  operations on a world \<open>'w\<close>; the random source and the wait on a context or a timer are
  operations of the Go runtime on the same world. Logging is not modelled.
\<close>

section \<open>Interfaces\<close>

text \<open>\<^verbatim>\<open>BeginTxer\<close> and the transaction methods of \<^verbatim>\<open>Txer\<close>; a transaction is a handle.\<close>

record 'w driver =
  BeginTx :: "sql_TxOptions option \<Rightarrow> 'w \<Rightarrow> nat res \<times> 'w"
  Commit :: "nat \<Rightarrow> 'w \<Rightarrow> goerr option \<times> 'w"
  Rollback :: "nat \<Rightarrow> 'w \<Rightarrow> goerr option \<times> 'w"

text \<open>
  \<^verbatim>\<open>rand.Int63n\<close>, and the \<^verbatim>\<open>select\<close> between \<^verbatim>\<open>ctx.Done()\<close> and \<^verbatim>\<open>time.After\<close>: the context's error
  when the context ends first, \<open>None\<close> when the time has passed.
\<close>

record 'w runtime =
  Int63n :: "int \<Rightarrow> 'w \<Rightarrow> int \<times> 'w"
  ctx_wait :: "int \<Rightarrow> 'w \<Rightarrow> goerr option \<times> 'w"

text \<open>What a query runs on: the connection or pool it was given, or a transaction.\<close>

datatype queryer = QConn | QTx nat

section \<open>Configuration\<close>

definition millisecond :: int where "millisecond = 1000000"

definition maxAttempts :: nat where "maxAttempts = 4"

definition baseBackoff :: int where "baseBackoff = 50 * millisecond"

definition maxBackoff :: int where "maxBackoff = 500 * millisecond"

definition maxJitter :: int where "maxJitter = 50 * millisecond"

definition ctxTx :: ctx_key where "ctxTx = PgdbKey 0"

definition ctxTxOpts :: ctx_key where "ctxTxOpts = PgdbKey 1"

definition setCtxTx :: "'a ctx \<Rightarrow> nat \<Rightarrow> 'a ctx" where
  "setCtxTx c tx = WithValue c ctxTx (VTx tx)"

definition getCtxTx :: "'a ctx \<Rightarrow> nat option" where
  "getCtxTx c = (case ctx_Value c ctxTx of Some (VTx tx) \<Rightarrow> Some tx | _ \<Rightarrow> None)"

definition getCtxTxOpts :: "'a ctx \<Rightarrow> TxOptions option" where
  "getCtxTxOpts c = (case ctx_Value c ctxTxOpts of Some (VTxOptions opts) \<Rightarrow> opts | _ \<Rightarrow> None)"

definition WithTxOptions :: "'a ctx \<Rightarrow> TxOptions option \<Rightarrow> 'a ctx" where
  "WithTxOptions c opts = WithValue c ctxTxOpts (VTxOptions opts)"

section \<open>Driver errors\<close>

fun sqlstate_view :: "goerr \<Rightarrow> string option" where
  "sqlstate_view (PgErr p) = Some (pg_Code p)"
| "sqlstate_view (PqErr p) = Some (pq_Code p)"
| "sqlstate_view _ = None"

fun SQLState :: "goerr option \<Rightarrow> string" where
  "SQLState None = []"
| "SQLState (Some e) = (case AsType sqlstate_view e of Some code \<Rightarrow> code | None \<Rightarrow> [])"

definition isDeadlock :: "goerr option \<Rightarrow> bool" where
  "isDeadlock err = (let code = SQLState err in code = ''40001'' \<or> code = ''40P01'')"

record ProtocolError =
  pe_Severity :: string
  pe_Code :: string
  pe_Message :: string
  pe_Detail :: string
  pe_Hint :: string
  pe_Position :: int
  pe_InternalPosition :: int
  pe_InternalQuery :: string
  pe_Where :: string
  pe_SchemaName :: string
  pe_TableName :: string
  pe_ColumnName :: string
  pe_DataTypeName :: string
  pe_ConstraintName :: string
  pe_File :: string
  pe_Line :: int
  pe_Routine :: string
  pe_errmsg :: string

definition ProtocolError_Error :: "ProtocolError \<Rightarrow> string" where
  "ProtocolError_Error pe = pe_errmsg pe"

definition of_pg_error :: "pg_error \<Rightarrow> ProtocolError" where
  "of_pg_error e =
     \<lparr>pe_Severity = pg_Severity e, pe_Code = pg_Code e, pe_Message = pg_Message e,
      pe_Detail = pg_Detail e, pe_Hint = pg_Hint e, pe_Position = pg_Position e,
      pe_InternalPosition = pg_InternalPosition e, pe_InternalQuery = pg_InternalQuery e,
      pe_Where = pg_Where e, pe_SchemaName = pg_SchemaName e, pe_TableName = pg_TableName e,
      pe_ColumnName = pg_ColumnName e, pe_DataTypeName = pg_DataTypeName e,
      pe_ConstraintName = pg_ConstraintName e, pe_File = pg_File e, pe_Line = pg_Line e,
      pe_Routine = pg_Routine e, pe_errmsg = pg_errmsg e\<rparr>"

text \<open>The numbers of a lib/pq error are text; a conversion error is ignored.\<close>

definition of_pq_error :: "pq_error \<Rightarrow> ProtocolError" where
  "of_pq_error e =
     (let pos = fst (go_Atoi_full (pq_Position e));
          ipos = fst (go_Atoi_full (pq_InternalPosition e));
          line = fst (go_Atoi_full (pq_Line e))
      in \<lparr>pe_Severity = pq_Severity e, pe_Code = pq_Code e, pe_Message = pq_Message e,
          pe_Detail = pq_Detail e, pe_Hint = pq_Hint e, pe_Position = wrap32 pos,
          pe_InternalPosition = wrap32 ipos, pe_InternalQuery = pq_InternalQuery e,
          pe_Where = pq_Where e, pe_SchemaName = pq_Schema e, pe_TableName = pq_Table e,
          pe_ColumnName = pq_Column e, pe_DataTypeName = pq_DataTypeName e,
          pe_ConstraintName = pq_Constraint e, pe_File = pq_File e, pe_Line = wrap32 line,
          pe_Routine = pq_Routine e, pe_errmsg = pq_errmsg e\<rparr>)"

fun pg_view :: "goerr \<Rightarrow> pg_error option" where
  "pg_view (PgErr p) = Some p"
| "pg_view _ = None"

fun pq_view :: "goerr \<Rightarrow> pq_error option" where
  "pq_view (PqErr p) = Some p"
| "pq_view _ = None"

fun AsProtocolError :: "goerr option \<Rightarrow> ProtocolError option" where
  "AsProtocolError None = None"
| "AsProtocolError (Some e) =
     (case AsType pg_view e of
        Some p \<Rightarrow> Some (of_pg_error p)
      | None \<Rightarrow> (case AsType pq_view e of Some p \<Rightarrow> Some (of_pq_error p) | None \<Rightarrow> None))"

section \<open>Transactions\<close>

text \<open>
  One attempt. The function \<open>fn\<close> returns an error or a value: a Go closure returns nil and leaves
  its value in a captured variable. The deferred rollback runs on every way out, also when
  \<open>fn\<close> panics; its error is dropped.
\<close>

type_synonym ('a, 'w, 'r) tx_fn = "'a ctx \<Rightarrow> nat \<Rightarrow> 'w \<Rightarrow> 'r res outcome \<times> 'w"

text \<open>\<^verbatim>\<open>errors.Join(err, rberr)\<close> for an error \<open>err\<close> that is not nil.\<close>

definition join_err :: "goerr \<Rightarrow> goerr option \<Rightarrow> goerr" where
  "join_err err rberr = JoinErr (err # (case rberr of None \<Rightarrow> [] | Some e \<Rightarrow> [e]))"

definition doTx :: "'w driver \<Rightarrow> 'a ctx \<Rightarrow> sql_TxOptions option \<Rightarrow> ('a, 'w, 'r) tx_fn \<Rightarrow> 'w
    \<Rightarrow> 'r res outcome \<times> 'w" where
  "doTx btx c sqlOpts fn w =
     (case BeginTx btx sqlOpts w of
        (Inl err, w1) \<Rightarrow> (Ret (Inl err), w1)
      | (Inr tx, w1) \<Rightarrow>
          (case fn (setCtxTx c tx) tx w1 of
             (Panic p, w2) \<Rightarrow> (Panic p, snd (Rollback btx tx w2))
           | (Ret (Inl err), w2) \<Rightarrow>
               (case Rollback btx tx w2 of
                  (rberr, w3) \<Rightarrow> (Ret (Inl (join_err err rberr)), snd (Rollback btx tx w3)))
           | (Ret (Inr x), w2) \<Rightarrow>
               (case Commit btx tx w2 of
                  (cerr, w3) \<Rightarrow>
                    (Ret (case cerr of None \<Rightarrow> Inr x | Some e \<Rightarrow> Inl e), snd (Rollback btx tx w3)))))"

text \<open>Exponential backoff with jitter, in the 64-bit nanoseconds of \<^verbatim>\<open>time.Duration\<close>.\<close>

definition calculateBackoff :: "'w runtime \<Rightarrow> nat \<Rightarrow> 'w \<Rightarrow> int \<times> 'w" where
  "calculateBackoff rt attemptMinusOne w =
     (let backoff = min (wrap64 (baseBackoff * wrap64 (2 ^ attemptMinusOne))) maxBackoff
      in case Int63n rt maxJitter w of (j, w') \<Rightarrow> (wrap64 (backoff + j), w'))"

text \<open>The \<^verbatim>\<open>for\<close> loop of \<open>Tx\<close>; \<open>attempts\<close> is the counter before the iteration.\<close>

function tx_loop :: "'w driver \<Rightarrow> 'w runtime \<Rightarrow> 'a ctx \<Rightarrow> sql_TxOptions option \<Rightarrow> bool
    \<Rightarrow> ('a, 'w, 'r) tx_fn \<Rightarrow> nat \<Rightarrow> 'w \<Rightarrow> 'r res outcome \<times> 'w" where
  "tx_loop btx rt c sqlOpts retryDeadlock fn attempts w =
     (case doTx btx c sqlOpts fn w of
        (Ret (Inl err), w1) \<Rightarrow>
          if retryDeadlock \<and> isDeadlock (Some err) \<and> attempts + 1 < maxAttempts then
            (case calculateBackoff rt attempts w1 of
               (backoff, w2) \<Rightarrow>
                 (case ctx_wait rt backoff w2 of
                    (Some e, w3) \<Rightarrow> (Ret (Inl e), w3)
                  | (None, w3) \<Rightarrow> tx_loop btx rt c sqlOpts retryDeadlock fn (attempts + 1) w3))
          else (Ret (Inl err), w1)
      | (r, w1) \<Rightarrow> (r, w1))"
  by pat_completeness auto
termination
  by (relation "measure (\<lambda>(btx, rt, c, o', r, fn, attempts, w). maxAttempts - attempts)") auto

declare tx_loop.simps [simp del]

definition zero_sql_TxOptions :: sql_TxOptions where
  "zero_sql_TxOptions = \<lparr>Isolation = 0, ReadOnly = False\<rparr>"

definition Tx :: "'w driver \<Rightarrow> 'w runtime \<Rightarrow> 'a ctx \<Rightarrow> TxOptions option \<Rightarrow> ('a, 'w, 'r) tx_fn \<Rightarrow> 'w
    \<Rightarrow> 'r res outcome \<times> 'w" where
  "Tx btx rt c opts0 fn w =
     (let opts = (if opts0 = None then getCtxTxOpts c else opts0);
          sqlOpts = (case opts of
                       Some p \<Rightarrow> if sqlTxOptions p \<noteq> zero_sql_TxOptions then Some (sqlTxOptions p) else None
                     | None \<Rightarrow> None);
          retryDeadlock = (case opts of Some p \<Rightarrow> RetryDeadlock p | None \<Rightarrow> False)
      in tx_loop btx rt c sqlOpts retryDeadlock fn 0 w)"

definition EnsureTx :: "'w driver \<Rightarrow> 'w runtime \<Rightarrow> 'a ctx \<Rightarrow> ('a, 'w, 'r) tx_fn \<Rightarrow> 'w
    \<Rightarrow> 'r res outcome \<times> 'w" where
  "EnsureTx btx rt c fn w =
     (case getCtxTx c of
        None \<Rightarrow> Tx btx rt c None fn w
      | Some tx \<Rightarrow>
          (case fn c tx w of
             (Ret (Inl err), w1) \<Rightarrow>
               (case Rollback btx tx w1 of (rberr, w2) \<Rightarrow> (Ret (Inl (join_err err rberr)), w2))
           | (r, w1) \<Rightarrow> (r, w1)))"

definition EnsureQueryer :: "'a ctx \<Rightarrow> queryer \<Rightarrow> ('a ctx \<Rightarrow> queryer \<Rightarrow> 'w \<Rightarrow> 'r \<times> 'w) \<Rightarrow> 'w \<Rightarrow> 'r \<times> 'w" where
  "EnsureQueryer c q fn w = fn c (case getCtxTx c of Some tx \<Rightarrow> QTx tx | None \<Rightarrow> q) w"

definition ErrNoTx :: goerr where "ErrNoTx = ConstError ''no current transaction''"

definition RequireTx :: "'w driver \<Rightarrow> 'a ctx \<Rightarrow> ('a, 'w, 'r) tx_fn \<Rightarrow> 'w \<Rightarrow> 'r res outcome \<times> 'w" where
  "RequireTx btx c fn w =
     (case getCtxTx c of
        None \<Rightarrow> (Ret (Inl ErrNoTx), w)
      | Some tx \<Rightarrow>
          (case fn c tx w of
             (Ret (Inl err), w1) \<Rightarrow>
               (case Rollback btx tx w1 of (rberr, w2) \<Rightarrow> (Ret (Inl (join_err err rberr)), w2))
           | (r, w1) \<Rightarrow> (r, w1)))"

section \<open>SQL text\<close>

definition QuoteEsc :: "string \<Rightarrow> string" where
  "QuoteEsc s = [CHR 0x27] @ concat (map (\<lambda>c. if c = CHR 0x27 then [CHR 0x27, CHR 0x27] else [c]) s) @ [CHR 0x27]"

definition LikeEsc :: "string \<Rightarrow> string" where
  "LikeEsc s =
     concat (map (\<lambda>c. if c = CHR 0x5C then [CHR 0x5C, CHR 0x5C]
                      else if c = CHR ''%'' then [CHR 0x5C, CHR ''%'']
                      else if c = CHR ''_'' then [CHR 0x5C, CHR ''_'']
                      else [c]) s)"

section \<open>Escaping is exact\<close>

text \<open>
  How PostgreSQL reads a string literal (with standard-conforming strings): the text of the
  literal and what follows it. A doubled quote inside stands for one quote. A literal goes on after white space with a newline,
  comments included, that a quote follows: \<open>literal_continued\<close> gives what is after that quote. It keeps
  whether a newline was read and whether it is inside a comment.
\<close>

fun literal_continued :: "bool \<Rightarrow> bool \<Rightarrow> string \<Rightarrow> string option" where
  "literal_continued newline comment [] = None"
| "literal_continued newline comment (c # s) =
     (if c = CHR 0x0A \<or> c = CHR 0x0D then literal_continued True False s
      else if comment then literal_continued newline True s
      else if c \<in> {CHR '' '', CHR 0x09, CHR 0x0B, CHR 0x0C} then literal_continued newline False s
      else if c = CHR ''-'' \<and> s \<noteq> [] \<and> hd s = CHR ''-'' then literal_continued newline True s
      else if c = CHR 0x27 \<and> newline then Some s
      else None)"

lemma literal_continued_shorter: "literal_continued newline comment s = Some s' \<Longrightarrow> length s' < length s"
  by (induction newline comment s rule: literal_continued.induct) (auto split: if_splits)

function literal_body :: "string \<Rightarrow> (string \<times> string) option" where
  "literal_body [] = None"
| "literal_body (c # s) =
     (if c \<noteq> CHR 0x27 then map_option (apfst ((#) c)) (literal_body s)
      else if s \<noteq> [] \<and> hd s = CHR 0x27 then map_option (apfst ((#) c)) (literal_body (tl s))
      else (case literal_continued False False s of None \<Rightarrow> Some ([], s) | Some s' \<Rightarrow> literal_body s'))"
  by pat_completeness auto
termination
  by (relation "measure length") (auto dest: literal_continued_shorter)

definition read_literal :: "string \<Rightarrow> (string \<times> string) option" where
  "read_literal s = (case s of [] \<Rightarrow> None | c # s' \<Rightarrow> if c = CHR 0x27 then literal_body s' else None)"

text \<open>The LIKE operator with its default escape character.\<close>

fun like_match :: "string \<Rightarrow> string \<Rightarrow> bool" where
  "like_match [] t = (t = [])"
| "like_match (c # p) t =
     (if c = CHR ''%'' then like_match p t \<or> (case t of [] \<Rightarrow> False | x # t' \<Rightarrow> like_match (c # p) t')
      else if c = CHR ''_'' then (case t of [] \<Rightarrow> False | x # t' \<Rightarrow> like_match p t')
      else if c = CHR 0x5C then
        (case p of [] \<Rightarrow> False
         | d # p' \<Rightarrow> (case t of [] \<Rightarrow> False | x # t' \<Rightarrow> x = d \<and> like_match p' t'))
      else (case t of [] \<Rightarrow> False | x # t' \<Rightarrow> x = c \<and> like_match p t'))"

lemma literal_body_esc:
  "literal_body (concat (map (\<lambda>c. if c = CHR 0x27 then [CHR 0x27, CHR 0x27] else [c]) s) @ rest)
    = map_option (apfst ((@) s)) (literal_body rest)"
  by (induction s; cases "literal_body rest") (auto simp: option.map_comp comp_def)

text \<open>
  C27. No input can end the literal that \<open>QuoteEsc\<close> makes, and none is lost: what the server reads is the original string, and the text that
  follows is untouched, unless that text itself goes on with the literal, in one of two ways: by starting with a quote, which then stands
  for one more quote of the literal, or with white space that has a newline before another quote. Then the original string is the start
  of the longer literal.
\<close>

theorem QuoteEsc_reads_back:
  "read_literal (QuoteEsc s @ rest) =
     (if rest \<noteq> [] \<and> hd rest = CHR 0x27 then map_option (apfst ((@) (s @ [CHR 0x27]))) (literal_body (tl rest))
      else (case literal_continued False False rest of
              None \<Rightarrow> Some (s, rest)
            | Some rest' \<Rightarrow> map_option (apfst ((@) s)) (literal_body rest')))"
  using literal_body_esc [of s "CHR 0x27 # rest"]
  by (cases "literal_body (tl rest)") (auto simp: QuoteEsc_def read_literal_def split: option.splits)

text \<open>A hostile string is read back before the rest of a condition, and continued by a literal on the next line.\<close>

theorem QuoteEsc_reads_back_witness:
  "read_literal (QuoteEsc (CHR 0x27 # ''; DROP TABLE x; --'') @ '' AND 1'')
     = Some (CHR 0x27 # ''; DROP TABLE x; --'', '' AND 1'')
   \<and> read_literal (QuoteEsc ''ab'' @ [CHR '' '', CHR 0x0A, CHR 0x27, CHR ''c'', CHR 0x27]) = Some (''abc'', [])"
  unfolding QuoteEsc_reads_back by code_simp

text \<open>
  C31. A pattern that starts with an escaped value matches exactly the strings that start with
  that value and continue as the rest of the pattern says; in particular an escaped value
  alone matches only itself.
\<close>

theorem LikeEsc_matches_literally:
  "like_match (LikeEsc s @ p) t \<longleftrightarrow> (\<exists>r. t = s @ r \<and> like_match p r)"
proof (induction s arbitrary: t)
  case Nil
  then show ?case by (simp add: LikeEsc_def)
next
  case (Cons c s)
  have "like_match (LikeEsc (c # s) @ p) t \<longleftrightarrow> t \<noteq> [] \<and> hd t = c \<and> like_match (LikeEsc s @ p) (tl t)"
    by (cases t) (auto simp: LikeEsc_def)
  also have "\<dots> \<longleftrightarrow> (\<exists>r. t = c # s @ r \<and> like_match p r)"
    using Cons.IH by (cases t) auto
  finally show ?case by simp
qed

section \<open>Errors through a transaction\<close>

lemma join_err_Join: "Join [Some err, rberr] = Some (join_err err rberr)"
  by (auto simp: Join_def join_err_def map_filter_def split: option.splits)

lemma Is_join_err: "Is (Some e) g \<Longrightarrow> Is (Some (join_err e r)) g"
  by (auto simp: join_err_def split: option.splits)

lemma Is_join_err_None [simp]: "Is (Some (join_err e None)) g = Is (Some e) g"
  by (simp add: join_err_def split: option.splits)

section \<open>Backoff\<close>

lemma backoff_no_overflow: "n \<le> 37 \<Longrightarrow> wrap64 (baseBackoff * wrap64 (2 ^ n)) = baseBackoff * 2 ^ n"
proof -
  assume "n \<le> 37"
  then have "(2::int) ^ n \<le> 2 ^ 37" by (rule power_increasing) simp
  moreover obtain x :: int where x: "x = 2 ^ n" "0 < x" by simp
  ultimately have "x \<le> 137438953472" by simp
  with x(2) have "int64_ok x" "int64_ok (baseBackoff * x)"
    by (simp_all add: int64_ok_def baseBackoff_def millisecond_def)
  with x(1) show ?thesis by (simp add: wrap64_id)
qed

text \<open>
  C26. The wait before a retry: for every attempt number up to 37, hence for the attempts that
  occur, no 64-bit multiplication overflows and the wait is the doubled base capped at the
  maximum, plus a jitter smaller than the maximal jitter.
\<close>

theorem calculateBackoff_bounds:
  assumes "n \<le> 37" and "\<And>m w. 0 < m \<Longrightarrow> 0 \<le> fst (Int63n rt m w) \<and> fst (Int63n rt m w) < m"
  shows "min (baseBackoff * 2 ^ n) maxBackoff \<le> fst (calculateBackoff rt n w)
    \<and> fst (calculateBackoff rt n w) < min (baseBackoff * 2 ^ n) maxBackoff + maxJitter"
proof -
  obtain j w' where j: "Int63n rt maxJitter w = (j, w')" by fastforce
  from assms(2) [of maxJitter w] j have jr: "0 \<le> j" "j < maxJitter"
    by (simp_all add: maxJitter_def millisecond_def)
  let ?b = "min (baseBackoff * 2 ^ n) maxBackoff"
  obtain b where b: "b = ?b" "0 \<le> b" "b \<le> maxBackoff"
    by (simp add: baseBackoff_def maxBackoff_def millisecond_def)
  with jr have "int64_ok (?b + j)" unfolding b(1) [symmetric]
    by (simp add: int64_ok_def maxBackoff_def maxJitter_def millisecond_def)
  then have "wrap64 (?b + j) = ?b + j" by (rule wrap64_id)
  with j jr assms(1) show ?thesis
    by (simp add: calculateBackoff_def backoff_no_overflow Let_def)
qed

theorem calculateBackoff_bounds_witness:
  "fst (calculateBackoff \<lparr>Int63n = (\<lambda>m w. (m - 1, w)), ctx_wait = (\<lambda>_ w. (None, w))\<rparr> 2 ()) < 250 * millisecond"
proof -
  let ?rt = "\<lparr>Int63n = (\<lambda>m w. (m - 1, w)), ctx_wait = (\<lambda>_ w. (None, w))\<rparr> :: unit runtime"
  have "0 \<le> fst (Int63n ?rt m w) \<and> fst (Int63n ?rt m w) < m" if "0 < m" for m w
    using that by simp
  from calculateBackoff_bounds [of 2 ?rt "()", OF _ this] show ?thesis
    by (simp add: baseBackoff_def maxBackoff_def maxJitter_def millisecond_def)
qed

section \<open>The transaction contract\<close>

text \<open>
  What the package relies on in a driver: \<open>db\<close> is the committed contents of the database and
  \<open>work\<close> the open transactions, each with its own view of the contents or aborted by a failed
  statement. A begin takes a snapshot, a rollback forgets the transaction, a successful commit
  publishes its view. A failed commit ends the transaction; it may have published the view
  (a lost connection), but not when the server reported a deadlock or a serialization failure.
\<close>

datatype 'd tx_state = Active 'd | Aborted

locale tx_driver =
  fixes btx :: "'w driver"
    and db :: "'w \<Rightarrow> 'd"
    and work :: "'w \<Rightarrow> nat \<Rightarrow> 'd tx_state option"
  assumes begin_ok: "BeginTx btx opts w = (Inr tx, w') \<Longrightarrow>
      db w' = db w \<and> work w tx = None \<and> work w' = (work w)(tx \<mapsto> Active (db w))"
    and begin_err: "BeginTx btx opts w = (Inl e, w') \<Longrightarrow> db w' = db w \<and> work w' = work w"
    and rollback: "Rollback btx tx w = (r, w') \<Longrightarrow> db w' = db w \<and> work w' = (work w)(tx := None)"
    and commit_ok: "Commit btx tx w = (None, w') \<Longrightarrow>
      work w tx = Some (Active (db w')) \<and> work w' = (work w)(tx := None)"
    and commit_err: "Commit btx tx w = (Some e, w') \<Longrightarrow> work w' = (work w)(tx := None) \<and>
      (db w' = db w \<or> (\<not> isDeadlock (Some e) \<and> work w tx = Some (Active (db w'))))"

text \<open>
  A function given to a transaction is confined to it when, called with the context that carries
  the transaction, it changes neither the committed contents nor another transaction. The
  package documents that the context passed to \<open>fn\<close> should always be used inside \<open>fn\<close>.
\<close>

definition confined ::
  "('w \<Rightarrow> 'd) \<Rightarrow> ('w \<Rightarrow> nat \<Rightarrow> 'd tx_state option) \<Rightarrow> ('a, 'w, 'r) tx_fn \<Rightarrow> bool" where
  "confined db work fn \<longleftrightarrow>
     (\<forall>c tx w r w'. getCtxTx c = Some tx \<longrightarrow> fn c tx w = (r, w') \<longrightarrow>
        db w' = db w \<and> (\<forall>t. t \<noteq> tx \<longrightarrow> work w' t = work w t))"

text \<open>
  The contents \<open>d'\<close> are what one run of \<open>fn\<close> that returned nil left in its transaction, begun on
  the contents \<open>d\<close>.
\<close>

definition committed_run ::
  "('w \<Rightarrow> 'd) \<Rightarrow> ('w \<Rightarrow> nat \<Rightarrow> 'd tx_state option) \<Rightarrow> ('a, 'w, 'r) tx_fn \<Rightarrow> 'a ctx \<Rightarrow> 'd \<Rightarrow> 'd \<Rightarrow> 'r \<Rightarrow> bool" where
  "committed_run db work fn c d d' x \<longleftrightarrow>
     (\<exists>tx w1 w2. db w1 = d \<and> work w1 tx = Some (Active d) \<and> fn (setCtxTx c tx) tx w1 = (Ret (Inr x), w2)
        \<and> work w2 tx = Some (Active d'))"

text \<open>The outcome of a transaction: what the caller is told against what the database holds.\<close>

fun tx_outcome_ok :: "bool \<Rightarrow> ('r \<Rightarrow> bool) \<Rightarrow> 'r res outcome \<Rightarrow> bool" where
  "tx_outcome_ok unchanged committed (Ret (Inr x)) = committed x"
| "tx_outcome_ok unchanged committed (Ret (Inl e)) =
     (unchanged \<or> (\<not> isDeadlock (Some e) \<and> (\<exists>x. committed x)))"
| "tx_outcome_ok unchanged committed (Panic p) = unchanged"

lemma committed_runI:
  "db w1 = d \<Longrightarrow> work w1 tx = Some (Active d) \<Longrightarrow> fn (setCtxTx c tx) tx w1 = (Ret (Inr x), w2) \<Longrightarrow>
     work w2 tx = Some (Active d') \<Longrightarrow> committed_run db work fn c d d' x"
  unfolding committed_run_def by blast

text \<open>One iteration of the loop: either it is the last, or the wait decides.\<close>

lemma tx_loop_stop:
  assumes "doTx btx c opts fn w = (x, w1)"
    and "\<nexists>e. x = Ret (Inl e) \<and> retry \<and> isDeadlock (Some e) \<and> n + 1 < maxAttempts"
  shows "tx_loop btx rt c opts retry fn n w = (x, w1)"
  using assms by (subst tx_loop.simps) (auto split: outcome.splits sum.splits)

lemma tx_loop_retry:
  assumes "doTx btx c opts fn w = (Ret (Inl e), w1)" "retry" "isDeadlock (Some e)" "n + 1 < maxAttempts"
    and "calculateBackoff rt n w1 = (b, w2)" "ctx_wait rt b w2 = (d, w3)"
  shows "tx_loop btx rt c opts retry fn n w =
    (case d of None \<Rightarrow> tx_loop btx rt c opts retry fn (n + 1) w3 | Some e' \<Rightarrow> (Ret (Inl e'), w3))"
  using assms by (subst tx_loop.simps) (auto split: option.splits)

lemma getCtxTx_setCtxTx [simp]: "getCtxTx (setCtxTx c tx) = Some tx"
  by (simp add: getCtxTx_def setCtxTx_def)

lemma confinedD:
  "confined db work fn \<Longrightarrow> fn (setCtxTx c tx) tx w = (r, w') \<Longrightarrow>
     db w' = db w \<and> (\<forall>t. t \<noteq> tx \<longrightarrow> work w' t = work w t)"
  unfolding confined_def by (metis getCtxTx_setCtxTx)

context tx_driver
begin

lemma rollback_snd: "db (snd (Rollback btx tx w)) = db w" "work (snd (Rollback btx tx w)) = (work w)(tx := None)"
  using rollback [of tx w "fst (Rollback btx tx w)" "snd (Rollback btx tx w)"] by auto

lemma commit_result:
  assumes "Commit btx tx w = (ce, w')" and "\<And>d. work w tx = Some (Active d) \<Longrightarrow> P d x"
  shows "work w' = (work w)(tx := None) \<and>
    tx_outcome_ok (db w' = db w) (P (db w')) (Ret (case ce of None \<Rightarrow> Inr x | Some e \<Rightarrow> Inl e))"
  using assms commit_ok [of tx w w'] commit_err [of tx w _ w'] by (cases ce) auto

lemma doTx_after_begin:
  assumes beg: "BeginTx btx opts w = (Inr tx, w1)" and fn: "fn (setCtxTx c tx) tx w1 = (y, w2)"
    and keep: "db w2 = db w" "(work w2)(tx := None) = work w"
    and run: "\<And>d x. y = Ret (Inr x) \<Longrightarrow> work w2 tx = Some (Active d) \<Longrightarrow> committed_run db work fn c (db w) d x"
    and res: "doTx btx c opts fn w = (r, w')"
  shows "work w' = work w \<and> tx_outcome_ok (db w' = db w) (committed_run db work fn c (db w) (db w')) r"
proof -
  from keep(2) have idem: "(work w)(tx := None) = work w" by (metis fun_upd_upd)
  consider p where "y = Panic p" | e where "y = Ret (Inl e)" | x where "y = Ret (Inr x)"
    by (metis outcome.exhaust sum.exhaust)
  then show ?thesis
  proof cases
    case (1 p)
    with beg fn res keep show ?thesis by (auto simp: doTx_def rollback_snd)
  next
    case (2 e)
    obtain rb w3 where rb: "Rollback btx tx w2 = (rb, w3)" by fastforce
    with 2 beg fn res have "r = Ret (Inl (join_err e rb))" "w' = snd (Rollback btx tx w3)"
      by (auto simp: doTx_def)
    with rollback [OF rb] keep idem show ?thesis by (simp add: rollback_snd)
  next
    case (3 x)
    obtain ce w3 where co: "Commit btx tx w2 = (ce, w3)" by fastforce
    with 3 beg fn res have r: "r = Ret (case ce of None \<Rightarrow> Inr x | Some e \<Rightarrow> Inl e)"
      "w' = snd (Rollback btx tx w3)"
      by (auto simp: doTx_def)
    from commit_result [OF co, of "committed_run db work fn c (db w)" x] run 3 keep
    have "work w3 = work w \<and> tx_outcome_ok (db w3 = db w) (committed_run db work fn c (db w) (db w3)) r"
      unfolding r(1) by simp
    with r idem show ?thesis by (simp add: rollback_snd)
  qed
qed

lemma doTx_result:
  assumes "confined db work fn" and "doTx btx c opts fn w = (r, w')"
  shows "work w' = work w \<and> tx_outcome_ok (db w' = db w) (committed_run db work fn c (db w) (db w')) r"
proof (cases "BeginTx btx opts w")
  case (Pair b w1)
  show ?thesis
  proof (cases b)
    case (Inl e)
    with Pair assms(2) begin_err show ?thesis by (auto simp: doTx_def)
  next
    case (Inr tx)
    with Pair have beg: "BeginTx btx opts w = (Inr tx, w1)" by simp
    from begin_ok [OF beg] have b: "db w1 = db w" "work w tx = None"
      "work w1 = (work w)(tx \<mapsto> Active (db w))" by auto
    obtain y w2 where fn: "fn (setCtxTx c tx) tx w1 = (y, w2)" by fastforce
    from confinedD [OF assms(1) fn] b have "db w2 = db w" "(work w2)(tx := None) = work w"
      by (auto simp: fun_eq_iff)
    moreover have "committed_run db work fn c (db w) d x"
      if "y = Ret (Inr x)" "work w2 tx = Some (Active d)" for d x
      using that b fn by (auto intro: committed_runI)
    ultimately show ?thesis
      by (rule doTx_after_begin [OF beg fn _ _ _ assms(2)])
  qed
qed

end

text \<open>With the runtime: neither the random source nor the wait touches the database.\<close>

locale tx_runtime = tx_driver +
  fixes rt :: "'w runtime"
  assumes rand_keeps: "Int63n rt m w = (j, w') \<Longrightarrow> db w' = db w \<and> work w' = work w"
    and wait_keeps: "ctx_wait rt m w = (r, w') \<Longrightarrow> db w' = db w \<and> work w' = work w"
begin

lemma backoff_keeps: "calculateBackoff rt n w = (b, w') \<Longrightarrow> db w' = db w \<and> work w' = work w"
  using rand_keeps by (auto simp: calculateBackoff_def Let_def split: prod.splits)

lemma tx_loop_result:
  assumes fn: "confined db work fn"
  shows "tx_loop btx rt c opts retry fn n w = (r, w') \<Longrightarrow> work w' = work w \<and>
    tx_outcome_ok (db w' = db w) (committed_run db work fn c (db w) (db w')) r"
proof (induction "maxAttempts - n" arbitrary: n w rule: less_induct)
  case less
  obtain x w1 where do: "doTx btx c opts fn w = (x, w1)" by fastforce
  note one = doTx_result [OF fn do]
  show ?case
  proof (cases "\<exists>e. x = Ret (Inl e) \<and> retry \<and> isDeadlock (Some e) \<and> n + 1 < maxAttempts")
    case True
    then obtain e where e: "x = Ret (Inl e)" "retry" "isDeadlock (Some e)" "n + 1 < maxAttempts" by blast
    obtain b w2 where b: "calculateBackoff rt n w1 = (b, w2)" by fastforce
    obtain d w3 where d: "ctx_wait rt b w2 = (d, w3)" by fastforce
    from one e backoff_keeps [OF b] wait_keeps [OF d] have k: "db w3 = db w" "work w3 = work w"
      by auto
    show ?thesis
    proof (cases d)
      case None
      with less.prems tx_loop_retry [OF do [unfolded e(1)] e(2-4) b d]
      have "tx_loop btx rt c opts retry fn (n + 1) w3 = (r, w')" by simp
      with less.hyps [of "n + 1" w3] e(4) k show ?thesis by (simp add: maxAttempts_def)
    next
      case (Some e')
      with less.prems tx_loop_retry [OF do [unfolded e(1)] e(2-4) b d]
      have "r = Ret (Inl e')" "w' = w3" by simp_all
      with k show ?thesis by simp
    qed
  next
    case False
    with less.prems tx_loop_stop [OF do] have "r = x" "w' = w1" by simp_all
    with one show ?thesis by simp
  qed
qed

lemma Tx_result:
  assumes "confined db work fn" and "Tx btx rt c opts fn w = (r, w')"
  shows "work w' = work w \<and> tx_outcome_ok (db w' = db w) (committed_run db work fn c (db w) (db w')) r"
  using assms(2) tx_loop_result [OF assms(1)] unfolding Tx_def Let_def by blast

end

section \<open>Bounded retries\<close>

lemma doTx_count:
  assumes "\<And>opts w. cnt (snd (BeginTx btx opts w)) = cnt w" "\<And>tx w. cnt (snd (Commit btx tx w)) = cnt w"
    "\<And>tx w. cnt (snd (Rollback btx tx w)) = cnt w" "\<And>c tx w. cnt (snd (fn c tx w)) \<le> Suc (cnt w)"
  shows "cnt (snd (doTx btx c opts fn w)) \<le> Suc (cnt w)"
proof -
  have f: "cnt w2 \<le> Suc (cnt w)" if "BeginTx btx opts w = (b, w1)" "fn c' tx w1 = (x, w2)" for b w1 c' tx x w2
    using assms(1) [of opts w] assms(4) [of c' tx w1] that by simp
  have r: "cnt w' = cnt w2" if "Rollback btx tx w2 = (e, w')" for tx w2 e w'
    using assms(3) [of tx w2] that by simp
  have k: "cnt w' = cnt w2" if "Commit btx tx w2 = (e, w')" for tx w2 e w'
    using assms(2) [of tx w2] that by simp
  show ?thesis
    using assms(1) [of opts w]
    by (auto simp: doTx_def assms(3) split: prod.splits sum.splits outcome.splits dest!: r k dest: f)
qed

lemma tx_loop_count:
  assumes one: "\<And>w. cnt (snd (doTx btx c opts fn w)) \<le> Suc (cnt w)"
    and rand: "\<And>m w. cnt (snd (Int63n rt m w)) = cnt w" and wait: "\<And>m w. cnt (snd (ctx_wait rt m w)) = cnt w"
  shows "n < maxAttempts \<Longrightarrow>
    cnt (snd (tx_loop btx rt c opts retry fn n w)) \<le> cnt w + (maxAttempts - n)"
proof (induction "maxAttempts - n" arbitrary: n w rule: less_induct)
  case less
  obtain x w1 where do: "doTx btx c opts fn w = (x, w1)" by fastforce
  with one [of w] have c1: "cnt w1 \<le> Suc (cnt w)" by simp
  show ?case
  proof (cases "\<exists>e. x = Ret (Inl e) \<and> retry \<and> isDeadlock (Some e) \<and> n + 1 < maxAttempts")
    case True
    then obtain e where e: "x = Ret (Inl e)" "retry" "isDeadlock (Some e)" "n + 1 < maxAttempts" by blast
    obtain b w2 where b: "calculateBackoff rt n w1 = (b, w2)" by fastforce
    obtain d w3 where d: "ctx_wait rt b w2 = (d, w3)" by fastforce
    have "cnt w2 = cnt w1" using b rand [of maxJitter w1]
      by (auto simp: calculateBackoff_def Let_def split: prod.splits)
    with wait [of b w2] d c1 have c3: "cnt w3 \<le> Suc (cnt w)" by simp
    have "cnt (snd (tx_loop btx rt c opts retry fn (n + 1) w3)) \<le> cnt w3 + (maxAttempts - (n + 1))"
      using less.hyps [of "n + 1" w3] e(4) by simp
    with c3 e(4) have "cnt (snd (tx_loop btx rt c opts retry fn (n + 1) w3)) \<le> cnt w + (maxAttempts - n)"
      by simp
    then show ?thesis
      using tx_loop_retry [OF do [unfolded e(1)] e(2-4) b d] c3 less.prems by (auto split: option.splits)
  next
    case False
    with tx_loop_stop [OF do] c1 less.prems show ?thesis by simp
  qed
qed

text \<open>
  C25. A transaction runs its function at most four times: whatever a world counts, if only \<open>fn\<close>
  adds to it and adds at most one per run, \<open>Tx\<close> adds at most \<open>maxAttempts\<close>. So \<open>Tx\<close> always
  returns, with retries or without.
\<close>

theorem Tx_bounded_runs:
  assumes "\<And>opts w. cnt (snd (BeginTx btx opts w)) = cnt w" "\<And>tx w. cnt (snd (Commit btx tx w)) = cnt w"
    "\<And>tx w. cnt (snd (Rollback btx tx w)) = cnt w" "\<And>m w. cnt (snd (Int63n rt m w)) = cnt w"
    "\<And>m w. cnt (snd (ctx_wait rt m w)) = cnt w" "\<And>c tx w. cnt (snd (fn c tx w)) \<le> Suc (cnt w)"
  shows "cnt (snd (Tx btx rt c opts fn w)) \<le> cnt w + maxAttempts"
  unfolding Tx_def Let_def
  by (rule order_trans [OF tx_loop_count [where cnt = cnt and n = 0]])
    (use assms in \<open>auto intro!: doTx_count simp: maxAttempts_def\<close>)

theorem Tx_bounded_runs_witness:
  "snd (Tx \<lparr>BeginTx = (\<lambda>_ w. (Inr 0, w)), Commit = (\<lambda>_ w. (None, w)), Rollback = (\<lambda>_ w. (None, w))\<rparr>
     \<lparr>Int63n = (\<lambda>_ w. (0, w)), ctx_wait = (\<lambda>_ w. (None, w))\<rparr> ([] :: nat ctx)
     (Some \<lparr>sqlTxOptions = zero_sql_TxOptions, RetryDeadlock = True\<rparr>)
     (\<lambda>_ _ w. (Ret (Inl (OpaqueErr ''x'') :: unit res), Suc w)) 0) \<le> 4"
  using Tx_bounded_runs [of "\<lambda>w. w"
      "\<lparr>BeginTx = (\<lambda>_ w. (Inr 0, w)), Commit = (\<lambda>_ w. (None, w)), Rollback = (\<lambda>_ w. (None, w))\<rparr>"
      "\<lparr>Int63n = (\<lambda>_ w. (0, w)), ctx_wait = (\<lambda>_ w. (None, w))\<rparr>"
      "\<lambda>_ _ w. (Ret (Inl (OpaqueErr ''x'') :: unit res), Suc w)" "[] :: nat ctx"
      "Some \<lparr>sqlTxOptions = zero_sql_TxOptions, RetryDeadlock = True\<rparr>" 0]
  by (simp add: maxAttempts_def)

section \<open>Preservation\<close>

text \<open>
  A property of worlds that the driver, the runtime and the function keep is kept by every
  operation that runs the function.
\<close>

definition driver_keeps :: "('w \<Rightarrow> bool) \<Rightarrow> 'w driver \<Rightarrow> bool" where
  "driver_keeps P btx \<longleftrightarrow>
     (\<forall>opts w. P w \<longrightarrow> P (snd (BeginTx btx opts w))) \<and> (\<forall>tx w. P w \<longrightarrow> P (snd (Commit btx tx w)))
     \<and> (\<forall>tx w. P w \<longrightarrow> P (snd (Rollback btx tx w)))"

definition runtime_keeps :: "('w \<Rightarrow> bool) \<Rightarrow> 'w runtime \<Rightarrow> bool" where
  "runtime_keeps P rt \<longleftrightarrow>
     (\<forall>m w. P w \<longrightarrow> P (snd (Int63n rt m w))) \<and> (\<forall>m w. P w \<longrightarrow> P (snd (ctx_wait rt m w)))"

definition fn_keeps :: "('w \<Rightarrow> bool) \<Rightarrow> ('a, 'w, 'r) tx_fn \<Rightarrow> bool" where
  "fn_keeps P fn \<longleftrightarrow> (\<forall>c tx w. P w \<longrightarrow> P (snd (fn c tx w)))"

lemma driver_keepsD:
  "driver_keeps P btx \<Longrightarrow> P w \<Longrightarrow> BeginTx btx opts w = (b, w') \<Longrightarrow> P w'"
  "driver_keeps P btx \<Longrightarrow> P w \<Longrightarrow> Commit btx tx w = (ce, w') \<Longrightarrow> P w'"
  "driver_keeps P btx \<Longrightarrow> P w \<Longrightarrow> Rollback btx tx w = (ce, w') \<Longrightarrow> P w'"
  unfolding driver_keeps_def by (metis snd_conv)+

lemma fn_keepsD: "fn_keeps P fn \<Longrightarrow> P w \<Longrightarrow> fn c tx w = (r, w') \<Longrightarrow> P w'"
  unfolding fn_keeps_def by (metis snd_conv)

lemma doTx_keeps:
  assumes "driver_keeps P btx" "fn_keeps P fn" "P w"
  shows "P (snd (doTx btx c opts fn w))"
proof -
  have rb: "P (snd (Rollback btx tx w'))" if "P w'" for tx w'
    using assms(1) that by (simp add: driver_keeps_def)
  show ?thesis
    using assms rb
    by (auto simp: doTx_def split: prod.splits sum.splits outcome.splits
        dest: driver_keepsD fn_keepsD intro!: rb)
qed

lemma tx_loop_keeps:
  assumes "driver_keeps P btx" "fn_keeps P fn" "runtime_keeps P rt"
  shows "P w \<Longrightarrow> P (snd (tx_loop btx rt c opts retry fn n w))"
proof (induction "maxAttempts - n" arbitrary: n w rule: less_induct)
  case less
  obtain x w1 where do: "doTx btx c opts fn w = (x, w1)" by fastforce
  with doTx_keeps [OF assms(1,2) less.prems, of c opts] have p1: "P w1" by simp
  show ?case
  proof (cases "\<exists>e. x = Ret (Inl e) \<and> retry \<and> isDeadlock (Some e) \<and> n + 1 < maxAttempts")
    case True
    then obtain e where e: "x = Ret (Inl e)" "retry" "isDeadlock (Some e)" "n + 1 < maxAttempts" by blast
    obtain b w2 where b: "calculateBackoff rt n w1 = (b, w2)" by fastforce
    obtain d w3 where d: "ctx_wait rt b w2 = (d, w3)" by fastforce
    have "P w2" using b p1 assms(3)
      by (auto simp: calculateBackoff_def runtime_keeps_def Let_def split: prod.splits) (metis snd_conv)
    with d assms(3) have p3: "P w3" unfolding runtime_keeps_def by (metis snd_conv)
    with less.hyps [of "n + 1" w3] e(4)
    show ?thesis using tx_loop_retry [OF do [unfolded e(1)] e(2-4) b d] by (auto split: option.splits)
  next
    case False
    with tx_loop_stop [OF do] p1 show ?thesis by simp
  qed
qed

lemma EnsureTx_keeps:
  assumes "driver_keeps P btx" "fn_keeps P fn" "runtime_keeps P rt" "P w"
  shows "P (snd (EnsureTx btx rt c fn w))"
proof (cases "getCtxTx c")
  case None
  with tx_loop_keeps [OF assms] show ?thesis by (simp add: EnsureTx_def Tx_def Let_def)
next
  case (Some tx)
  with assms show ?thesis
    by (auto simp: EnsureTx_def split: prod.splits sum.splits outcome.splits dest: driver_keepsD fn_keepsD)
qed

text \<open>A function that does not panic makes the whole transaction not panic.\<close>

definition no_panic :: "('a, 'w, 'r) tx_fn \<Rightarrow> bool" where
  "no_panic fn \<longleftrightarrow> (\<forall>c tx w p. fst (fn c tx w) \<noteq> Panic p)"

lemma doTx_no_panic: "no_panic fn \<Longrightarrow> fst (doTx btx c opts fn w) \<noteq> Panic p"
  unfolding no_panic_def doTx_def
  by (auto split: prod.splits sum.splits outcome.splits) (metis fst_conv)

lemma tx_loop_no_panic:
  assumes "no_panic fn"
  shows "fst (tx_loop btx rt c opts retry fn n w) \<noteq> Panic p"
proof (induction "maxAttempts - n" arbitrary: n w rule: less_induct)
  case less
  obtain x w1 where do: "doTx btx c opts fn w = (x, w1)" by fastforce
  with doTx_no_panic [OF assms, of btx c opts w p] have "x \<noteq> Panic p" by simp
  show ?case
  proof (cases "\<exists>e. x = Ret (Inl e) \<and> retry \<and> isDeadlock (Some e) \<and> n + 1 < maxAttempts")
    case True
    then obtain e where e: "x = Ret (Inl e)" "retry" "isDeadlock (Some e)" "n + 1 < maxAttempts" by blast
    obtain b w2 where b: "calculateBackoff rt n w1 = (b, w2)" by fastforce
    obtain d w3 where d: "ctx_wait rt b w2 = (d, w3)" by fastforce
    from less.hyps [of "n + 1" w3] e(4)
    show ?thesis using tx_loop_retry [OF do [unfolded e(1)] e(2-4) b d] by (auto split: option.splits)
  next
    case False
    with tx_loop_stop [OF do] \<open>x \<noteq> Panic p\<close> show ?thesis by simp
  qed
qed

lemma EnsureTx_no_panic: "no_panic fn \<Longrightarrow> fst (EnsureTx btx rt c fn w) \<noteq> Panic p"
  using tx_loop_no_panic [of fn btx rt c _ _ 0 w p]
  by (auto simp: EnsureTx_def Tx_def Let_def no_panic_def split: option.splits prod.splits sum.splits outcome.splits)
    (metis fst_conv)

end
