(* ===== verification/Sqltx.thy ===== *)
theory Sqltx
  imports Pgdb
begin

text \<open>
  The database behind \<^verbatim>\<open>pgdb\<close>: one client's view of PostgreSQL through the adapters. Contents \<open>'d\<close>
  are committed; an open transaction works on its own copy, taken at its start; a statement that
  fails inside a transaction aborts it, after which statements fail until it ends. Every
  round-trip can fail: the next entry of \<open>faults\<close> says how (\<open>None\<close>: it does not), and all
  theorems hold for every sequence of faults. A commit that fails without an error of the server
  (a lost connection) may have taken effect; \<open>lost_commit\<close> says whether it did. Statements are sequential; the clock \<open>now\<close> is read by
  statements (the SQL function \<^verbatim>\<open>now()\<close>) and changed by none. \<open>Exec\<close>, \<open>QueryOne\<close> and \<open>QueryMany\<close>
  are those statements, not the code of the adapters, which is in theory \<open>Adapters\<close>. The engine does not look at the options of
  transactions: with one client at a time the isolation level makes no difference, and advisory locks are always free.
\<close>

section \<open>State\<close>

record 'd engine =
  contents :: 'd
  txs :: "'d tx_state option list"
  now :: int
  faults :: "goerr option list"
  lost_commit :: bool

definition tx_lookup :: "'d engine \<Rightarrow> nat \<Rightarrow> 'd tx_state option" where
  "tx_lookup e t = (if t < length (txs e) then txs e ! t else None)"

definition tx_put :: "nat \<Rightarrow> 'd tx_state option \<Rightarrow> 'd engine \<Rightarrow> 'd engine" where
  "tx_put t x e = e\<lparr>txs := (txs e)[t := x]\<rparr>"

definition pop_fault :: "'d engine \<Rightarrow> goerr option \<times> 'd engine" where
  "pop_fault e = (case faults e of [] \<Rightarrow> (None, e) | f # fs \<Rightarrow> (f, e\<lparr>faults := fs\<rparr>))"

section \<open>Transactions\<close>

definition engine_BeginTx :: "sql_TxOptions option \<Rightarrow> 'd engine \<Rightarrow> nat res \<times> 'd engine" where
  "engine_BeginTx opts e =
     (case pop_fault e of
        (Some f, e1) \<Rightarrow> (Inl f, e1)
      | (None, e1) \<Rightarrow> (Inr (length (txs e1)), e1\<lparr>txs := txs e1 @ [Some (Active (contents e1))]\<rparr>))"

definition commit_of_aborted :: goerr where
  "commit_of_aborted = OpaqueErr ''commit unexpectedly resulted in rollback''"

definition engine_Commit :: "nat \<Rightarrow> 'd engine \<Rightarrow> goerr option \<times> 'd engine" where
  "engine_Commit t e =
     (case tx_lookup e t of
        None \<Rightarrow> (Some (Sentinel ErrTxDone), e)
      | Some Aborted \<Rightarrow> (Some commit_of_aborted, tx_put t None e)
      | Some (Active d) \<Rightarrow>
          (case pop_fault e of
             (Some f, e1) \<Rightarrow>
               (Some f, (tx_put t None e1)\<lparr>contents :=
                  (if SQLState (Some f) = [] \<and> lost_commit e1 then d else contents e1)\<rparr>)
           | (None, e1) \<Rightarrow> (None, (tx_put t None e1)\<lparr>contents := d\<rparr>)))"

definition engine_Rollback :: "nat \<Rightarrow> 'd engine \<Rightarrow> goerr option \<times> 'd engine" where
  "engine_Rollback t e =
     (case tx_lookup e t of
        None \<Rightarrow> (Some (Sentinel ErrTxDone), e)
      | Some _ \<Rightarrow> (case pop_fault e of (f, e1) \<Rightarrow> (f, tx_put t None e1)))"

definition engine_driver :: "'d engine driver" where
  "engine_driver = \<lparr>BeginTx = engine_BeginTx, Commit = engine_Commit, Rollback = engine_Rollback\<rparr>"

text \<open>The runtime: any random source, any outcome of the wait.\<close>

definition engine_runtime :: "(int \<Rightarrow> int) \<Rightarrow> goerr option \<Rightarrow> 'd engine runtime" where
  "engine_runtime rnd waited = \<lparr>Int63n = (\<lambda>m e. (rnd m, e)), ctx_wait = (\<lambda>_ e. (waited, e))\<rparr>"

section \<open>Statements\<close>

text \<open>A statement reads the clock and the contents; it fails or returns rows and new contents.\<close>

type_synonym ('d, 'r) stmt = "int \<Rightarrow> 'd \<Rightarrow> ('r \<times> 'd) res"

text \<open>An error reported by the server: its state code and the constraint that failed.\<close>

definition pg_fail :: "string \<Rightarrow> string \<Rightarrow> string \<Rightarrow> goerr" where
  "pg_fail code table constraint = PgErr \<lparr>pg_Severity = ''ERROR'', pg_Code = code,
     pg_Message = [], pg_Detail = [], pg_Hint = [], pg_Position = 0, pg_InternalPosition = 0,
     pg_InternalQuery = [], pg_Where = [], pg_SchemaName = ''public'', pg_TableName = table,
     pg_ColumnName = [], pg_DataTypeName = [], pg_ConstraintName = constraint, pg_File = [],
     pg_Line = 0, pg_Routine = [], pg_errmsg = ''ERROR: (SQLSTATE '' @ code @ '')''\<rparr>"

definition UniqueViolation :: string where "UniqueViolation = ''23505''"
definition CheckViolation :: string where "CheckViolation = ''23514''"
definition ForeignKeyViolation :: string where "ForeignKeyViolation = ''23503''"
definition NumericValueOutOfRange :: string where "NumericValueOutOfRange = ''22003''"
definition InFailedSQLTransaction :: string where "InFailedSQLTransaction = ''25P02''"

definition in_failed_tx :: goerr where
  "in_failed_tx = pg_fail InFailedSQLTransaction [] []"

definition run_stmt :: "queryer \<Rightarrow> ('d, 'r) stmt \<Rightarrow> 'd engine \<Rightarrow> 'r res \<times> 'd engine" where
  "run_stmt q st e =
     (case q of
        QConn \<Rightarrow>
          (case pop_fault e of
             (Some f, e1) \<Rightarrow> (Inl f, e1)
           | (None, e1) \<Rightarrow>
               (case st (now e1) (contents e1) of
                  Inl x \<Rightarrow> (Inl x, e1)
                | Inr (r, d) \<Rightarrow> (Inr r, e1\<lparr>contents := d\<rparr>)))
      | QTx t \<Rightarrow>
          (case tx_lookup e t of
             None \<Rightarrow> (Inl (Sentinel ErrTxDone), e)
           | Some Aborted \<Rightarrow> (Inl in_failed_tx, e)
           | Some (Active d) \<Rightarrow>
               (case pop_fault e of
                  (Some f, e1) \<Rightarrow> (Inl f, tx_put t (Some Aborted) e1)
                | (None, e1) \<Rightarrow>
                    (case st (now e1) d of
                       Inl x \<Rightarrow> (Inl x, tx_put t (Some Aborted) e1)
                     | Inr (r, d') \<Rightarrow> (Inr r, tx_put t (Some (Active d')) e1)))))"

text \<open>\<^verbatim>\<open>Exec\<close>: the adapters return the driver's result or error; the result is not used.\<close>

definition Exec :: "queryer \<Rightarrow> ('d, unit) stmt \<Rightarrow> 'd engine \<Rightarrow> unit res \<times> 'd engine" where
  "Exec q st e = run_stmt q st e"

text \<open>
  \<^verbatim>\<open>QueryOne\<close>: no row is \<^verbatim>\<open>sql.ErrNoRows\<close>, wrapped; the scanning library refuses several rows.
\<close>

definition QueryOne :: "queryer \<Rightarrow> ('d, 'r list) stmt \<Rightarrow> 'd engine \<Rightarrow> 'r res \<times> 'd engine" where
  "QueryOne q st e =
     (case run_stmt q st e of
        (Inl err, e1) \<Rightarrow> (Inl err, e1)
      | (Inr [], e1) \<Rightarrow> (Inl (Errorf_w ''not found: '' (Sentinel ErrNoRows)), e1)
      | (Inr [x], e1) \<Rightarrow> (Inr x, e1)
      | (Inr rows, e1) \<Rightarrow> (Inl (OpaqueErr ''scany: expected 1 row''), e1))"

definition QueryMany :: "queryer \<Rightarrow> ('d, 'r list) stmt \<Rightarrow> 'd engine \<Rightarrow> 'r list res \<times> 'd engine" where
  "QueryMany q st e = run_stmt q st e"

section \<open>Lemmas\<close>

lemma pop_fault_keeps:
  "pop_fault e = (f, e1) \<Longrightarrow> contents e1 = contents e \<and> txs e1 = txs e \<and> now e1 = now e"
  by (auto simp: pop_fault_def split: list.splits)

lemma tx_lookup_cong: "txs e1 = txs e \<Longrightarrow> tx_lookup e1 = tx_lookup e"
  by (simp add: tx_lookup_def fun_eq_iff)

lemma tx_lookup_put:
  "tx_lookup e t \<noteq> None \<Longrightarrow> tx_lookup (tx_put t x e) = (tx_lookup e)(t := x)"
  by (auto simp: tx_lookup_def tx_put_def fun_eq_iff split: if_splits)

lemma tx_put_keeps [simp]:
  "contents (tx_put t x e) = contents e" "now (tx_put t x e) = now e" "faults (tx_put t x e) = faults e"
  by (simp_all add: tx_put_def)

lemma tx_lookup_updates [simp]:
  "tx_lookup (e\<lparr>contents := d\<rparr>) = tx_lookup e" "tx_lookup (e\<lparr>now := i\<rparr>) = tx_lookup e"
  "tx_lookup (e\<lparr>faults := fs\<rparr>) = tx_lookup e"
  by (simp_all add: tx_lookup_def fun_eq_iff)

lemma pop_fault_lookup: "pop_fault e = (f, e1) \<Longrightarrow> tx_lookup e1 = tx_lookup e"
  by (auto dest!: pop_fault_keeps intro!: tx_lookup_cong)

lemma pop_fault_fields:
  "pop_fault e = (f, e1) \<Longrightarrow> now e1 = now e" "pop_fault e = (f, e1) \<Longrightarrow> contents e1 = contents e"
  by (auto dest: pop_fault_keeps)

text \<open>
  The transaction contract, for the contents together with the clock that statements read: the
  committed contents, and what an open transaction sees.
\<close>

definition snapshot :: "'d engine \<Rightarrow> 'd \<times> int" where
  "snapshot e = (contents e, now e)"

definition tx_view :: "'d engine \<Rightarrow> nat \<Rightarrow> ('d \<times> int) tx_state option" where
  "tx_view e t = map_option (map_tx_state (\<lambda>d. (d, now e))) (tx_lookup e t)"

lemma tx_view_Active [simp]:
  "tx_view e t = Some (Active (d, i)) \<longleftrightarrow> tx_lookup e t = Some (Active d) \<and> i = now e"
proof (cases "tx_lookup e t")
  case (Some x)
  then show ?thesis by (cases x) (auto simp: tx_view_def)
qed (simp add: tx_view_def)

lemma tx_view_cong: "now e' = now e \<Longrightarrow> tx_lookup e' t = tx_lookup e t \<Longrightarrow> tx_view e' t = tx_view e t"
  by (simp add: tx_view_def)

lemma tx_view_lookup: "now e' = now e \<Longrightarrow> tx_lookup e' = (tx_lookup e)(t := x) \<Longrightarrow>
    tx_view e' = (tx_view e)(t := map_option (map_tx_state (\<lambda>d. (d, now e))) x)"
  by (auto simp: tx_view_def fun_eq_iff)

lemma engine_BeginTx_ok:
  "engine_BeginTx opts e = (Inr t, e') \<Longrightarrow>
     snapshot e' = snapshot e \<and> tx_view e t = None \<and> tx_view e' = (tx_view e)(t \<mapsto> Active (snapshot e))"
  by (auto simp: engine_BeginTx_def snapshot_def tx_view_def tx_lookup_def fun_eq_iff nth_append
      split: prod.splits option.splits dest!: pop_fault_keeps)

lemma engine_BeginTx_err:
  "engine_BeginTx opts e = (Inl x, e') \<Longrightarrow> snapshot e' = snapshot e \<and> tx_view e' = tx_view e"
  by (auto simp: engine_BeginTx_def snapshot_def tx_view_def tx_lookup_def fun_eq_iff
      split: prod.splits option.splits dest!: pop_fault_keeps)

lemma engine_Rollback_keeps:
  "engine_Rollback t e = (r, e') \<Longrightarrow> snapshot e' = snapshot e \<and> tx_view e' = (tx_view e)(t := None)"
  by (auto simp: engine_Rollback_def snapshot_def tx_view_def tx_lookup_put pop_fault_lookup fun_eq_iff
      pop_fault_fields split: prod.splits option.splits)

lemma engine_Commit_ok:
  "engine_Commit t e = (None, e') \<Longrightarrow>
     tx_view e t = Some (Active (snapshot e')) \<and> tx_view e' = (tx_view e)(t := None)"
  by (auto simp: engine_Commit_def snapshot_def tx_view_def tx_lookup_put pop_fault_lookup fun_eq_iff
      pop_fault_fields split: prod.splits option.splits tx_state.splits)

lemma isDeadlock_SQLState: "isDeadlock err \<Longrightarrow> SQLState err \<noteq> []"
  by (auto simp: isDeadlock_def Let_def)

lemma engine_Commit_err:
  "engine_Commit t e = (Some x, e') \<Longrightarrow> tx_view e' = (tx_view e)(t := None) \<and>
     (snapshot e' = snapshot e \<or> (\<not> isDeadlock (Some x) \<and> tx_view e t = Some (Active (snapshot e'))))"
  by (auto simp: engine_Commit_def snapshot_def tx_view_def tx_lookup_put pop_fault_lookup fun_eq_iff
      pop_fault_fields split: prod.splits option.splits tx_state.splits if_splits
      dest: isDeadlock_SQLState)

lemma engine_contract: "tx_runtime engine_driver snapshot tx_view (engine_runtime rnd waited)"
  by unfold_locales
    (auto simp: engine_driver_def engine_runtime_def
      dest: engine_BeginTx_ok engine_BeginTx_err engine_Rollback_keeps engine_Commit_ok engine_Commit_err)

interpretation sqltx: tx_runtime engine_driver snapshot tx_view "engine_runtime rnd waited"
  by (rule engine_contract)

section \<open>Statements inside and outside a transaction\<close>

lemma run_stmt_QTx_confined:
  "run_stmt (QTx t) st e = (r, e') \<Longrightarrow>
     contents e' = contents e \<and> now e' = now e \<and> (\<forall>u. u \<noteq> t \<longrightarrow> tx_lookup e' u = tx_lookup e u)"
  by (auto simp: run_stmt_def tx_lookup_put pop_fault_lookup
      split: option.splits prod.splits tx_state.splits sum.splits dest: pop_fault_keeps)

text \<open>A statement that succeeds in a transaction did so on the transaction's own contents.\<close>

lemma run_stmt_QTx_ok:
  assumes "run_stmt (QTx t) st e = (Inr r, e')"
  shows "\<exists>d d'. tx_lookup e t = Some (Active d) \<and> st (now e) d = Inr (r, d') \<and> tx_lookup e' t = Some (Active d')"
  using assms
  by (auto simp: run_stmt_def tx_lookup_put pop_fault_lookup pop_fault_fields
      split: option.splits prod.splits tx_state.splits sum.splits)

lemma run_stmt_QConn:
  assumes "run_stmt QConn st e = (r, e')"
  shows "now e' = now e \<and> tx_lookup e' = tx_lookup e \<and>
    (case r of Inl _ \<Rightarrow> contents e' = contents e | Inr x \<Rightarrow> st (now e) (contents e) = Inr (x, contents e'))"
  using assms
  by (auto simp: run_stmt_def pop_fault_lookup pop_fault_fields
      split: option.splits prod.splits sum.splits)

lemma run_stmt_QConn_no_fault:
  "faults e = [] \<Longrightarrow> run_stmt QConn st e =
     (case st (now e) (contents e) of Inl x \<Rightarrow> (Inl x, e) | Inr (r, d) \<Rightarrow> (Inr r, e\<lparr>contents := d\<rparr>))"
  by (simp add: run_stmt_def pop_fault_def)

lemma run_stmt_QTx_no_fault:
  "faults e = [] \<Longrightarrow> tx_lookup e t = Some (Active d) \<Longrightarrow> run_stmt (QTx t) st e =
     (case st (now e) d of Inl x \<Rightarrow> (Inl x, tx_put t (Some Aborted) e)
      | Inr (r, d') \<Rightarrow> (Inr r, tx_put t (Some (Active d')) e))"
  by (simp add: run_stmt_def pop_fault_def)

lemma QueryOne_run:
  "QueryOne q st e = (r, e') \<Longrightarrow> \<exists>r'. run_stmt q st e = (r', e')"
  by (auto simp: QueryOne_def split: prod.splits sum.splits list.splits)

lemma QueryOne_ok: "QueryOne q st e = (Inr x, e') \<Longrightarrow> run_stmt q st e = (Inr [x], e')"
  by (auto simp: QueryOne_def split: prod.splits sum.splits list.splits)

lemma QueryOne_err_cases:
  assumes "QueryOne q st e = (Inl err, e')"
  shows "run_stmt q st e = (Inl err, e')
    \<or> (run_stmt q st e = (Inr [], e') \<and> err = Errorf_w ''not found: '' (Sentinel ErrNoRows))
    \<or> (\<exists>x y zs. run_stmt q st e = (Inr (x # y # zs), e'))"
  using assms by (auto simp: QueryOne_def split: prod.splits sum.splits list.splits)

lemmas stmt_defs = Exec_def QueryMany_def

lemma Is_ErrNoRows_wrapped [simp]: "Is (Some (Errorf_w m (Sentinel x))) (SentinelTarget y) = (x = y)"
  by (auto simp: Errorf_w_def)

section \<open>What a context sees\<close>

text \<open>The queryer that \<open>EnsureQueryer\<close> picks for a pool, and the contents it works on.\<close>

definition ctx_queryer :: "'a ctx \<Rightarrow> queryer" where
  "ctx_queryer c = (case getCtxTx c of Some t \<Rightarrow> QTx t | None \<Rightarrow> QConn)"

definition visible :: "queryer \<Rightarrow> 'd engine \<Rightarrow> 'd option" where
  "visible q e =
     (case q of QConn \<Rightarrow> Some (contents e)
      | QTx t \<Rightarrow> (case tx_lookup e t of Some (Active d) \<Rightarrow> Some d | _ \<Rightarrow> None))"

lemma visible_simps [simp]:
  "visible QConn e = Some (contents e)"
  "visible (QTx t) e = Some d \<longleftrightarrow> tx_lookup e t = Some (Active d)"
  by (auto simp: visible_def split: option.splits tx_state.splits)

lemma EnsureQueryer_QConn: "EnsureQueryer c QConn fn e = fn c (ctx_queryer c) e"
  by (simp add: EnsureQueryer_def ctx_queryer_def split: option.splits)

lemma run_stmt_visible:
  assumes "run_stmt q st e = (Inr r, e')"
  shows "\<exists>d d'. visible q e = Some d \<and> st (now e) d = Inr (r, d') \<and> visible q e' = Some d' \<and> now e' = now e"
proof (cases q)
  case QConn
  with run_stmt_QConn [of st e "Inr r" e'] assms show ?thesis by auto
next
  case (QTx t)
  with run_stmt_QTx_ok [of t st e r e'] run_stmt_QTx_confined [of t st e "Inr r" e'] assms show ?thesis
    by auto
qed

lemma run_stmt_Inl:
  "run_stmt q st e = (Inl x, e') \<Longrightarrow> contents e' = contents e \<and> now e' = now e"
  using run_stmt_QConn [of st e "Inl x" e'] run_stmt_QTx_confined [of _ st e "Inl x" e']
  by (cases q) auto

section \<open>Atomicity\<close>

text \<open>
  C4. Whatever fails and whenever: a transaction whose function uses its context leaves the
  database either exactly as it was, or exactly as one successful run of the function from the
  original contents left it. It is unchanged after a panic and after every error but a failed
  commit, the value returned is the one of that run, and no transaction stays open.
\<close>

theorem Tx_atomic:
  assumes "confined snapshot tx_view fn"
    and "Tx engine_driver (engine_runtime rnd waited) c opts fn e = (r, e')"
  shows "tx_view e' = tx_view e \<and>
    tx_outcome_ok (snapshot e' = snapshot e)
      (committed_run snapshot tx_view fn c (snapshot e) (snapshot e')) r"
  using assms by (rule sqltx.Tx_result)

text \<open>A transaction on a small engine: its statement replaces the contents, a number.\<close>

definition sample_engine :: "nat engine" where
  "sample_engine = \<lparr>contents = 7, txs = [], now = 5, faults = [], lost_commit = False\<rparr>"

definition set_stmt :: "nat \<Rightarrow> (nat, unit) stmt" where
  "set_stmt n t d = Inr ((), n)"

definition set_tx :: "nat \<Rightarrow> (unit, nat engine, unit) tx_fn" where
  "set_tx n c tx e = (case run_stmt (QTx tx) (set_stmt n) e of (r, e') \<Rightarrow> (Ret r, e'))"

lemma set_tx_confined: "confined snapshot tx_view (set_tx n)"
  unfolding confined_def snapshot_def
  by (auto simp: set_tx_def split: prod.splits dest!: run_stmt_QTx_confined intro!: tx_view_cong)

theorem Tx_atomic_witness:
  "tx_view (snd (Tx engine_driver (engine_runtime (\<lambda>_. 0) None) [] None (set_tx 9) sample_engine))
     = tx_view sample_engine
   \<and> contents (snd (Tx engine_driver (engine_runtime (\<lambda>_. 0) None) [] None (set_tx 9) sample_engine)) = 9"
proof
  show "tx_view (snd (Tx engine_driver (engine_runtime (\<lambda>_. 0) None) [] None (set_tx 9) sample_engine))
     = tx_view sample_engine"
    using Tx_atomic [OF set_tx_confined] by (metis prod.collapse)
  show "contents (snd (Tx engine_driver (engine_runtime (\<lambda>_. 0) None) [] None (set_tx 9) sample_engine)) = 9"
    by code_simp
qed

section \<open>Functional specification of a transaction\<close>

text \<open>
  \<open>tx_spec fn R\<close>: called with a context that carries its transaction, \<open>fn\<close> touches only that
  transaction, and when it returns a value \<open>x\<close>, the contents before and after are related by
  \<open>R t d x d'\<close> at the time \<open>t\<close>.
\<close>

definition tx_spec :: "('a, 'd engine, 'r) tx_fn \<Rightarrow> (int \<Rightarrow> 'd \<Rightarrow> 'r \<Rightarrow> 'd \<Rightarrow> bool) \<Rightarrow> bool" where
  "tx_spec fn R \<longleftrightarrow>
     (\<forall>c tx e r e'. getCtxTx c = Some tx \<longrightarrow> fn c tx e = (r, e') \<longrightarrow>
        contents e' = contents e \<and> now e' = now e \<and> (\<forall>u. u \<noteq> tx \<longrightarrow> tx_lookup e' u = tx_lookup e u)
        \<and> (\<forall>x. r = Ret (Inr x) \<longrightarrow>
             (\<exists>d d'. tx_lookup e tx = Some (Active d) \<and> tx_lookup e' tx = Some (Active d') \<and> R (now e) d x d')))"

text \<open>
  The weaker form that a transaction of its own needs: a run that ends with an aborted transaction
  cannot be committed, so nothing is asked of it.
\<close>

definition tx_post :: "('a, 'd engine, 'r) tx_fn \<Rightarrow> (int \<Rightarrow> 'd \<Rightarrow> 'r \<Rightarrow> 'd \<Rightarrow> bool) \<Rightarrow> bool" where
  "tx_post fn R \<longleftrightarrow>
     (\<forall>c tx e r e'. getCtxTx c = Some tx \<longrightarrow> fn c tx e = (r, e') \<longrightarrow>
        contents e' = contents e \<and> now e' = now e \<and> (\<forall>u. u \<noteq> tx \<longrightarrow> tx_lookup e' u = tx_lookup e u)
        \<and> (\<forall>x d d'. r = Ret (Inr x) \<longrightarrow> tx_lookup e tx = Some (Active d) \<longrightarrow> tx_lookup e' tx = Some (Active d') \<longrightarrow>
             R (now e) d x d'))"

lemma tx_spec_post: "tx_spec fn R \<Longrightarrow> tx_post fn R"
  unfolding tx_spec_def tx_post_def by fastforce

lemma tx_post_confined: "tx_post fn R \<Longrightarrow> confined snapshot tx_view fn"
  unfolding tx_post_def confined_def snapshot_def by (metis tx_view_cong)

lemma tx_post_committed:
  assumes "tx_post fn R" "committed_run snapshot tx_view fn c (d, t) (d', t') x"
  shows "R t d x d' \<and> t' = t"
proof -
  from assms(2) obtain tx w1 w2 where w: "snapshot w1 = (d, t)" "tx_view w1 tx = Some (Active (d, t))"
    "fn (setCtxTx c tx) tx w1 = (Ret (Inr x), w2)" "tx_view w2 tx = Some (Active (d', t'))"
    unfolding committed_run_def by blast
  with assms(1) getCtxTx_setCtxTx [of c tx] show ?thesis unfolding tx_post_def snapshot_def by fastforce
qed

lemma tx_view_inject:
  assumes "tx_view e' = tx_view e" "now e' = now e"
  shows "tx_lookup e' = tx_lookup e"
proof
  fix t
  have "inj (map_option (map_tx_state (\<lambda>d. (d, now e))))"
    by (intro option.inj_map tx_state.inj_map) (simp add: inj_def)
  with fun_cong [OF assms(1), of t] assms(2) show "tx_lookup e' t = tx_lookup e t"
    by (auto simp: tx_view_def dest: injD)
qed

text \<open>A transaction of its own: committed exactly as specified, or without effect.\<close>

lemma Tx_own:
  assumes spec: "tx_post fn R" and res: "Tx engine_driver (engine_runtime rnd waited) c opts fn e = (r, e')"
  shows "tx_lookup e' = tx_lookup e \<and> now e' = now e \<and>
    tx_outcome_ok (contents e' = contents e) (\<lambda>x. R (now e) (contents e) x (contents e')) r"
proof -
  from sqltx.Tx_result [OF tx_post_confined [OF spec] res]
  have t: "tx_view e' = tx_view e" "tx_outcome_ok (snapshot e' = snapshot e)
      (committed_run snapshot tx_view fn c (snapshot e) (snapshot e')) r" by auto
  have run: "R (now e) (contents e) x (contents e') \<and> now e' = now e"
    if "committed_run snapshot tx_view fn c (snapshot e) (snapshot e') x" for x
    using tx_post_committed [OF spec] that unfolding snapshot_def by blast
  have "now e' = now e \<and>
    tx_outcome_ok (contents e' = contents e) (\<lambda>x. R (now e) (contents e) x (contents e')) r"
    using t(2) run
    by (cases "(snapshot e' = snapshot e,
        committed_run snapshot tx_view fn c (snapshot e) (snapshot e'), r)" rule: tx_outcome_ok.cases)
      (auto simp: snapshot_def)
  with t(1) tx_view_inject show ?thesis by blast
qed

lemma EnsureTx_own:
  assumes "tx_spec fn R" "getCtxTx c = None"
    and "EnsureTx engine_driver (engine_runtime rnd waited) c fn e = (r, e')"
  shows "tx_lookup e' = tx_lookup e \<and> now e' = now e \<and>
    tx_outcome_ok (contents e' = contents e) (\<lambda>x. R (now e) (contents e) x (contents e')) r"
  using Tx_own [OF tx_spec_post [OF assms(1)]] assms(2,3) by (simp add: EnsureTx_def)

text \<open>Inside the caller's transaction an error rolls it back.\<close>

lemma EnsureTx_joined:
  assumes spec: "tx_spec fn R" and tx: "getCtxTx c = Some tx"
    and res: "EnsureTx engine_driver rt c fn e = (r, e')"
  shows "contents e' = contents e \<and> now e' = now e \<and> (\<forall>u. u \<noteq> tx \<longrightarrow> tx_lookup e' u = tx_lookup e u)
    \<and> (\<forall>x. r = Ret (Inr x) \<longrightarrow>
         (\<exists>d d'. tx_lookup e tx = Some (Active d) \<and> tx_lookup e' tx = Some (Active d') \<and> R (now e) d x d'))
    \<and> (\<forall>err. r = Ret (Inl err) \<longrightarrow> tx_lookup e' tx = None)"
proof -
  obtain y e1 where fn: "fn c tx e = (y, e1)" by fastforce
  with spec tx have f: "contents e1 = contents e" "now e1 = now e"
    "\<And>u. u \<noteq> tx \<Longrightarrow> tx_lookup e1 u = tx_lookup e u"
    "\<And>x. y = Ret (Inr x) \<Longrightarrow> \<exists>d d'. tx_lookup e tx = Some (Active d) \<and>
       tx_lookup e1 tx = Some (Active d') \<and> R (now e) d x d'"
    unfolding tx_spec_def by blast+
  have rb: "contents e2 = contents e1 \<and> now e2 = now e1 \<and> tx_lookup e2 = (tx_lookup e1)(tx := None)"
    if "engine_Rollback tx e1 = (x, e2)" for x e2
    using that by (auto simp: engine_Rollback_def tx_lookup_put pop_fault_lookup pop_fault_fields fun_eq_iff
        split: option.splits prod.splits)
  show ?thesis
  proof (cases "\<exists>err. y = Ret (Inl err)")
    case True
    then obtain err where "y = Ret (Inl err)" by blast
    with fn tx res obtain x where "engine_Rollback tx e1 = (x, e')" "r = Ret (Inl (join_err err x))"
      by (auto simp: EnsureTx_def engine_driver_def split: prod.splits)
    with rb f show ?thesis by auto
  next
    case False
    with fn tx res have "r = y" "e' = e1"
      by (auto simp: EnsureTx_def split: prod.splits outcome.splits sum.splits)
    with f False show ?thesis by auto
  qed
qed

text \<open>Both cases, for a call that succeeds.\<close>

lemma EnsureTx_ok:
  assumes "tx_spec fn R" and "EnsureTx engine_driver (engine_runtime rnd waited) c fn e = (Ret (Inr x), e')"
  shows "\<exists>d d'. visible (ctx_queryer c) e = Some d \<and> visible (ctx_queryer c) e' = Some d' \<and> R (now e) d x d'
    \<and> now e' = now e"
proof (cases "getCtxTx c")
  case None
  with EnsureTx_own [OF assms(1) None assms(2)] show ?thesis by (simp add: ctx_queryer_def)
next
  case (Some tx)
  with EnsureTx_joined [OF assms(1) Some assms(2)] show ?thesis by (auto simp: ctx_queryer_def)
qed

section \<open>Invariants of the contents\<close>

text \<open>A property of the contents that holds in the committed contents and in every open transaction.\<close>

definition engine_inv :: "('d \<Rightarrow> bool) \<Rightarrow> 'd engine \<Rightarrow> bool" where
  "engine_inv I e \<longleftrightarrow> I (contents e) \<and> (\<forall>t d. tx_lookup e t = Some (Active d) \<longrightarrow> I d)"

definition stmt_keeps :: "('d \<Rightarrow> bool) \<Rightarrow> ('d, 'r) stmt \<Rightarrow> bool" where
  "stmt_keeps I st \<longleftrightarrow> (\<forall>t d r d'. I d \<longrightarrow> st t d = Inr (r, d') \<longrightarrow> I d')"

lemma engine_invI:
  "I (contents e) \<Longrightarrow> (\<And>t d. tx_lookup e t = Some (Active d) \<Longrightarrow> I d) \<Longrightarrow> engine_inv I e"
  unfolding engine_inv_def by blast

lemma engine_inv_cong:
  "contents e' = contents e \<Longrightarrow> tx_lookup e' = tx_lookup e \<Longrightarrow> engine_inv I e' = engine_inv I e"
  unfolding engine_inv_def by simp

lemma engine_inv_put:
  "engine_inv I e \<Longrightarrow> (\<And>d. x = Some (Active d) \<Longrightarrow> I d) \<Longrightarrow> engine_inv I (tx_put t x e)"
  unfolding engine_inv_def tx_lookup_def tx_put_def
  by (auto simp: nth_list_update split: if_splits) (metis nth_list_update_eq nth_list_update_neq)

lemma engine_inv_visible: "engine_inv I e \<Longrightarrow> visible q e = Some d \<Longrightarrow> I d"
  by (cases q) (auto simp: engine_inv_def)

lemma pop_fault_inv: "pop_fault e = (f, e1) \<Longrightarrow> engine_inv I e1 = engine_inv I e"
  by (rule engine_inv_cong) (simp_all add: pop_fault_fields pop_fault_lookup)

lemma run_stmt_inv:
  assumes "stmt_keeps I st" "engine_inv I e"
  shows "engine_inv I (snd (run_stmt q st e))"
proof (cases "run_stmt q st e")
  case (Pair r e')
  show ?thesis
  proof (cases q)
    case QConn
    from run_stmt_QConn [OF Pair [unfolded QConn]] assms Pair show ?thesis
      unfolding stmt_keeps_def engine_inv_def by (cases r) auto
  next
    case (QTx t)
    note c = run_stmt_QTx_confined [OF Pair [unfolded QTx]]
    have "I d" if "tx_lookup e' t = Some (Active d)" for d
    proof (cases r)
      case (Inl x)
      with that Pair QTx show ?thesis
        by (auto simp: run_stmt_def tx_lookup_put pop_fault_lookup
            split: option.splits prod.splits tx_state.splits sum.splits)
    next
      case (Inr x)
      from run_stmt_QTx_ok [OF Pair [unfolded QTx Inr]] that assms show ?thesis
        unfolding stmt_keeps_def engine_inv_def by auto
    qed
    with c assms(2) Pair show ?thesis unfolding engine_inv_def by (metis snd_conv)
  qed
qed

lemma engine_inv_publish:
  "engine_inv I e \<Longrightarrow> I d \<Longrightarrow> engine_inv I ((tx_put t None e)\<lparr>contents := d\<rparr>)"
  using engine_inv_put [of I e None t] by (simp add: engine_inv_def)

lemma engine_Commit_inv: "engine_inv I e \<Longrightarrow> engine_inv I (snd (engine_Commit t e))"
proof -
  assume inv: "engine_inv I e"
  obtain f e1 where f: "pop_fault e = (f, e1)" by fastforce
  with inv have e1: "engine_inv I e1" by (simp add: pop_fault_inv)
  then have "I (contents e1)" by (simp add: engine_inv_def)
  moreover have "I d" if "tx_lookup e t = Some (Active d)" for d
    using inv that by (simp add: engine_inv_def)
  ultimately show ?thesis
    using f e1 inv
    by (cases f) (auto simp: engine_Commit_def split: option.split tx_state.split
        intro!: engine_inv_publish engine_inv_put)
qed

lemma engine_driver_keeps: "driver_keeps (engine_inv I) engine_driver"
proof -
  have b: "engine_inv I (snd (engine_BeginTx opts e))" if "engine_inv I e" for opts e
    using that by (auto simp: engine_BeginTx_def engine_inv_def tx_lookup_def nth_append pop_fault_fields
        pop_fault_inv split: option.splits prod.splits if_splits dest!: pop_fault_keeps)
  have c: "engine_inv I (snd (engine_Commit t e))" if "engine_inv I e" for t e
    using that engine_Commit_inv by blast
  have r: "engine_inv I (snd (engine_Rollback t e))" if "engine_inv I e" for t e
    using that by (auto simp: engine_Rollback_def pop_fault_inv intro!: engine_inv_put
        split: option.splits prod.splits)
  from b c r show ?thesis by (simp add: driver_keeps_def engine_driver_def)
qed

text \<open>
  The interface between a property \<open>I\<close> of contents, which statements keep, and a property \<open>J\<close> of the
  engine, which operations keep: \<open>J\<close> survives every statement that keeps \<open>I\<close>, the begin and the end of
  transactions, and a change of the environment.
\<close>

lemma run_stmt_unit:
  "snd (run_stmt q st e) = snd (run_stmt q (\<lambda>t d. map_sum id (\<lambda>x. ((), snd x)) (st t d)) e)"
  by (auto simp: run_stmt_def split: queryer.splits option.splits prod.splits tx_state.splits sum.splits)

locale engine_property =
  fixes I :: "'d \<Rightarrow> bool" and J :: "'d engine \<Rightarrow> bool"
  assumes unit_stmt_inv: "stmt_keeps I (st :: ('d, unit) stmt) \<Longrightarrow> J e \<Longrightarrow> J (snd (run_stmt q st e))"
    and driver_inv: "driver_keeps J engine_driver"
    and env_inv: "J (e\<lparr>now := t\<rparr>) = J e" "J (e\<lparr>faults := fs, lost_commit := b\<rparr>) = J e"

context engine_property
begin

lemma stmt_inv: "stmt_keeps I st \<Longrightarrow> J e \<Longrightarrow> J (snd (run_stmt q st e))"
  unfolding run_stmt_unit [of q st e] by (rule unit_stmt_inv) (auto simp: stmt_keeps_def map_sum_def split: sum.splits)

lemma Exec_keeps: "stmt_keeps I st \<Longrightarrow> J e \<Longrightarrow> J (snd (Exec q st e))"
  by (simp add: Exec_def stmt_inv)

lemma Exec_keeps_fst: "stmt_keeps I st \<Longrightarrow> J e \<Longrightarrow> Exec q st e = (r, e') \<Longrightarrow> J e'"
  using Exec_keeps [of st e q] by simp

lemma QueryMany_keeps: "stmt_keeps I st \<Longrightarrow> J e \<Longrightarrow> J (snd (QueryMany q st e))"
  by (simp add: QueryMany_def stmt_inv)

lemma QueryOne_keeps: "stmt_keeps I st \<Longrightarrow> J e \<Longrightarrow> J (snd (QueryOne q st e))"
  using QueryOne_run [of q st e] stmt_inv [of st e q] by (metis prod.collapse snd_conv)

lemma EnsureTx_inv:
  "fn_keeps J fn \<Longrightarrow> J e \<Longrightarrow> J (snd (EnsureTx engine_driver (engine_runtime rnd waited) c fn e))"
  by (rule EnsureTx_keeps [OF driver_inv]) (simp_all add: runtime_keeps_def engine_runtime_def)

lemma driver_steps:
  assumes "J e"
  shows "BeginTx engine_driver opts e = (b, e') \<Longrightarrow> J e'"
    "Commit engine_driver tx e = (x, e') \<Longrightarrow> J e'" "Rollback engine_driver tx e = (x, e') \<Longrightarrow> J e'"
  using driver_keepsD [OF driver_inv assms] by blast+

end

text \<open>The two instances: everywhere, and in one open transaction.\<close>

lemma engine_inv_env [simp]:
  "engine_inv I (e\<lparr>now := t\<rparr>) = engine_inv I e"
  "engine_inv I (e\<lparr>faults := fs, lost_commit := b\<rparr>) = engine_inv I e"
  by (simp_all add: engine_inv_def tx_lookup_def)

interpretation everywhere: engine_property I "engine_inv I" for I
  by unfold_locales (simp_all add: run_stmt_inv engine_driver_keeps)

definition tx_inv :: "nat \<Rightarrow> ('d \<Rightarrow> bool) \<Rightarrow> 'd engine \<Rightarrow> bool" where
  "tx_inv t I e \<longleftrightarrow> t < length (txs e) \<and> (\<forall>d. tx_lookup e t = Some (Active d) \<longrightarrow> I d)"

lemma pop_fault_txs: "pop_fault e = (f, e1) \<Longrightarrow> txs e1 = txs e"
  by (auto dest: pop_fault_keeps)

lemma tx_inv_cong: "txs e' = txs e \<Longrightarrow> tx_inv t I e' = tx_inv t I e"
  by (simp add: tx_inv_def tx_lookup_def)

lemma run_stmt_length: "length (txs (snd (run_stmt q st e))) = length (txs e)"
  by (auto simp: run_stmt_def tx_put_def pop_fault_txs
      split: queryer.split option.split prod.split tx_state.split sum.split)

lemma run_stmt_tx_inv:
  assumes "stmt_keeps I st" "tx_inv t I e"
  shows "tx_inv t I (snd (run_stmt q st e))"
proof (cases "run_stmt q st e")
  case (Pair r e')
  have "I d" if "tx_lookup e' t = Some (Active d)" for d
  proof (cases "q = QTx t")
    case True
    show ?thesis
    proof (cases r)
      case (Inl x)
      with that Pair True assms(2) show ?thesis
        by (auto simp: run_stmt_def tx_lookup_put pop_fault_lookup tx_inv_def
            split: option.splits prod.splits tx_state.splits sum.splits)
    next
      case (Inr x)
      from run_stmt_QTx_ok [OF Pair [unfolded True Inr]] that assms show ?thesis
        unfolding stmt_keeps_def tx_inv_def by auto
    qed
  next
    case False
    with run_stmt_QConn [of st e r e'] run_stmt_QTx_confined [of _ st e r e'] Pair
    have "tx_lookup e' t = tx_lookup e t" by (cases q) auto
    with that assms(2) show ?thesis by (simp add: tx_inv_def)
  qed
  with run_stmt_length [of q st e] Pair assms(2) show ?thesis by (simp add: tx_inv_def)
qed

lemma tx_inv_close: "tx_inv t I e \<Longrightarrow> tx_inv t I (tx_put u None e)"
  by (cases "u = t") (auto simp: tx_inv_def tx_lookup_def tx_put_def)

lemma tx_inv_env [simp]:
  "tx_inv t I (e\<lparr>contents := d\<rparr>) = tx_inv t I e" "tx_inv t I (e\<lparr>now := i\<rparr>) = tx_inv t I e"
  "tx_inv t I (e\<lparr>faults := fs, lost_commit := b\<rparr>) = tx_inv t I e"
  by (rule tx_inv_cong, simp)+

lemma engine_driver_tx_inv: "driver_keeps (tx_inv t I) engine_driver"
proof -
  have p: "tx_inv t I e1" if "tx_inv t I e" "pop_fault e = (f, e1)" for e f e1
    using that(1) tx_inv_cong [OF pop_fault_txs [OF that(2)]] by simp
  have "tx_inv t I (snd (engine_BeginTx opts e))" if "tx_inv t I e" for opts e
    using that by (auto simp: engine_BeginTx_def tx_inv_def tx_lookup_def nth_append pop_fault_txs
        split: option.splits prod.splits if_splits)
  moreover have "tx_inv t I (snd (engine_Commit u e))" if "tx_inv t I e" for u e
    using that by (cases "pop_fault e") (simp add: engine_Commit_def tx_inv_close p split: option.split tx_state.split)
  moreover have "tx_inv t I (snd (engine_Rollback u e))" if "tx_inv t I e" for u e
    using that by (cases "pop_fault e") (simp add: engine_Rollback_def tx_inv_close p split: option.split)
  ultimately show ?thesis by (simp add: driver_keeps_def engine_driver_def)
qed

interpretation inside: engine_property I "tx_inv t I" for t I
  by unfold_locales (erule (1) run_stmt_tx_inv, rule engine_driver_tx_inv, simp_all)

section \<open>Runs without faults\<close>

text \<open>When no round-trip fails, a transaction returns what its function returns.\<close>

definition begun :: "'d engine \<Rightarrow> 'd engine" where
  "begun e = e\<lparr>txs := txs e @ [Some (Active (contents e))]\<rparr>"

abbreviation next_tx :: "'d engine \<Rightarrow> nat" where
  "next_tx e \<equiv> length (txs e)"

lemma begun_simps [simp]:
  "tx_lookup (begun e) (next_tx e) = Some (Active (contents e))" "faults (begun e) = faults e"
  "now (begun e) = now e" "contents (begun e) = contents e"
  by (simp_all add: begun_def tx_lookup_def nth_append)

lemma doTx_no_fault_ok:
  assumes "faults e = []" "fn (setCtxTx c (next_tx e)) (next_tx e) (begun e) = (Ret (Inr x), e2)"
    "tx_lookup e2 (next_tx e) = Some (Active d)" "faults e2 = []"
  shows "doTx engine_driver c opts fn e = (Ret (Inr x), (tx_put (next_tx e) None e2)\<lparr>contents := d\<rparr>)"
  using assms
  by (simp add: doTx_def engine_driver_def engine_BeginTx_def pop_fault_def begun_def [symmetric]
      engine_Commit_def engine_Rollback_def tx_lookup_put)

lemma doTx_no_fault_err:
  assumes "faults e = []" "fn (setCtxTx c (next_tx e)) (next_tx e) (begun e) = (Ret (Inl err), e2)"
    "tx_lookup e2 (next_tx e) = Some y" "faults e2 = []"
  shows "doTx engine_driver c opts fn e = (Ret (Inl (join_err err None)), tx_put (next_tx e) None e2)"
  using assms
  by (simp add: doTx_def engine_driver_def engine_BeginTx_def pop_fault_def begun_def [symmetric]
      engine_Rollback_def tx_lookup_put)

lemma EnsureTx_stop:
  assumes "getCtxTx c = None" and "\<And>opts. doTx btx c opts fn e = (x, e1)"
    and "\<And>err. x = Ret (Inl err) \<Longrightarrow> \<not> isDeadlock (Some err)"
  shows "EnsureTx btx rt c fn e = (x, e1)"
  unfolding EnsureTx_def Tx_def Let_def assms(1) option.case
  by (rule tx_loop_stop [OF assms(2)]) (use assms(3) in blast)

lemma isDeadlock_join_Const [simp]: "\<not> isDeadlock (Some (join_err (ConstError s) None))"
  by (simp add: isDeadlock_def join_err_def Let_def AsType.simps [of _ "JoinErr _"] AsType.simps [of _ "ConstError _"])

lemma QueryOne_QTx_no_fault:
  assumes "faults e = []" "tx_lookup e t = Some (Active d)" "st (now e) d = Inr (rows, d)"
  shows "QueryOne (QTx t) st e =
    (case rows of [] \<Rightarrow> Inl (Errorf_w ''not found: '' (Sentinel ErrNoRows)) | [x] \<Rightarrow> Inr x
     | _ \<Rightarrow> Inl (OpaqueErr ''scany: expected 1 row''), tx_put t (Some (Active d)) e)"
  using assms by (simp add: QueryOne_def run_stmt_QTx_no_fault split: list.splits)

text \<open>From here on \<open>Is\<close> is decided by the lemmas about wrapped and joined errors.\<close>

lemma Is_ConstError [simp]:
  "Is (Some (ConstError s)) (ConstTarget s') = (s = s')" "\<not> Is (Some (ConstError s)) (SentinelTarget x)"
  by (auto simp: AsType.simps [of _ "ConstError _"])

declare Is.simps(2) [simp del]

end
