(* ===== verification/Base64.thy ===== *)
theory Base64
  imports Prelude
begin

text \<open>
  The encoding \<^verbatim>\<open>base64.RawURLEncoding\<close> of Go's standard library, which tokens are made with
  (\<^verbatim>\<open>tokens.generateNewToken\<close>) and cookies are decoded with (\<^verbatim>\<open>params.decodeCookie\<close>): the URL
  alphabet, no padding. Bytes are characters. The decoder skips line breaks and ignores the unused
  low bits of the last character, as the library's does outside its strict mode.
\<close>

definition b64_alphabet :: string where
  "b64_alphabet = ''ABCDEFGHIJKLMNOPQRSTUVWXYZabcdefghijklmnopqrstuvwxyz0123456789-_''"

definition b64_char :: "nat \<Rightarrow> char" where
  "b64_char n = b64_alphabet ! n"

definition b64_value :: "char \<Rightarrow> nat option" where
  "b64_value c = map_of (zip b64_alphabet [0..<64]) c"

abbreviation byte :: "char \<Rightarrow> nat" where
  "byte c \<equiv> of_char c"

fun b64_sextets :: "string \<Rightarrow> nat list" where
  "b64_sextets [] = []"
| "b64_sextets [a] = [byte a div 4, byte a mod 4 * 16]"
| "b64_sextets [a, b] = [byte a div 4, byte a mod 4 * 16 + byte b div 16, byte b mod 16 * 4]"
| "b64_sextets (a # b # c # s) =
     [byte a div 4, byte a mod 4 * 16 + byte b div 16, byte b mod 16 * 4 + byte c div 64, byte c mod 64]
     @ b64_sextets s"

definition b64_encode :: "string \<Rightarrow> string" where
  "b64_encode s = map b64_char (b64_sextets s)"

fun b64_bytes :: "nat list \<Rightarrow> string option" where
  "b64_bytes [] = Some []"
| "b64_bytes [a] = None"
| "b64_bytes [a, b] = Some [char_of (a * 4 + b div 16)]"
| "b64_bytes [a, b, c] = Some [char_of (a * 4 + b div 16), char_of (b mod 16 * 16 + c div 4)]"
| "b64_bytes (a # b # c # d # s) =
     map_option (\<lambda>r. char_of (a * 4 + b div 16) # char_of (b mod 16 * 16 + c div 4)
       # char_of (c mod 4 * 64 + d) # r) (b64_bytes s)"

fun b64_values :: "string \<Rightarrow> nat list option" where
  "b64_values [] = Some []"
| "b64_values (c # s) =
     (case b64_value c of None \<Rightarrow> None | Some n \<Rightarrow> map_option ((#) n) (b64_values s))"

definition is_line_break :: "char \<Rightarrow> bool" where
  "is_line_break c \<longleftrightarrow> byte c = 10 \<or> byte c = 13"

definition b64_decode :: "string \<Rightarrow> string option" where
  "b64_decode s =
     (case b64_values (filter (\<lambda>c. \<not> is_line_break c) s) of None \<Rightarrow> None | Some ns \<Rightarrow> b64_bytes ns)"

section \<open>Lemmas\<close>

lemma b64_alphabet_facts: "length b64_alphabet = 64" "distinct b64_alphabet"
  "list_all (\<lambda>c. \<not> is_line_break c) b64_alphabet"
  by (simp_all add: b64_alphabet_def is_line_break_def)

lemma b64_value_char: "n < 64 \<Longrightarrow> b64_value (b64_char n) = Some n"
  unfolding b64_value_def b64_char_def
  using b64_alphabet_facts by (simp add: map_of_zip_nth)

lemma b64_char_no_break: "n < 64 \<Longrightarrow> \<not> is_line_break (b64_char n)"
  using b64_alphabet_facts by (simp add: b64_char_def list_all_length)

text \<open>Joining and splitting digits of a mixed-radix number.\<close>

lemma split_digits: "r < b \<Longrightarrow> (q * b + r) div b = q" "r < b \<Longrightarrow> (q * b + r) mod b = r" for b :: nat
  by simp_all

lemma byte_div: "byte c div 4 < 64" "byte c div 16 < 16" "byte c div 64 < 4"
  by (simp_all add: less_mult_imp_div_less)

lemma join_less: "q < a \<Longrightarrow> r < b \<Longrightarrow> q * b + r < a * b" for a b :: nat
proof -
  assume "q < a" "r < b"
  then have "Suc q * b \<le> a * b" by (intro mult_le_mono1) simp
  with \<open>r < b\<close> show ?thesis by simp
qed

lemma b64_sextets_less: "n \<in> set (b64_sextets s) \<Longrightarrow> n < 64"
proof (induction s rule: b64_sextets.induct)
  case (2 a)
  then show ?case using byte_div [of a] join_less [of "byte a mod 4" 4 0 16] by auto
next
  case (3 a b)
  then show ?case
    using byte_div [of a] byte_div [of b] join_less [of "byte a mod 4" 4 "byte b div 16" 16]
      join_less [of "byte b mod 16" 16 0 4] by auto
next
  case (4 a b c s)
  then show ?case
    using byte_div [of a] byte_div [of b] byte_div [of c] join_less [of "byte a mod 4" 4 "byte b div 16" 16]
      join_less [of "byte b mod 16" 16 "byte c div 64" 4] by auto
qed simp

lemma b64_values_map: "\<forall>n \<in> set ns. n < 64 \<Longrightarrow> b64_values (map b64_char ns) = Some ns"
  by (induction ns) (simp_all add: b64_value_char)

lemma b64_filter: "\<forall>n \<in> set ns. n < 64 \<Longrightarrow> filter (\<lambda>c. \<not> is_line_break c) (map b64_char ns) = map b64_char ns"
  by (simp add: filter_id_conv b64_char_no_break)

lemma b64_join_byte:
  "char_of (byte a div 4 * 4 + (byte a mod 4 * 16 + byte b div 16) div 16) = a"
  "char_of ((byte a mod 4 * 16 + byte b div 16) mod 16 * 16 + (byte b mod 16 * 4 + byte c div 64) div 4) = b"
  "char_of ((byte b mod 16 * 4 + byte c div 64) mod 4 * 64 + byte c mod 64) = c"
  using byte_div [of a] byte_div [of b] byte_div [of c] by (simp_all add: split_digits)

lemma b64_join_last:
  "char_of (byte a div 4 * 4 + byte a mod 4 * 16 div 16) = a"
  "char_of ((byte a mod 4 * 16 + byte b div 16) mod 16 * 16 + byte b mod 16 * 4 div 4) = b"
  using byte_div [of a] byte_div [of b] by (simp_all add: split_digits)

lemma b64_bytes_sextets: "b64_bytes (b64_sextets s) = Some s"
  by (induction s rule: b64_sextets.induct) (simp_all only: b64_sextets.simps b64_bytes.simps append.simps
      b64_join_byte b64_join_last option.map)

lemma b64_decode_encode: "b64_decode (b64_encode s) = Some s"
proof -
  have "\<forall>n \<in> set (b64_sextets s). n < 64" using b64_sextets_less by blast
  then show ?thesis
    by (simp add: b64_decode_def b64_encode_def b64_filter b64_values_map b64_bytes_sextets)
qed

lemma b64_encode_inject: "b64_encode s = b64_encode t \<longleftrightarrow> s = t"
  by (metis b64_decode_encode option.inject)

lemma length_b64_sextets: "length (b64_sextets s) = (8 * length s + 5) div 6"
  by (induction s rule: b64_sextets.induct) auto

lemma length_b64_encode: "length (b64_encode s) = (8 * length s + 5) div 6"
  by (simp add: b64_encode_def length_b64_sextets)

lemma b64_encode_alphabet: "set (b64_encode s) \<subseteq> set b64_alphabet"
  using b64_sextets_less b64_alphabet_facts(1)
  by (auto simp: b64_encode_def b64_char_def)

lemma b64_alphabet_ascii: "\<forall>c \<in> set b64_alphabet. (of_char c :: nat) < 128"
  by code_simp

lemma pg_length_b64_encode: "pg_length (b64_encode s) = (8 * length s + 5) div 6"
  using b64_alphabet_ascii b64_encode_alphabet [of s]
  by (subst pg_length_ascii) (auto simp: length_b64_encode)

end
