(* ===== verification/Tokens.thy ===== *)
theory Tokens
  imports Sqltx Base64
begin

text \<open>
  Package \<^verbatim>\<open>tokens\<close> (\<^verbatim>\<open>src/tokens/tokens.go\<close>) over the table of \<^verbatim>\<open>src/tokens/migrations\<close>: secure
  random tokens with absolute and idle expiry, single or multiple use. Each SQL statement of the
  package is a function on the table, with the table's constraints; each Go function is one
  definition that runs the statements through \<^verbatim>\<open>pgdb\<close>. The column \<^verbatim>\<open>created\<close> is never read and is
  left out. Data is JSON text; what \<^verbatim>\<open>json.Marshal\<close> makes of an argument is part of the argument,
  and a text that the server refuses is an error of that statement like any other fault.
\<close>

section \<open>The table\<close>

record token_row =
  tr_token :: string
  tr_type :: string
  tr_single_use :: bool
  tr_ref_id :: uuid
  tr_expiry :: int
  tr_idle :: "int option"
  tr_idle_duration :: "int option"
  tr_data :: string

record tokens_db =
  tokens_tokens :: "token_row list"

text \<open>The range of an INTEGER column and the CHECK constraints, in the order of their names.\<close>

definition int4_ok :: "int \<Rightarrow> bool" where
  "int4_ok n \<longleftrightarrow> - (2 ^ 31) \<le> n \<and> n < 2 ^ 31"

definition chk_idle_multi_use_only :: "token_row \<Rightarrow> bool" where
  "chk_idle_multi_use_only r \<longleftrightarrow> tr_idle r = None \<or> \<not> tr_single_use r"

definition chk_token_length :: "token_row \<Rightarrow> bool" where
  "chk_token_length r \<longleftrightarrow> 10 \<le> pg_length (tr_token r) \<and> pg_length (tr_token r) \<le> 100"

definition chk_type_length :: "token_row \<Rightarrow> bool" where
  "chk_type_length r \<longleftrightarrow> 0 < pg_length (tr_type r) \<and> pg_length (tr_type r) \<le> 100"

definition row_error :: "token_row \<Rightarrow> goerr option" where
  "row_error r =
     (if (case tr_idle_duration r of Some n \<Rightarrow> \<not> int4_ok n | None \<Rightarrow> False)
      then Some (pg_fail NumericValueOutOfRange [] [])
      else if \<not> chk_idle_multi_use_only r then Some (pg_fail CheckViolation ''tokens_tokens'' ''chk_idle_multi_use_only'')
      else if \<not> chk_token_length r then Some (pg_fail CheckViolation ''tokens_tokens'' ''chk_token_length'')
      else if \<not> chk_type_length r then Some (pg_fail CheckViolation ''tokens_tokens'' ''chk_type_length'')
      else None)"

definition token_pkey_error :: goerr where
  "token_pkey_error = pg_fail UniqueViolation ''tokens_tokens'' ''tokens_tokens_pkey''"

text \<open>
  The insertion of \<open>New\<close>: the conflict target is the unique index on type and reference of
  single-use tokens, and on such a conflict only token and expiry are overwritten.
\<close>

definition same_single_use :: "token_row \<Rightarrow> token_row \<Rightarrow> bool" where
  "same_single_use r x \<longleftrightarrow>
     tr_single_use x \<and> tr_single_use r \<and> tr_type x = tr_type r \<and> tr_ref_id x = tr_ref_id r"

definition insert_token :: "token_row \<Rightarrow> token_row list \<Rightarrow> token_row list res" where
  "insert_token r tbl =
     (case row_error r of Some e \<Rightarrow> Inl e
      | None \<Rightarrow>
          if list_ex (same_single_use r) tbl then
            (if list_ex (\<lambda>x. tr_token x = tr_token r \<and> \<not> same_single_use r x) tbl then Inl token_pkey_error
             else Inr (map (\<lambda>x. if same_single_use r x
                                then x\<lparr>tr_token := tr_token r, tr_expiry := tr_expiry r\<rparr> else x) tbl))
          else if list_ex (\<lambda>x. tr_token x = tr_token r) tbl then Inl token_pkey_error
          else Inr (tbl @ [r]))"

text \<open>The statements on whole database contents.\<close>

definition on_tokens :: "(int \<Rightarrow> token_row list \<Rightarrow> token_row list res) \<Rightarrow> ('z tokens_db_scheme, unit) stmt" where
  "on_tokens f t d = (case f t (tokens_tokens d) of Inl e \<Rightarrow> Inl e | Inr tbl \<Rightarrow> Inr ((), d\<lparr>tokens_tokens := tbl\<rparr>))"

definition insertToken_sql :: "string \<Rightarrow> string \<Rightarrow> bool \<Rightarrow> uuid \<Rightarrow> int \<Rightarrow> int option \<Rightarrow> string
    \<Rightarrow> ('z tokens_db_scheme, unit) stmt" where
  "insertToken_sql token typ single refid expirySecs idleSecs data =
     on_tokens (\<lambda>t. insert_token
       \<lparr>tr_token = token, tr_type = typ, tr_single_use = single, tr_ref_id = refid,
        tr_expiry = t + expirySecs * pg_second,
        tr_idle = map_option (\<lambda>s. t + s * pg_second) idleSecs,
        tr_idle_duration = idleSecs, tr_data = data\<rparr>)"

definition row_live :: "int \<Rightarrow> token_row \<Rightarrow> bool" where
  "row_live t r \<longleftrightarrow> t < tr_expiry r \<and> (tr_idle r = None \<or> t < the (tr_idle r))"

text \<open>\<open>Token\<close>, as loaded by \<open>Verify\<close>.\<close>

record Token =
  tok_Token :: string
  tok_Type :: string
  tok_SingleUse :: bool
  tok_RefID :: uuid
  tok_Expiry :: int
  tok_Idle :: "int option"
  tok_Data :: string

definition token_of_row :: "token_row \<Rightarrow> Token" where
  "token_of_row r =
     \<lparr>tok_Token = tr_token r, tok_Type = tr_type r, tok_SingleUse = tr_single_use r,
      tok_RefID = tr_ref_id r, tok_Expiry = tr_expiry r, tok_Idle = tr_idle r, tok_Data = tr_data r\<rparr>"

definition getToken_sql :: "string \<Rightarrow> ('z tokens_db_scheme, Token list) stmt" where
  "getToken_sql token t d =
     Inr (map token_of_row (filter (\<lambda>r. tr_token r = token \<and> row_live t r) (tokens_tokens d)), d)"

definition updateData_sql :: "string \<Rightarrow> string \<Rightarrow> ('z tokens_db_scheme, unit) stmt" where
  "updateData_sql data token =
     on_tokens (\<lambda>t tbl. Inr (map (\<lambda>r. if tr_token r = token then r\<lparr>tr_data := data\<rparr> else r) tbl))"

text \<open>
  The update of \<open>Rotate\<close> on the multi-use row of the old token; the new row must satisfy the
  checks and its token must be new.
\<close>

definition rotated :: "string \<Rightarrow> uuid \<Rightarrow> int \<Rightarrow> int option \<Rightarrow> string option \<Rightarrow> int \<Rightarrow> token_row \<Rightarrow> token_row" where
  "rotated newToken refid absSecs idleSecs data t r =
     r\<lparr>tr_token := newToken, tr_ref_id := refid, tr_expiry := t + absSecs * pg_second,
       tr_idle := map_option (\<lambda>s. t + s * pg_second) idleSecs, tr_idle_duration := idleSecs,
       tr_data := (case data of Some j \<Rightarrow> j | None \<Rightarrow> tr_data r)\<rparr>"

definition rotate_rows :: "string \<Rightarrow> string \<Rightarrow> (token_row \<Rightarrow> token_row) \<Rightarrow> token_row list \<Rightarrow> token_row list res" where
  "rotate_rows oldToken newToken f tbl =
     (let hit = (\<lambda>r. tr_token r = oldToken \<and> \<not> tr_single_use r) in
      case find_map (\<lambda>r. if hit r then row_error (f r) else None) tbl of
        Some e \<Rightarrow> Inl e
      | None \<Rightarrow>
          if list_ex hit tbl \<and> list_ex (\<lambda>r. \<not> hit r \<and> tr_token r = newToken) tbl then Inl token_pkey_error
          else Inr (map (\<lambda>r. if hit r then f r else r) tbl))"

definition updateToken_sql :: "string \<Rightarrow> uuid \<Rightarrow> int \<Rightarrow> int option \<Rightarrow> string option \<Rightarrow> string
    \<Rightarrow> ('z tokens_db_scheme, unit) stmt" where
  "updateToken_sql newToken refid absSecs idleSecs data oldToken =
     on_tokens (\<lambda>t. rotate_rows oldToken newToken (rotated newToken refid absSecs idleSecs data t))"

definition deleteToken_sql :: "string \<Rightarrow> ('z tokens_db_scheme, unit) stmt" where
  "deleteToken_sql token = on_tokens (\<lambda>t tbl. Inr (filter (\<lambda>r. tr_token r \<noteq> token) tbl))"

definition deleteTokens_sql :: "uuid \<Rightarrow> string \<Rightarrow> ('z tokens_db_scheme, unit) stmt" where
  "deleteTokens_sql refid typ =
     on_tokens (\<lambda>t tbl. Inr (filter (\<lambda>r. \<not> (tr_ref_id r = refid \<and> tr_type r = typ)) tbl))"

definition idle_reset :: "int \<Rightarrow> token_row \<Rightarrow> token_row" where
  "idle_reset t r = r\<lparr>tr_idle := map_option (\<lambda>s. t + s * pg_second) (tr_idle_duration r)\<rparr>"

definition resetIdle_sql :: "string \<Rightarrow> ('z tokens_db_scheme, unit) stmt" where
  "resetIdle_sql token =
     on_tokens (\<lambda>t tbl. Inr (map (\<lambda>r. if tr_token r = token \<and> \<not> tr_single_use r then idle_reset t r else r) tbl))"

definition tokens_cleanup_sql :: "('z tokens_db_scheme, unit) stmt" where
  "tokens_cleanup_sql = on_tokens (\<lambda>t tbl. Inr (filter (\<lambda>r. \<not> tr_expiry r < t) tbl))"

section \<open>Operations\<close>

record TokenArgs =
  ta_Type :: string
  ta_RefID :: uuid
  ta_SingleUse :: bool
  ta_AbsoluteExpiry :: int
  ta_IdleExpiry :: int
  ta_Data :: "string res option" \<comment> \<open>nil, or what \<^verbatim>\<open>json.Marshal\<close> returns for it\<close>

definition DefaultRawTokenSize :: int where "DefaultRawTokenSize = 32"

text \<open>\<open>rnd n\<close> are the \<open>n\<close> bytes that \<^verbatim>\<open>rand.Read\<close> fills.\<close>

definition generateNewToken :: "int \<Rightarrow> (nat \<Rightarrow> string) \<Rightarrow> string" where
  "generateNewToken RawTokenSize rnd =
     (let rawTokenSize = (if RawTokenSize \<le> 0 then DefaultRawTokenSize else RawTokenSize)
      in b64_encode (rnd (nat rawTokenSize)))"

definition tokens_New :: "int \<Rightarrow> (nat \<Rightarrow> string) \<Rightarrow> 'a ctx \<Rightarrow> TokenArgs \<Rightarrow> 'z tokens_db_scheme engine
    \<Rightarrow> (string \<times> string) res \<times> 'z tokens_db_scheme engine" where
  "tokens_New RawTokenSize rnd c args e =
     (let token = generateNewToken RawTokenSize rnd;
          idleSecs = (if \<not> ta_SingleUse args \<and> 0 < ta_IdleExpiry args
                      then Some (duration_seconds (ta_IdleExpiry args)) else None)
      in case (case ta_Data args of None \<Rightarrow> Inr ''null'' | Some j \<Rightarrow> j) of
           Inl err \<Rightarrow> (Inl err, e)
         | Inr data \<Rightarrow>
             (case EnsureQueryer c QConn (\<lambda>c q. Exec q (insertToken_sql token (ta_Type args)
                 (ta_SingleUse args) (ta_RefID args) (duration_seconds (ta_AbsoluteExpiry args)) idleSecs data)) e of
                (Inl err, e1) \<Rightarrow> (Inl err, e1)
              | (Inr _, e1) \<Rightarrow> (Inr (token, data), e1)))"

definition ErrInvalid :: goerr where "ErrInvalid = ConstError ''invalid token''"

definition tokens_Delete :: "'a ctx \<Rightarrow> string \<Rightarrow> 'z tokens_db_scheme engine \<Rightarrow> unit res \<times> 'z tokens_db_scheme engine" where
  "tokens_Delete c token e = EnsureQueryer c QConn (\<lambda>c q. Exec q (deleteToken_sql token)) e"

definition tokens_ResetIdle :: "'a ctx \<Rightarrow> string \<Rightarrow> 'z tokens_db_scheme engine \<Rightarrow> unit res \<times> 'z tokens_db_scheme engine" where
  "tokens_ResetIdle c token e = EnsureQueryer c QConn (\<lambda>c q. Exec q (resetIdle_sql token)) e"

text \<open>The function that \<open>Verify\<close> runs in a transaction.\<close>

definition verify_tx :: "string \<Rightarrow> ('a, 'z tokens_db_scheme engine, Token) tx_fn" where
  "verify_tx token c tx e =
     (case QueryOne (QTx tx) (getToken_sql token) e of
        (Inl err, e1) \<Rightarrow>
          (Ret (Inl (if Is (Some err) (SentinelTarget ErrNoRows) then ErrInvalid else err)), e1)
      | (Inr tok, e1) \<Rightarrow>
          if tok_SingleUse tok then
            (case tokens_Delete c token e1 of
               (Inl err, e2) \<Rightarrow> (Ret (Inl err), e2)
             | (Inr _, e2) \<Rightarrow> (Ret (Inr tok), e2))
          else if tok_Idle tok \<noteq> None then
            (case tokens_ResetIdle c token e1 of
               (Inl err, e2) \<Rightarrow> (Ret (Inl err), e2)
             | (Inr _, e2) \<Rightarrow> (Ret (Inr tok), e2))
          else (Ret (Inr tok), e1))"

definition tokens_Verify :: "'z tokens_db_scheme engine runtime \<Rightarrow> 'a ctx \<Rightarrow> string \<Rightarrow> (Token \<Rightarrow> goerr option) option
    \<Rightarrow> 'z tokens_db_scheme engine \<Rightarrow> Token res outcome \<times> 'z tokens_db_scheme engine" where
  "tokens_Verify rt c token vfn e =
     (case EnsureTx engine_driver rt c (verify_tx token) e of
        (Ret (Inr tok), e1) \<Rightarrow>
          (case vfn of
             None \<Rightarrow> (Ret (Inr tok), e1)
           | Some f \<Rightarrow> (case f tok of Some err \<Rightarrow> (Ret (Inl err), e1) | None \<Rightarrow> (Ret (Inr tok), e1)))
      | (r, e1) \<Rightarrow> (r, e1))"

definition MustMatchType :: "string \<Rightarrow> Token \<Rightarrow> goerr option" where
  "MustMatchType t tok = (if tok_Type tok \<noteq> t then Some ErrInvalid else None)"

definition MustMatchTypeAndRefID :: "string \<Rightarrow> uuid \<Rightarrow> Token \<Rightarrow> goerr option" where
  "MustMatchTypeAndRefID t refID tok =
     (if tok_Type tok \<noteq> t \<or> tok_RefID tok \<noteq> refID then Some ErrInvalid else None)"

definition tokens_UpdateData :: "'a ctx \<Rightarrow> string \<Rightarrow> string \<Rightarrow> 'z tokens_db_scheme engine \<Rightarrow> unit res \<times> 'z tokens_db_scheme engine" where
  "tokens_UpdateData c token data e = EnsureQueryer c QConn (\<lambda>c q. Exec q (updateData_sql data token)) e"

definition tokens_Rotate :: "int \<Rightarrow> (nat \<Rightarrow> string) \<Rightarrow> 'a ctx \<Rightarrow> string \<Rightarrow> TokenArgs \<Rightarrow> 'z tokens_db_scheme engine
    \<Rightarrow> string res \<times> 'z tokens_db_scheme engine" where
  "tokens_Rotate RawTokenSize rnd c oldToken args e =
     (let newToken = generateNewToken RawTokenSize rnd;
          idleSecs = (if 0 < ta_IdleExpiry args then Some (duration_seconds (ta_IdleExpiry args)) else None);
          absSecs = duration_seconds (ta_AbsoluteExpiry args)
      in case (case ta_Data args of None \<Rightarrow> Inr None | Some (Inl err) \<Rightarrow> Inl err | Some (Inr b) \<Rightarrow> Inr (Some b)) of
           Inl err \<Rightarrow> (Inl err, e)
         | Inr data \<Rightarrow>
             (case EnsureQueryer c QConn (\<lambda>c q. Exec q
                 (updateToken_sql newToken (ta_RefID args) absSecs idleSecs data oldToken)) e of
                (Inl err, e1) \<Rightarrow> (Inl err, e1)
              | (Inr _, e1) \<Rightarrow> (Inr newToken, e1)))"

definition tokens_DeleteByTypeRef :: "'a ctx \<Rightarrow> string \<Rightarrow> uuid \<Rightarrow> 'z tokens_db_scheme engine \<Rightarrow> unit res \<times> 'z tokens_db_scheme engine" where
  "tokens_DeleteByTypeRef c tokenType tokenRefID e =
     EnsureQueryer c QConn (\<lambda>c q. Exec q (deleteTokens_sql tokenRefID tokenType)) e"

definition tokens_Cleanup :: "'a ctx \<Rightarrow> 'z tokens_db_scheme engine \<Rightarrow> unit res \<times> 'z tokens_db_scheme engine" where
  "tokens_Cleanup c e = EnsureQueryer c QConn (\<lambda>c q. Exec q tokens_cleanup_sql) e"

section \<open>Well-formed tables\<close>

text \<open>
  The table invariant: tokens are unique, every row satisfies the checks and has an idle time
  exactly when it has an idle duration, and there is one single-use token per type and reference.
\<close>

definition single_key :: "token_row \<Rightarrow> string \<times> uuid" where
  "single_key r = (tr_type r, tr_ref_id r)"

definition row_ok :: "token_row \<Rightarrow> bool" where
  "row_ok r \<longleftrightarrow> row_error r = None \<and> (tr_idle r = None \<longleftrightarrow> tr_idle_duration r = None)"

definition table_ok :: "token_row list \<Rightarrow> bool" where
  "table_ok tbl \<longleftrightarrow> distinct (map tr_token tbl) \<and> distinct (map single_key (filter tr_single_use tbl))
     \<and> list_all row_ok tbl"

definition tokens_inv :: "'z tokens_db_scheme \<Rightarrow> bool" where
  "tokens_inv d \<longleftrightarrow> table_ok (tokens_tokens d)"

lemma row_error_None:
  "row_error r = None \<longleftrightarrow> chk_idle_multi_use_only r \<and> chk_token_length r \<and> chk_type_length r
     \<and> (case tr_idle_duration r of Some n \<Rightarrow> int4_ok n | None \<Rightarrow> True)"
  by (auto simp: row_error_def split: option.splits)

lemmas row_checks = row_ok_def row_error_None chk_idle_multi_use_only_def chk_token_length_def chk_type_length_def

text \<open>Changing the key of the one element that satisfies \<open>P\<close> to a key that no other element has.\<close>

lemma distinct_update_one:
  assumes "distinct (map k xs)" and "\<And>x y. x \<in> set xs \<Longrightarrow> y \<in> set xs \<Longrightarrow> P x \<Longrightarrow> P y \<Longrightarrow> k x = k y"
    and "\<And>x. x \<in> set xs \<Longrightarrow> P x \<Longrightarrow> k (f x) = n" and "\<And>x. x \<in> set xs \<Longrightarrow> \<not> P x \<Longrightarrow> (\<exists>y \<in> set xs. P y) \<Longrightarrow> k x \<noteq> n"
  shows "distinct (map k (map (\<lambda>x. if P x then f x else x) xs))"
  using assms
proof (induction xs)
  case (Cons a xs)
  show ?case
  proof (cases "P a")
    case True
    with Cons.prems(1,2) have none: "\<not> P x" if "x \<in> set xs" for x
      using that by (metis distinct.simps(2) image_eqI list.set_intros list.simps(9) set_map)
    then have "map (\<lambda>x. if P x then f x else x) xs = xs" by (simp add: map_idI)
    with True none Cons.prems show ?thesis by auto (metis)
  next
    case False
    have "distinct (map k (map (\<lambda>x. if P x then f x else x) xs))"
      by (rule Cons.IH) (use Cons.prems in \<open>auto\<close>)
    moreover have ne: "k (if P x then f x else x) \<noteq> k a" if "x \<in> set xs" for x
    proof (cases "P x")
      case True
      then have "\<exists>y \<in> set (a # xs). P y" using that by auto
      with that True Cons.prems(3) [of x] Cons.prems(4) [of a] False show ?thesis by simp
    next
      case False
      with that Cons.prems(1) show ?thesis by (auto simp: image_iff)
    qed
    have "k a \<notin> (\<lambda>x. k (if P x then f x else x)) ` set xs"
    proof
      assume "k a \<in> (\<lambda>x. k (if P x then f x else x)) ` set xs"
      then obtain x where "x \<in> set xs" "k a = k (if P x then f x else x)" by blast
      with ne [of x] show False by simp
    qed
    ultimately show ?thesis using False by simp
  qed
qed simp

lemma distinct_map_eq: "distinct (map k xs) \<Longrightarrow> x \<in> set xs \<Longrightarrow> y \<in> set xs \<Longrightarrow> k x = k y \<Longrightarrow> x = y"
  by (auto simp: distinct_map dest: inj_onD)

lemma table_ok_filter: "table_ok tbl \<Longrightarrow> table_ok (filter P tbl)"
  unfolding table_ok_def
  by (auto simp: distinct_map list_all_iff inj_on_def)

lemma table_ok_map_same:
  assumes "table_ok tbl" "\<And>r. tr_token (f r) = tr_token r" "\<And>r. tr_single_use (f r) = tr_single_use r"
    "\<And>r. single_key (f r) = single_key r" "\<And>r. row_ok r \<Longrightarrow> row_ok (f r)"
  shows "table_ok (map f tbl)"
  using assms unfolding table_ok_def
  by (auto simp: comp_def list_all_iff filter_map)

lemma same_single_use_key:
  "same_single_use r x \<longleftrightarrow> tr_single_use x \<and> tr_single_use r \<and> single_key x = single_key r"
  by (auto simp: same_single_use_def single_key_def)

lemma row_ok_single_no_idle: "row_ok r \<Longrightarrow> tr_single_use r \<Longrightarrow> tr_idle r = None \<and> tr_idle_duration r = None"
  by (auto simp: row_checks)

lemma insert_token_ok:
  assumes ok: "table_ok tbl" and r: "tr_idle r = None \<longleftrightarrow> tr_idle_duration r = None"
    and ins: "insert_token r tbl = Inr tbl'"
  shows "table_ok tbl'"
proof (cases "list_ex (same_single_use r) tbl")
  case True
  let ?f = "\<lambda>x. x\<lparr>tr_token := tr_token r, tr_expiry := tr_expiry r\<rparr>"
  from ins True have rok: "row_ok r" and nw: "\<And>x. x \<in> set tbl \<Longrightarrow> \<not> same_single_use r x \<Longrightarrow> tr_token x \<noteq> tr_token r"
    and t': "tbl' = map (\<lambda>x. if same_single_use r x then ?f x else x) tbl"
    using r by (auto simp: insert_token_def row_ok_def list_ex_iff split: option.splits if_splits)
  from ok have one: "x = y" if "x \<in> set tbl" "y \<in> set tbl" "same_single_use r x" "same_single_use r y" for x y
    using that distinct_map_eq [of single_key "filter tr_single_use tbl" x y]
    by (auto simp: table_ok_def same_single_use_key)
  have "distinct (map tr_token tbl')" unfolding t'
    by (rule distinct_update_one) (use ok one nw in \<open>auto simp: table_ok_def dest: one\<close>)
  moreover have "row_ok (?f x)" if "row_ok x" "same_single_use r x" for x
    using that rok by (auto simp: row_checks same_single_use_def)
  with ok have "list_all row_ok tbl'" unfolding t' by (auto simp: table_ok_def list_all_iff)
  moreover have "map single_key (filter tr_single_use tbl') = map single_key (filter tr_single_use tbl)"
    unfolding t' by (induction tbl) (auto simp: single_key_def)
  ultimately show ?thesis using ok by (simp add: table_ok_def)
next
  case False
  with ins r have "row_ok r" "tbl' = tbl @ [r]" "tr_token r \<notin> tr_token ` set tbl"
    by (auto simp: insert_token_def row_ok_def list_ex_iff split: option.splits if_splits)
  with ok False show ?thesis by (auto simp: table_ok_def same_single_use_key list_ex_iff image_iff)
qed

lemma rotate_rows_map:
  "rotate_rows old new f tbl = Inr tbl' \<Longrightarrow>
     tbl' = map (\<lambda>r. if tr_token r = old \<and> \<not> tr_single_use r then f r else r) tbl"
  by (auto simp: rotate_rows_def Let_def split: option.splits if_splits)

lemma rotate_rows_fresh:
  "rotate_rows old new f tbl = Inr tbl' \<Longrightarrow> r \<in> set tbl \<Longrightarrow> tr_token r = old \<Longrightarrow> \<not> tr_single_use r \<Longrightarrow> z \<in> set tbl \<Longrightarrow>
     tr_token z = new \<Longrightarrow> tr_token z = old \<and> \<not> tr_single_use z"
  by (auto simp: rotate_rows_def Let_def list_ex_iff split: option.splits if_splits)

lemma rotate_rows_ok:
  assumes ok: "table_ok tbl" and rot: "rotate_rows old new f tbl = Inr tbl'"
    and f: "\<And>r. tr_token (f r) = new" "\<And>r. tr_single_use (f r) = tr_single_use r"
      "\<And>r. tr_idle (f r) = None \<longleftrightarrow> tr_idle_duration (f r) = None"
  shows "table_ok tbl'"
proof -
  define hit where "hit r \<longleftrightarrow> tr_token r = old \<and> \<not> tr_single_use r" for r :: token_row
  from rot have t': "tbl' = map (\<lambda>r. if hit r then f r else r) tbl"
    and err: "\<And>r. r \<in> set tbl \<Longrightarrow> hit r \<Longrightarrow> row_error (f r) = None"
    and nw: "\<And>r. r \<in> set tbl \<Longrightarrow> \<not> hit r \<Longrightarrow> list_ex hit tbl \<Longrightarrow> tr_token r \<noteq> new"
    by (auto simp: rotate_rows_def Let_def hit_def [abs_def] find_map_None_iff list_ex_iff
        split: option.splits if_splits)
  have "distinct (map tr_token tbl')" unfolding t'
    by (rule distinct_update_one) (use ok f nw in \<open>auto simp: table_ok_def hit_def list_ex_iff\<close>)
  moreover from ok err f have "list_all row_ok tbl'"
    unfolding t' by (auto simp: table_ok_def list_all_iff row_ok_def)
  moreover have "map single_key (filter tr_single_use tbl') = map single_key (filter tr_single_use tbl)"
    unfolding t' using f(2) by (induction tbl) (auto simp: hit_def)
  ultimately show ?thesis using ok by (simp add: table_ok_def)
qed

text \<open>Every statement keeps the invariant.\<close>

lemma on_tokens_Inr:
  "on_tokens f t d = Inr (u, d') \<longleftrightarrow> (\<exists>tbl. f t (tokens_tokens d) = Inr tbl \<and> d' = d\<lparr>tokens_tokens := tbl\<rparr>)"
  by (auto simp: on_tokens_def split: sum.splits)

lemma on_tokens_keeps:
  "(\<And>t tbl tbl'. table_ok tbl \<Longrightarrow> f t tbl = Inr tbl' \<Longrightarrow> table_ok tbl') \<Longrightarrow> stmt_keeps tokens_inv (on_tokens f)"
  by (auto simp: stmt_keeps_def on_tokens_def tokens_inv_def split: sum.splits)

lemma idle_reset_fields [simp]:
  "tr_token (idle_reset t r) = tr_token r" "tr_single_use (idle_reset t r) = tr_single_use r"
  "tr_type (idle_reset t r) = tr_type r" "tr_ref_id (idle_reset t r) = tr_ref_id r"
  "tr_expiry (idle_reset t r) = tr_expiry r" "tr_data (idle_reset t r) = tr_data r"
  by (simp_all add: idle_reset_def)

lemma row_ok_idle_reset: "row_ok r \<Longrightarrow> \<not> tr_single_use r \<Longrightarrow> row_ok (idle_reset t r)"
  by (auto simp: row_checks idle_reset_def)

lemma tokens_stmts_keep:
  "stmt_keeps tokens_inv (insertToken_sql token typ single refid es ids data)"
  "stmt_keeps tokens_inv (updateData_sql data token)"
  "stmt_keeps tokens_inv (updateToken_sql newt refid as ids newdata old)"
  "stmt_keeps tokens_inv (deleteToken_sql token)"
  "stmt_keeps tokens_inv (deleteTokens_sql refid typ)"
  "stmt_keeps tokens_inv (resetIdle_sql token)"
  "stmt_keeps tokens_inv tokens_cleanup_sql"
proof -
  show "stmt_keeps tokens_inv (insertToken_sql token typ single refid es ids data)"
    unfolding insertToken_sql_def by (rule on_tokens_keeps, erule insert_token_ok [rotated 2]) auto
  show "stmt_keeps tokens_inv (updateData_sql data token)"
    unfolding updateData_sql_def
    by (rule on_tokens_keeps) (auto intro!: table_ok_map_same simp: row_checks single_key_def split: if_splits)
  show "stmt_keeps tokens_inv (updateToken_sql newt refid as ids newdata old)"
    unfolding updateToken_sql_def
    by (rule on_tokens_keeps, erule (1) rotate_rows_ok) (auto simp: rotated_def)
  show "stmt_keeps tokens_inv (resetIdle_sql token)"
    unfolding resetIdle_sql_def
    by (rule on_tokens_keeps)
      (auto intro!: table_ok_map_same row_ok_idle_reset simp: single_key_def split: if_splits)
qed (auto intro!: on_tokens_keeps table_ok_filter
      simp: deleteToken_sql_def deleteTokens_sql_def tokens_cleanup_sql_def)

section \<open>Properties that every operation keeps\<close>

text \<open>
  The interface between the operations and the statements: a property \<open>I\<close> of the contents that
  every statement keeps, where a statement that stores a new token stores one that satisfies
  \<open>G\<close>. Every operation, alone or in a sequence, then keeps \<open>I\<close>.
\<close>

locale table_property = engine_property I J
  for I :: "'z tokens_db_scheme \<Rightarrow> bool" and J +
  fixes G :: "string \<Rightarrow> bool"
  assumes insert_keeps: "G token \<Longrightarrow> stmt_keeps I (insertToken_sql token typ single refid es ids data)"
    and update_keeps: "G newt \<Longrightarrow> stmt_keeps I (updateToken_sql newt refid as ids newdata old)"
    and data_keeps: "stmt_keeps I (updateData_sql data token)"
    and delete_keeps: "stmt_keeps I (deleteToken_sql token)"
    and delete_by_keeps: "stmt_keeps I (deleteTokens_sql refid typ)"
    and reset_keeps: "stmt_keeps I (resetIdle_sql token)"
    and cleanup_keeps: "stmt_keeps I tokens_cleanup_sql"

lemmas tokens_ops = tokens_New_def tokens_Delete_def tokens_ResetIdle_def tokens_UpdateData_def
  tokens_Rotate_def tokens_DeleteByTypeRef_def tokens_Cleanup_def

lemma getToken_keeps: "stmt_keeps I (getToken_sql token)"
  by (auto simp: stmt_keeps_def getToken_sql_def)

context table_property
begin

lemma generating_ops_inv:
  assumes "J e" "G (generateNewToken n rnd)"
  shows "J (snd (tokens_New n rnd c args e))"
    and "J (snd (tokens_Rotate n rnd c token args e))"
  using assms
  by (auto simp: tokens_ops EnsureQueryer_QConn Let_def split: sum.splits prod.splits option.splits
      dest: Exec_keeps_fst [OF insert_keeps] Exec_keeps_fst [OF update_keeps])

lemma simple_ops_inv:
  assumes "J e"
  shows "J (snd (tokens_Delete c token e))"
    and "J (snd (tokens_ResetIdle c token e))"
    and "J (snd (tokens_UpdateData c token data e))"
    and "J (snd (tokens_DeleteByTypeRef c typ refid e))"
    and "J (snd (tokens_Cleanup c e))"
  using assms
  by (simp_all add: tokens_ops EnsureQueryer_QConn Exec_keeps data_keeps delete_keeps delete_by_keeps
      reset_keeps cleanup_keeps)

lemma verify_tx_keeps: "fn_keeps J (verify_tx token :: ('a, 'z tokens_db_scheme engine, Token) tx_fn)"
  unfolding fn_keeps_def
proof (intro allI impI)
  fix c :: "'a ctx" and tx and e :: "'z tokens_db_scheme engine"
  assume inv: "J e"
  obtain r e1 where q: "QueryOne (QTx tx) (getToken_sql token) e = (r, e1)" by fastforce
  with QueryOne_keeps [OF getToken_keeps inv, of "QTx tx" token] have i1: "J e1" by simp
  with q simple_ops_inv(1,2) [OF i1, of c token]
  show "J (snd (verify_tx token c tx e))"
    by (auto simp: verify_tx_def split: sum.splits prod.splits if_splits)
qed

lemma Verify_inv:
  assumes "J e"
  shows "J (snd (tokens_Verify (engine_runtime rnd waited) c token vfn e))"
proof -
  obtain r e1 where r: "EnsureTx engine_driver (engine_runtime rnd waited) c (verify_tx token) e = (r, e1)" by fastforce
  from EnsureTx_inv [OF verify_tx_keeps assms, of rnd waited c token] r have "J e1" by simp
  with r show ?thesis by (auto simp: tokens_Verify_def split: outcome.splits sum.splits option.splits)
qed

end

interpretation well_formed: table_property tokens_inv "engine_inv tokens_inv" "\<lambda>_. True"
  by unfold_locales (simp_all add: tokens_stmts_keep)

section \<open>Verification\<close>

text \<open>What a verification does to the table, and the row it returns.\<close>

definition after_verify :: "int \<Rightarrow> token_row \<Rightarrow> token_row list \<Rightarrow> token_row list" where
  "after_verify t r tbl =
     (if tr_single_use r then filter (\<lambda>x. tr_token x \<noteq> tr_token r) tbl
      else if tr_idle r \<noteq> None then
        map (\<lambda>x. if tr_token x = tr_token r \<and> \<not> tr_single_use x then idle_reset t x else x) tbl
      else tbl)"

definition verify_effect :: "string \<Rightarrow> int \<Rightarrow> 'z tokens_db_scheme \<Rightarrow> Token \<Rightarrow> 'z tokens_db_scheme \<Rightarrow> bool" where
  "verify_effect token t d tok d' \<longleftrightarrow>
     (\<exists>r \<in> set (tokens_tokens d). tr_token r = token \<and> row_live t r \<and> tok = token_of_row r
        \<and> d' = d\<lparr>tokens_tokens := after_verify t r (tokens_tokens d)\<rparr>)"

lemma ctx_queryer_tx: "getCtxTx c = Some tx \<Longrightarrow> ctx_queryer c = QTx tx"
  by (simp add: ctx_queryer_def)

lemma getToken_row:
  "getToken_sql token t d = Inr ([tok], d') \<Longrightarrow>
     d' = d \<and> (\<exists>r \<in> set (tokens_tokens d). tr_token r = token \<and> row_live t r \<and> tok = token_of_row r)"
  by (auto simp: getToken_sql_def map_eq_Cons_conv filter_eq_Cons_iff)

lemma verify_tx_spec: "tx_spec (verify_tx token) (verify_effect token)"
  unfolding tx_spec_def
proof (intro allI impI)
  fix c :: "'a ctx" and tx and e e' :: "'z tokens_db_scheme engine" and r
  assume tx: "getCtxTx c = Some tx" and run: "verify_tx token c tx e = (r, e')"
  obtain q e1 where q: "QueryOne (QTx tx) (getToken_sql token) e = (q, e1)" by fastforce
  from QueryOne_run [OF q] obtain q' where "run_stmt (QTx tx) (getToken_sql token) e = (q', e1)" by blast
  note c1 = run_stmt_QTx_confined [OF this]
  note ops = tokens_Delete_def tokens_ResetIdle_def EnsureQueryer_QConn ctx_queryer_tx [OF tx] Exec_def
  show "contents e' = contents e \<and> now e' = now e \<and> (\<forall>u. u \<noteq> tx \<longrightarrow> tx_lookup e' u = tx_lookup e u)
    \<and> (\<forall>x. r = Ret (Inr x) \<longrightarrow>
         (\<exists>d d'. tx_lookup e tx = Some (Active d) \<and> tx_lookup e' tx = Some (Active d') \<and> verify_effect token (now e) d x d'))"
  proof (cases q)
    case (Inl err)
    with run q c1 show ?thesis by (auto simp: verify_tx_def)
  next
    case (Inr tok)
    from QueryOne_ok [OF q [unfolded Inr]] have "run_stmt (QTx tx) (getToken_sql token) e = (Inr [tok], e1)" .
    from run_stmt_QTx_ok [OF this] getToken_row obtain d row where row: "tx_lookup e tx = Some (Active d)"
      "tx_lookup e1 tx = Some (Active d)" "row \<in> set (tokens_tokens d)" "tr_token row = token"
      "row_live (now e) row" "tok = token_of_row row" by blast
    have fin: ?thesis if st: "run_stmt (QTx tx) st e1 = (s, e')" and rr: "r = Ret (map_sum id (\<lambda>_. tok) s)"
      and eff: "st = on_tokens (\<lambda>t tbl. Inr (after_verify t row tbl))" for st s
    proof -
      from run_stmt_QTx_confined [OF st] c1 have
        "contents e' = contents e \<and> now e' = now e \<and> (\<forall>u. u \<noteq> tx \<longrightarrow> tx_lookup e' u = tx_lookup e u)" by simp
      moreover have "\<exists>d'. tx_lookup e' tx = Some (Active d') \<and> verify_effect token (now e) d x d'"
        if "r = Ret (Inr x)" for x
      proof -
        have "s = Inr () \<and> x = tok" using that unfolding rr by (cases s) simp_all
        then have s: "s = Inr ()" "x = tok" by simp_all
        from run_stmt_QTx_ok [OF st [unfolded s(1)]] row(2) c1 obtain d'
          where d': "tx_lookup e' tx = Some (Active d')" "st (now e) d = Inr ((), d')" by auto
        from d'(2) have "d' = d\<lparr>tokens_tokens := after_verify (now e) row (tokens_tokens d)\<rparr>"
          unfolding eff by (simp add: on_tokens_def)
        with d'(1) row(3-6) s(2) show ?thesis unfolding verify_effect_def by blast
      qed
      ultimately show ?thesis using row(1) by blast
    qed
    show ?thesis
    proof (cases "tr_single_use row \<or> tr_idle row \<noteq> None")
      case True
      let ?st = "if tr_single_use row then deleteToken_sql token else resetIdle_sql token"
      obtain s where s: "run_stmt (QTx tx) ?st e1 = (s, e')"
        and "r = Ret (map_sum id (\<lambda>_. tok) s)"
        using run q Inr row(6) True
        by (auto simp: verify_tx_def ops token_of_row_def split: prod.splits sum.splits if_splits)
      then show ?thesis
        by (rule fin) (use True row(4) in \<open>auto simp: deleteToken_sql_def resetIdle_sql_def after_verify_def [abs_def] fun_eq_iff\<close>)
    next
      case False
      with run q Inr row c1 show ?thesis
        by (auto simp: verify_tx_def token_of_row_def verify_effect_def after_verify_def)
    qed
  qed
qed

text \<open>
  C9. A verification that succeeds found a row for exactly that token, not expired and not idle
  for too long at the time of the call; the returned token is that row, the caller's check
  accepted it, and the only change to the visible contents is the consumption of a single-use
  token or the renewal of the idle time of a multi-use token that has one.
\<close>

theorem Verify_sound:
  assumes "tokens_Verify (engine_runtime rnd waited) c token vfn e = (Ret (Inr tok), e')"
  shows "(\<exists>d d'. visible (ctx_queryer c) e = Some d \<and> visible (ctx_queryer c) e' = Some d'
      \<and> verify_effect token (now e) d tok d') \<and> (case vfn of None \<Rightarrow> True | Some f \<Rightarrow> f tok = None)"
proof -
  from assms have "EnsureTx engine_driver (engine_runtime rnd waited) c (verify_tx token) e = (Ret (Inr tok), e')"
    and "case vfn of None \<Rightarrow> True | Some f \<Rightarrow> f tok = None"
    by (auto simp: tokens_Verify_def split: prod.splits outcome.splits sum.splits option.splits)
  with EnsureTx_ok [OF verify_tx_spec] show ?thesis by blast
qed

text \<open>The row that a verification finds.\<close>

definition live_row :: "string \<Rightarrow> int \<Rightarrow> token_row list \<Rightarrow> token_row option" where
  "live_row token t tbl = find (\<lambda>r. tr_token r = token \<and> row_live t r) tbl"

lemma table_ok_filter_token:
  assumes "table_ok tbl"
  shows "filter (\<lambda>r. tr_token r = token \<and> row_live t r) tbl =
    (case live_row token t tbl of None \<Rightarrow> [] | Some r \<Rightarrow> [r])"
proof -
  from assms have "distinct (map tr_token tbl)" by (simp add: table_ok_def)
  then show ?thesis unfolding live_row_def
    by (induction tbl) (auto simp: filter_empty_conv find_Some_iff split: option.splits)
qed

lemma getToken_live:
  "table_ok (tokens_tokens d) \<Longrightarrow> getToken_sql token t d =
     Inr (case live_row token t (tokens_tokens d) of None \<Rightarrow> [] | Some r \<Rightarrow> [token_of_row r], d)"
  by (simp add: getToken_sql_def table_ok_filter_token split: option.splits)

lemma live_rowD: "live_row token t tbl = Some r \<Longrightarrow> r \<in> set tbl \<and> tr_token r = token \<and> row_live t r"
  by (auto simp: live_row_def find_Some_iff)

lemma live_row_None: "live_row token t tbl = None \<longleftrightarrow> (\<forall>r \<in> set tbl. tr_token r = token \<longrightarrow> \<not> row_live t r)"
  by (auto simp: live_row_def find_None_iff)

lemma live_rowI:
  assumes "table_ok tbl" "r \<in> set tbl" "row_live t r"
  shows "live_row (tr_token r) t tbl = Some r"
proof (cases "live_row (tr_token r) t tbl")
  case None
  with assms(2,3) show ?thesis by (auto simp: live_row_None)
next
  case (Some x)
  with live_rowD [OF Some] assms distinct_map_eq [of tr_token tbl x r] show ?thesis
    by (simp add: table_ok_def)
qed

lemma verify_tx_none:
  assumes "faults e = []" "tx_lookup e tx = Some (Active d)" "table_ok (tokens_tokens d)"
    "live_row token (now e) (tokens_tokens d) = None"
  shows "verify_tx token c tx e = (Ret (Inl ErrInvalid), tx_put tx (Some (Active d)) e)"
  using assms by (simp add: verify_tx_def QueryOne_QTx_no_fault [where st = "getToken_sql token", OF assms(1,2) getToken_live [OF assms(3)]])

lemma verify_tx_some:
  assumes "getCtxTx c = Some tx" "faults e = []" "tx_lookup e tx = Some (Active d)"
    "table_ok (tokens_tokens d)" "live_row token (now e) (tokens_tokens d) = Some r"
  obtains e2 where "verify_tx token c tx e = (Ret (Inr (token_of_row r)), e2)" "faults e2 = []"
    "tx_lookup e2 tx = Some (Active (d\<lparr>tokens_tokens := after_verify (now e) r (tokens_tokens d)\<rparr>))"
proof
  let ?e1 = "tx_put tx (Some (Active d)) e"
  let ?d' = "d\<lparr>tokens_tokens := after_verify (now e) r (tokens_tokens d)\<rparr>"
  have e1: "tx_lookup ?e1 tx = Some (Active d)" "faults ?e1 = []" "now ?e1 = now e"
    using assms(2,3) by (simp_all add: tx_lookup_put)
  note q = QueryOne_QTx_no_fault [where st = "getToken_sql token", OF assms(2,3) getToken_live [OF assms(4)]]
  note ops = tokens_Delete_def tokens_ResetIdle_def EnsureQueryer_QConn ctx_queryer_tx [OF assms(1)] Exec_def
    run_stmt_QTx_no_fault [OF e1(2,1)] deleteToken_sql_def resetIdle_sql_def on_tokens_def
  from live_rowD [OF assms(5)] have tok: "tr_token r = token" by simp
  let ?e2 = "if tr_single_use r \<or> tr_idle r \<noteq> None then tx_put tx (Some (Active ?d')) ?e1 else ?e1"
  show "verify_tx token c tx e = (Ret (Inr (token_of_row r)), ?e2)"
    using tok by (simp add: verify_tx_def q assms(5) ops token_of_row_def after_verify_def)
  show "faults ?e2 = []" using assms(2) by simp
  show "tx_lookup ?e2 tx = Some (Active ?d')"
    using e1 by (simp add: tx_lookup_put after_verify_def)
qed

lemma Verify_not_live:
  assumes "faults e = []" "getCtxTx c = None" "tokens_inv (contents e)"
    "live_row token (now e) (tokens_tokens (contents e)) = None"
  obtains e' where "tokens_Verify (engine_runtime rnd waited) c token vfn e = (Ret (Inl (join_err ErrInvalid None)), e')"
    "contents e' = contents e" "faults e' = []"
proof
  let ?e' = "tx_put (next_tx e) None (tx_put (next_tx e) (Some (Active (contents e))) (begun e))"
  have "verify_tx token (setCtxTx c (next_tx e)) (next_tx e) (begun e) =
      (Ret (Inl ErrInvalid), tx_put (next_tx e) (Some (Active (contents e))) (begun e))"
    by (rule verify_tx_none) (use assms in \<open>simp_all add: tokens_inv_def\<close>)
  from EnsureTx_stop [OF assms(2) doTx_no_fault_err [where fn = "verify_tx token" and c = c, OF assms(1) this]] assms
  show "tokens_Verify (engine_runtime rnd waited) c token vfn e = (Ret (Inl (join_err ErrInvalid None)), ?e')"
    by (simp add: tokens_Verify_def tx_lookup_put ErrInvalid_def)
  show "contents ?e' = contents e" "faults ?e' = []" using assms(1) by simp_all
qed

lemma Verify_live:
  assumes "faults e = []" "getCtxTx c = None" "tokens_inv (contents e)"
    "live_row token (now e) (tokens_tokens (contents e)) = Some row"
  obtains e' where "tokens_Verify (engine_runtime rnd waited) c token vfn e =
      (Ret (case vfn of None \<Rightarrow> Inr (token_of_row row)
            | Some f \<Rightarrow> (case f (token_of_row row) of Some err \<Rightarrow> Inl err | None \<Rightarrow> Inr (token_of_row row))), e')"
    "contents e' = (contents e)\<lparr>tokens_tokens := after_verify (now e) row (tokens_tokens (contents e))\<rparr>" "faults e' = []"
proof -
  obtain e2 where e2: "verify_tx token (setCtxTx c (next_tx e)) (next_tx e) (begun e) =
      (Ret (Inr (token_of_row row)), e2)" "faults e2 = []" "tx_lookup e2 (next_tx e) =
      Some (Active ((contents e)\<lparr>tokens_tokens := after_verify (now e) row (tokens_tokens (contents e))\<rparr>))"
    by (rule verify_tx_some [of "setCtxTx c (next_tx e)" "next_tx e" "begun e" "contents e" token row])
      (use assms in \<open>simp_all add: tokens_inv_def\<close>)
  have tx: "EnsureTx engine_driver (engine_runtime rnd waited) c (verify_tx token) e =
      (Ret (Inr (token_of_row row)), (tx_put (next_tx e) None e2)\<lparr>contents := (contents e)
         \<lparr>tokens_tokens := after_verify (now e) row (tokens_tokens (contents e))\<rparr>\<rparr>)"
    by (rule EnsureTx_stop [OF assms(2) doTx_no_fault_ok [where fn = "verify_tx token", OF assms(1) e2(1,3,2)]]) simp
  have "tokens_Verify (engine_runtime rnd waited) c token vfn e =
      (Ret (case vfn of None \<Rightarrow> Inr (token_of_row row)
            | Some f \<Rightarrow> (case f (token_of_row row) of Some err \<Rightarrow> Inl err | None \<Rightarrow> Inr (token_of_row row))),
       (tx_put (next_tx e) None e2)\<lparr>contents := (contents e)
          \<lparr>tokens_tokens := after_verify (now e) row (tokens_tokens (contents e))\<rparr>\<rparr>)"
    by (cases vfn) (simp_all add: tokens_Verify_def tx split: option.split)
  then show ?thesis by (rule that) (simp_all add: e2(2))
qed

text \<open>The same inside a transaction of the caller, which an unknown token ends.\<close>

lemma Verify_not_live_in_tx:
  assumes "faults e = []" "getCtxTx c = Some tx" "tx_lookup e tx = Some (Active d)" "tokens_inv d"
    "live_row token (now e) (tokens_tokens d) = None"
  obtains e' where "tokens_Verify (engine_runtime rnd waited) c token vfn e = (Ret (Inl (join_err ErrInvalid None)), e')"
    "contents e' = contents e" "tx_lookup e' tx = None"
proof
  let ?e1 = "tx_put tx (Some (Active d)) e"
  have "verify_tx token c tx e = (Ret (Inl ErrInvalid), ?e1)"
    by (rule verify_tx_none) (use assms in \<open>simp_all add: tokens_inv_def\<close>)
  then show "tokens_Verify (engine_runtime rnd waited) c token vfn e = (Ret (Inl (join_err ErrInvalid None)), tx_put tx None ?e1)"
    using assms(1-3) by (simp add: tokens_Verify_def EnsureTx_def engine_driver_def engine_Rollback_def tx_lookup_put pop_fault_def)
  show "contents (tx_put tx None ?e1) = contents e" "tx_lookup (tx_put tx None ?e1) tx = None"
    using assms(3) by (simp_all add: tx_lookup_put)
qed

lemma Verify_live_in_tx:
  assumes "faults e = []" "getCtxTx c = Some tx" "tx_lookup e tx = Some (Active d)" "tokens_inv d"
    "live_row token (now e) (tokens_tokens d) = Some row"
  obtains e' where "tokens_Verify (engine_runtime rnd waited) c token vfn e =
      (Ret (case vfn of None \<Rightarrow> Inr (token_of_row row)
            | Some f \<Rightarrow> (case f (token_of_row row) of Some err \<Rightarrow> Inl err | None \<Rightarrow> Inr (token_of_row row))), e')"
    "tx_lookup e' tx = Some (Active (d\<lparr>tokens_tokens := after_verify (now e) row (tokens_tokens d)\<rparr>))"
proof -
  obtain e2 where e2: "verify_tx token c tx e = (Ret (Inr (token_of_row row)), e2)"
    "tx_lookup e2 tx = Some (Active (d\<lparr>tokens_tokens := after_verify (now e) row (tokens_tokens d)\<rparr>))"
    by (rule verify_tx_some [OF assms(2,1,3) _ assms(5)]) (use assms(4) in \<open>simp_all add: tokens_inv_def\<close>)
  then show ?thesis
    using assms(2) by (intro that [of e2]) (auto simp: tokens_Verify_def EnsureTx_def split: option.splits)
qed

text \<open>
  C8. With a working database a verification is decided by the table and the caller's check, on the
  pool and in a transaction of the caller. A token without a live row is the invalid-token error, which changes no
  committed contents, and in a transaction of the caller rolls it back. A token with a live row has its
  effect on what the caller sees, whether the check accepts it or not: the check only decides between that row and
  its error as the result.
\<close>

theorem Verify_exact:
  assumes "faults e = []" "visible (ctx_queryer c) e = Some d" "tokens_inv d"
  shows "case tokens_Verify (engine_runtime rnd waited) c token vfn e of (r, e') \<Rightarrow>
    (case live_row token (now e) (tokens_tokens d) of
       Some row \<Rightarrow>
         r = Ret (case vfn of None \<Rightarrow> Inr (token_of_row row)
                  | Some f \<Rightarrow> (case f (token_of_row row) of Some err \<Rightarrow> Inl err | None \<Rightarrow> Inr (token_of_row row)))
         \<and> visible (ctx_queryer c) e' = Some (d\<lparr>tokens_tokens := after_verify (now e) row (tokens_tokens d)\<rparr>)
     | None \<Rightarrow> (\<exists>err. r = Ret (Inl err) \<and> Is (Some err) (ConstTarget ''invalid token'')) \<and> contents e' = contents e
         \<and> visible (ctx_queryer c) e' = (if getCtxTx c = None then Some d else None))"
proof (cases "getCtxTx c")
  case None
  with assms(2,3) have d: "d = contents e" "tokens_inv (contents e)" by (auto simp: ctx_queryer_def)
  show ?thesis
  proof (cases "live_row token (now e) (tokens_tokens d)")
    case N: None
    then show ?thesis
      by (rule Verify_not_live [OF assms(1) None d(2), folded d(1), of token rnd waited vfn])
        (simp add: N [unfolded d(1)] None d(1) ctx_queryer_def ErrInvalid_def)
  next
    case (Some row)
    then show ?thesis
      by (rule Verify_live [OF assms(1) None d(2), folded d(1), of token row rnd waited vfn])
        (simp add: Some [unfolded d(1)] None d(1) ctx_queryer_def)
  qed
next
  case tx: (Some tx)
  with assms(2) have d: "tx_lookup e tx = Some (Active d)" by (simp add: ctx_queryer_def)
  show ?thesis
  proof (cases "live_row token (now e) (tokens_tokens d)")
    case None
    then show ?thesis
      by (rule Verify_not_live_in_tx [OF assms(1) tx d assms(3), of token rnd waited vfn])
        (simp add: None tx ctx_queryer_def ErrInvalid_def visible_def)
  next
    case (Some row)
    then show ?thesis
      by (rule Verify_live_in_tx [OF assms(1) tx d assms(3), of token row rnd waited vfn])
        (simp add: Some tx ctx_queryer_def)
  qed
qed

text \<open>
  The caller's check is applied after the fact: when it rejects a live token, the
  verification returns its error, but a single-use token is consumed (and an idle time renewed)
  as if it had been accepted.
\<close>

theorem rejected_check_still_consumes:
  assumes "faults e = []" "getCtxTx c = None" "tokens_inv (contents e)"
    and "live_row token (now e) (tokens_tokens (contents e)) = Some row" "f (token_of_row row) = Some err"
  shows "case tokens_Verify (engine_runtime rnd waited) c token (Some f) e of (r, e') \<Rightarrow>
    r = Ret (Inl err) \<and> tokens_tokens (contents e') = after_verify (now e) row (tokens_tokens (contents e))"
  by (rule Verify_live [OF assms(1-4), of rnd waited "Some f"]) (simp add: assms(5))

section \<open>Sequences of operations\<close>

text \<open>
  Any sequence of operations of the package by one caller after another, with time passing and
  faults arriving between them. A caller works on the pool when no transaction is open, or in
  the one open transaction. A step is labelled with the
  context of the call and the token text it generates.
\<close>

definition serial :: "'a ctx \<Rightarrow> 'd engine \<Rightarrow> bool" where
  "serial c e \<longleftrightarrow> (\<forall>t. Some t \<noteq> getCtxTx c \<longrightarrow> tx_lookup e t = None)"

inductive tokens_step :: "'a ctx \<Rightarrow> string list \<Rightarrow> 'z tokens_db_scheme engine \<Rightarrow> 'z tokens_db_scheme engine \<Rightarrow> bool" where
  step_New: "serial c e \<Longrightarrow> tokens_New n rnd c args e = (r, e') \<Longrightarrow> tokens_step c [generateNewToken n rnd] e e'"
| step_Rotate: "serial c e \<Longrightarrow> tokens_Rotate n rnd c old args e = (s, e') \<Longrightarrow> tokens_step c [generateNewToken n rnd] e e'"
| step_Verify: "serial c e \<Longrightarrow> tokens_Verify (engine_runtime rand waited) c token vfn e = (v, e') \<Longrightarrow> tokens_step c [] e e'"
| step_Delete: "serial c e \<Longrightarrow> tokens_Delete c token e = (u, e') \<Longrightarrow> tokens_step c [] e e'"
| step_ResetIdle: "serial c e \<Longrightarrow> tokens_ResetIdle c token e = (u, e') \<Longrightarrow> tokens_step c [] e e'"
| step_UpdateData: "serial c e \<Longrightarrow> tokens_UpdateData c token data e = (u, e') \<Longrightarrow> tokens_step c [] e e'"
| step_DeleteByTypeRef: "serial c e \<Longrightarrow> tokens_DeleteByTypeRef c typ refid e = (u, e') \<Longrightarrow> tokens_step c [] e e'"
| step_Cleanup: "serial c e \<Longrightarrow> tokens_Cleanup c e = (u, e') \<Longrightarrow> tokens_step c [] e e'"
| step_BeginTx: "(\<forall>t. tx_lookup e t = None) \<Longrightarrow> BeginTx engine_driver opts e = (b, e') \<Longrightarrow> tokens_step c [] e e'"
| step_Commit: "Commit engine_driver tx e = (x, e') \<Longrightarrow> tokens_step c [] e e'"
| step_Rollback: "Rollback engine_driver tx e = (x, e') \<Longrightarrow> tokens_step c [] e e'"
| step_time: "now e \<le> t \<Longrightarrow> tokens_step c [] e (e\<lparr>now := t\<rparr>)"
| step_faults: "tokens_step c [] e (e\<lparr>faults := fs, lost_commit := b\<rparr>)"

inductive_cases tokens_stepE: "tokens_step c l e e'"

inductive tokens_run :: "'a ctx list \<Rightarrow> string list \<Rightarrow> 'z tokens_db_scheme engine \<Rightarrow> 'z tokens_db_scheme engine \<Rightarrow> bool" where
  run_refl: "tokens_run [] [] e e"
| run_step: "tokens_run cs l e e1 \<Longrightarrow> tokens_step c l1 e1 e2 \<Longrightarrow> tokens_run (cs @ [c]) (l @ l1) e e2"

context table_property
begin

lemma step_inv: "tokens_step c l e e' \<Longrightarrow> list_all G l \<Longrightarrow> J e \<Longrightarrow> J e'"
  by (erule tokens_stepE)
    (auto simp: env_inv dest: driver_steps, (metis snd_conv generating_ops_inv simple_ops_inv Verify_inv)+)

lemma run_inv: "tokens_run cs l e e' \<Longrightarrow> list_all G l \<Longrightarrow> J e \<Longrightarrow> J e'"
  by (induction rule: tokens_run.induct) (auto intro: step_inv)

end

text \<open>
  C3. The table is well formed at all times: from well-formed contents, every sequence of
  operations of the package, in transactions or not, with any faults, keeps tokens unique, the
  checks of every row, and one single-use token per type and reference.
\<close>

theorem tokens_run_invariant:
  assumes "tokens_run cs l e e'" "engine_inv tokens_inv e"
  shows "engine_inv tokens_inv e'"
  using well_formed.run_inv [OF assms(1) _ assms(2)] by (simp add: list_all_iff)

text \<open>Tokens that are not in the table.\<close>

definition absent :: "string \<Rightarrow> 'z tokens_db_scheme \<Rightarrow> bool" where
  "absent token d \<longleftrightarrow> token \<notin> tr_token ` set (tokens_tokens d)"

lemma absent_stmts:
  "token \<noteq> t0 \<Longrightarrow> stmt_keeps (absent t0) (insertToken_sql token typ single refid es ids data)"
  "newt \<noteq> t0 \<Longrightarrow> stmt_keeps (absent t0) (updateToken_sql newt refid as ids newdata old)"
  "stmt_keeps (absent t0) (updateData_sql data token)"
  "stmt_keeps (absent t0) (deleteToken_sql token)"
  "stmt_keeps (absent t0) (deleteTokens_sql refid typ)"
  "stmt_keeps (absent t0) (resetIdle_sql token)"
  "stmt_keeps (absent t0) tokens_cleanup_sql"
  by (auto simp: stmt_keeps_def absent_def insertToken_sql_def insert_token_def updateToken_sql_def rotate_rows_def
      rotated_def updateData_sql_def deleteToken_sql_def deleteTokens_sql_def resetIdle_sql_def tokens_cleanup_sql_def
      on_tokens_def Let_def split: sum.splits option.splits if_splits)

interpretation absent: table_property "absent t0" "engine_inv (absent t0)" "\<lambda>token. token \<noteq> t0" for t0
  by unfold_locales (simp_all add: absent_stmts)

interpretation absent_in: table_property "absent t0" "tx_inv t (absent t0)" "\<lambda>token. token \<noteq> t0" for t0 t
  by unfold_locales (simp_all add: absent_stmts)

lemma Verify_ok_not_absent:
  assumes "fst (tokens_Verify (engine_runtime rnd waited) c token vfn e) = Ret (Inr tok)"
    and "visible (ctx_queryer c) e = Some d"
  shows "\<not> absent token d"
proof -
  from assms(1) obtain e' where "EnsureTx engine_driver (engine_runtime rnd waited) c (verify_tx token) e = (Ret (Inr tok), e')"
    by (auto simp: tokens_Verify_def split: prod.splits outcome.splits sum.splits option.splits)
  from EnsureTx_ok [OF verify_tx_spec this] assms(2) show ?thesis
    by (auto simp: verify_effect_def absent_def)
qed

lemma Verify_ok_visible:
  assumes "fst (tokens_Verify (engine_runtime rnd waited) c token vfn e) = Ret (Inr tok)"
  obtains d where "visible (ctx_queryer c) e = Some d"
proof -
  from assms obtain e' where "EnsureTx engine_driver (engine_runtime rnd waited) c (verify_tx token) e = (Ret (Inr tok), e')"
    by (auto simp: tokens_Verify_def split: prod.splits outcome.splits sum.splits option.splits)
  from EnsureTx_ok [OF verify_tx_spec this] that show thesis by blast
qed

lemma absent_not_verified:
  "engine_inv (absent token) e \<Longrightarrow> fst (tokens_Verify (engine_runtime rnd waited) c token vfn e) \<noteq> Ret (Inr tok)"
  by (metis Verify_ok_not_absent Verify_ok_visible engine_inv_visible)

lemma absent_run_not_verified:
  assumes "tokens_run cs l e e'" "token \<notin> set l" "engine_inv (absent token) e"
  shows "fst (tokens_Verify (engine_runtime rnd waited) c token vfn e') \<noteq> Ret (Inr tok)"
proof -
  from assms(2) have "list_all (\<lambda>x. x \<noteq> token) l" by (auto simp: list_all_iff)
  from absent_not_verified [OF absent.run_inv [OF assms(1) this assms(3)]] show ?thesis .
qed

lemma Commit_inv_of_tx:
  assumes "tx_inv t I e" "serial c e" "getCtxTx c = Some t" "Commit engine_driver t e = (None, e')"
  shows "engine_inv I e'"
proof -
  from engine_Commit_ok [of t e e'] assms(4) have v: "tx_view e t = Some (Active (snapshot e'))" "tx_view e' = (tx_view e)(t := None)"
    by (simp_all add: engine_driver_def)
  from v(1) assms(1) have "I (contents e')" by (auto simp: snapshot_def tx_inv_def)
  moreover have "tx_lookup e' u = None" for u
  proof -
    have "tx_view e' u = None" using fun_cong [OF v(2), of u] assms(2,3) by (auto simp: serial_def tx_view_def)
    then show ?thesis by (simp add: tx_view_def)
  qed
  ultimately show ?thesis by (simp add: engine_inv_def)
qed

text \<open>
  C1. A single-use token is good for one verification, in every history in which no two callers have transactions open at the
  same time, and in which the random source does not generate that very text again. After a
  verification that succeeded on the pool, no later verification of the text succeeds,
  whatever operations, time and faults come between. After one that succeeded inside a transaction, no later
  verification inside that transaction succeeds, and once the transaction committed, none at all.
\<close>

theorem single_use_verified_once:
  assumes "serial c e"
    and "tokens_Verify (engine_runtime rnd waited) c token vfn e = (Ret (Inr tok), e1)" "tok_SingleUse tok"
    and "tokens_run cs l e1 e2" "token \<notin> set l"
  shows "case getCtxTx c of
      None \<Rightarrow> fst (tokens_Verify (engine_runtime rnd' waited') c' token vfn' e2) \<noteq> Ret (Inr tok')
    | Some tx \<Rightarrow>
        (getCtxTx c' = Some tx \<longrightarrow> fst (tokens_Verify (engine_runtime rnd' waited') c' token vfn' e2) \<noteq> Ret (Inr tok'))
        \<and> (\<forall>e3 cs' l' e4. serial c e2 \<longrightarrow> Commit engine_driver tx e2 = (None, e3) \<longrightarrow> tokens_run cs' l' e3 e4 \<longrightarrow> token \<notin> set l' \<longrightarrow>
             fst (tokens_Verify (engine_runtime rnd' waited') c' token vfn' e4) \<noteq> Ret (Inr tok'))"
proof -
  from assms(2) have tx: "EnsureTx engine_driver (engine_runtime rnd waited) c (verify_tx token) e = (Ret (Inr tok), e1)"
    by (auto simp: tokens_Verify_def split: prod.splits outcome.splits sum.splits option.splits)
  have gone: "absent token d'" if "verify_effect token t d tok d'" for t d d'
    using that assms(3) by (auto simp: verify_effect_def after_verify_def token_of_row_def absent_def)
  show ?thesis
  proof (cases "getCtxTx c")
    case None
    from EnsureTx_own [OF verify_tx_spec None tx] assms(1) None gone
    have "engine_inv (absent token) e1" by (auto simp: serial_def engine_inv_def)
    from absent_run_not_verified [OF assms(4,5) this] None show ?thesis by simp
  next
    case (Some t)
    from EnsureTx_joined [OF verify_tx_spec Some tx] gone obtain d where
      "tx_lookup e1 t = Some (Active d)" "absent token d" by blast
    then have "tx_inv t (absent token) e1" by (auto simp: tx_inv_def tx_lookup_def split: if_splits)
    moreover from assms(5) have "list_all (\<lambda>x. x \<noteq> token) l" by (auto simp: list_all_iff)
    ultimately have inv: "tx_inv t (absent token) e2" using absent_in.run_inv [OF assms(4)] by blast
    have "fst (tokens_Verify (engine_runtime rnd' waited') c' token vfn' e2) \<noteq> Ret (Inr tok')" if "getCtxTx c' = Some t"
      using inv that Verify_ok_visible [of rnd' waited' c' token vfn' e2 tok'] Verify_ok_not_absent [of rnd' waited' c' token vfn' e2 tok']
      by (metis ctx_queryer_tx tx_inv_def visible_simps(2))
    with Some show ?thesis
      by (auto intro: absent_run_not_verified [THEN notE] Commit_inv_of_tx [OF inv _ Some])
  qed
qed

text \<open>
  Callers whose transactions overlap can both verify the same single-use token: each reads the row before the other
  one's deletion is visible, and the deletion of a row that is gone is no error.
\<close>

definition overlapping :: "'z tokens_db_scheme engine \<Rightarrow> string \<Rightarrow> bool" where
  "overlapping e token \<longleftrightarrow>
     (case engine_BeginTx None e of (b1, e1) \<Rightarrow> case engine_BeginTx None e1 of (b2, e2) \<Rightarrow>
      case (b1, b2) of (Inr t1, Inr t2) \<Rightarrow>
        (case verify_tx token (setCtxTx ([] :: unit ctx) t1) t1 e2 of (r1, e3) \<Rightarrow>
         case verify_tx token (setCtxTx ([] :: unit ctx) t2) t2 e3 of (r2, e4) \<Rightarrow>
         case engine_Commit t1 e4 of (x1, e5) \<Rightarrow> case engine_Commit t2 e5 of (x2, e6) \<Rightarrow>
           (case (r1, r2) of (Ret (Inr tok1), Ret (Inr tok2)) \<Rightarrow> tok1 = tok2 \<and> tok_SingleUse tok1 | _ \<Rightarrow> False)
           \<and> x1 = None \<and> x2 = None)
      | _ \<Rightarrow> False)"

section \<open>Creation\<close>

lemma tokens_New_pool:
  assumes "faults e = []" "getCtxTx c = None" "tokens_New n rnd c args e = (Inr (token, data), e1)"
  shows "token = generateNewToken n rnd \<and> faults e1 = [] \<and> now e1 = now e \<and>
    (case ta_Data args of None \<Rightarrow> data = ''null'' | Some j \<Rightarrow> j = Inr data) \<and>
    insertToken_sql token (ta_Type args) (ta_SingleUse args) (ta_RefID args) (duration_seconds (ta_AbsoluteExpiry args))
      (if \<not> ta_SingleUse args \<and> 0 < ta_IdleExpiry args then Some (duration_seconds (ta_IdleExpiry args)) else None)
      data (now e) (contents e) = Inr ((), contents e1)"
  using assms
  by (auto simp: tokens_New_def EnsureQueryer_def Let_def Exec_def run_stmt_QConn_no_fault
      split: option.splits sum.splits prod.splits)

text \<open>The row that an insertion leaves: all of the new row, but not its data on a conflict.\<close>

lemma insert_token_row:
  assumes "table_ok tbl" "insert_token r tbl = Inr tbl'" "tr_idle r = None \<longleftrightarrow> tr_idle_duration r = None"
  obtains x where "x \<in> set tbl'" "tr_token x = tr_token r" "tr_type x = tr_type r" "tr_ref_id x = tr_ref_id r"
    "tr_single_use x = tr_single_use r" "tr_expiry x = tr_expiry r" "tr_idle x = tr_idle r"
    "\<not> list_ex (same_single_use r) tbl \<Longrightarrow> x = r"
    "\<And>old. old \<in> set tbl \<Longrightarrow> same_single_use r old \<Longrightarrow> tr_data x = tr_data old"
proof (cases "list_ex (same_single_use r) tbl")
  case True
  then obtain old where old: "old \<in> set tbl" "same_single_use r old" by (auto simp: list_ex_iff)
  let ?x = "old\<lparr>tr_token := tr_token r, tr_expiry := tr_expiry r\<rparr>"
  from assms(2) True have r: "row_ok r"
    and t': "tbl' = map (\<lambda>x. if same_single_use r x then x\<lparr>tr_token := tr_token r, tr_expiry := tr_expiry r\<rparr> else x) tbl"
    using assms(3) by (auto simp: insert_token_def row_ok_def split: option.splits if_splits)
  from old assms(1) have "row_ok old" by (auto simp: table_ok_def list_all_iff)
  with r old have idle: "tr_idle old = tr_idle r"
    using row_ok_single_no_idle [of old] row_ok_single_no_idle [of r] by (auto simp: same_single_use_def)
  have one: "x = old" if "x \<in> set tbl" "same_single_use r x" for x
    using that old assms(1) distinct_map_eq [of single_key "filter tr_single_use tbl" x old]
    by (auto simp: table_ok_def same_single_use_key)
  from old have "?x \<in> set tbl'" unfolding t' by (auto intro: rev_image_eqI)
  then show thesis
    by (rule that) (use old idle True in \<open>auto simp: same_single_use_def dest: one\<close>)
next
  case False
  with assms(2) have "tbl' = tbl @ [r]"
    by (auto simp: insert_token_def split: option.splits if_splits)
  with False show thesis by (intro that [of r]) (auto simp: list_ex_iff)
qed

lemma after_insert:
  assumes "tokens_inv d" "insertToken_sql token typ single refid es ids data t d = Inr ((), d')"
  obtains x where "x \<in> set (tokens_tokens d')" "tr_token x = token" "tr_type x = typ" "tr_ref_id x = refid"
    "tr_single_use x = single" "tr_expiry x = t + es * pg_second"
    "tr_idle x = map_option (\<lambda>s. t + s * pg_second) ids" "\<not> single \<Longrightarrow> tr_data x = data"
    "\<not> list_ex (\<lambda>r. tr_single_use r \<and> tr_type r = typ \<and> tr_ref_id r = refid) (tokens_tokens d) \<Longrightarrow> tr_data x = data"
    "\<And>old. old \<in> set (tokens_tokens d) \<Longrightarrow> single \<Longrightarrow> tr_single_use old \<Longrightarrow> tr_type old = typ \<Longrightarrow>
       tr_ref_id old = refid \<Longrightarrow> tr_data x = tr_data old"
proof -
  let ?r = "\<lparr>tr_token = token, tr_type = typ, tr_single_use = single, tr_ref_id = refid,
        tr_expiry = t + es * pg_second, tr_idle = map_option (\<lambda>s. t + s * pg_second) ids,
        tr_idle_duration = ids, tr_data = data\<rparr>"
  from assms have ok: "table_ok (tokens_tokens d)" and ins: "insert_token ?r (tokens_tokens d) = Inr (tokens_tokens d')"
    by (auto simp: tokens_inv_def insertToken_sql_def on_tokens_def split: sum.splits)
  obtain x where x: "x \<in> set (tokens_tokens d')" "tr_token x = tr_token ?r" "tr_type x = tr_type ?r"
    "tr_ref_id x = tr_ref_id ?r" "tr_single_use x = tr_single_use ?r" "tr_expiry x = tr_expiry ?r" "tr_idle x = tr_idle ?r"
    "\<not> list_ex (same_single_use ?r) (tokens_tokens d) \<Longrightarrow> x = ?r"
    "\<And>old. old \<in> set (tokens_tokens d) \<Longrightarrow> same_single_use ?r old \<Longrightarrow> tr_data x = tr_data old"
    by (rule insert_token_row [OF ok ins]) auto
  show thesis
    by (rule that [of x]) (use x in \<open>auto simp: same_single_use_def list_ex_iff\<close>)
qed

text \<open>The data that \<open>New\<close> stores: on a conflict of single-use tokens it stays that of the replaced token.\<close>

definition stored_data :: "TokenArgs \<Rightarrow> string \<Rightarrow> token_row list \<Rightarrow> string" where
  "stored_data args data tbl =
     (case find (\<lambda>r. ta_SingleUse args \<and> tr_single_use r \<and> tr_type r = ta_Type args \<and> tr_ref_id r = ta_RefID args) tbl of
        Some old \<Rightarrow> tr_data old | None \<Rightarrow> data)"

text \<open>
  C21. Round trip: a token just created verifies, at any time before its absolute and idle
  expiry, and comes back with the text, type, reference, use and expiry it was created with. It comes back with the data
  that \<open>New\<close> returned, unless it is a single-use token that replaced another one of its type
  and reference: then it comes back with the data of the replaced one.
\<close>

theorem New_then_Verify:
  assumes "faults e = []" "getCtxTx c = None" "tokens_inv (contents e)"
    and "tokens_New n rnd c args e = (Inr (token, data), e1)"
    and "t < now e + duration_seconds (ta_AbsoluteExpiry args) * pg_second"
    and "\<not> ta_SingleUse args \<Longrightarrow> 0 < ta_IdleExpiry args \<Longrightarrow> t < now e + duration_seconds (ta_IdleExpiry args) * pg_second"
  shows "\<exists>tok e2. tokens_Verify (engine_runtime rand waited) c token None (e1\<lparr>now := t\<rparr>) = (Ret (Inr tok), e2)
    \<and> tok_Token tok = token \<and> tok_Type tok = ta_Type args \<and> tok_RefID tok = ta_RefID args
    \<and> tok_SingleUse tok = ta_SingleUse args
    \<and> tok_Expiry tok = now e + duration_seconds (ta_AbsoluteExpiry args) * pg_second
    \<and> tok_Data tok = stored_data args data (tokens_tokens (contents e))"
proof -
  let ?idle = "if \<not> ta_SingleUse args \<and> 0 < ta_IdleExpiry args then Some (duration_seconds (ta_IdleExpiry args)) else None"
  from tokens_New_pool [OF assms(1,2,4)] have f1: "faults e1 = []" and ins:
    "insertToken_sql token (ta_Type args) (ta_SingleUse args) (ta_RefID args) (duration_seconds (ta_AbsoluteExpiry args))
      ?idle data (now e) (contents e) = Inr ((), contents e1)" by blast+
  from ins assms(3) tokens_stmts_keep(1) have inv: "tokens_inv (contents e1)" unfolding stmt_keeps_def by blast
  obtain x where x: "x \<in> set (tokens_tokens (contents e1))" "tr_token x = token" "tr_type x = ta_Type args"
    "tr_ref_id x = ta_RefID args" "tr_single_use x = ta_SingleUse args"
    "tr_expiry x = now e + duration_seconds (ta_AbsoluteExpiry args) * pg_second"
    "tr_idle x = map_option (\<lambda>s. now e + s * pg_second) ?idle"
    and data: "\<not> ta_SingleUse args \<Longrightarrow> tr_data x = data"
    "\<not> list_ex (\<lambda>r. tr_single_use r \<and> tr_type r = ta_Type args \<and> tr_ref_id r = ta_RefID args) (tokens_tokens (contents e))
       \<Longrightarrow> tr_data x = data"
    "\<And>old. old \<in> set (tokens_tokens (contents e)) \<Longrightarrow> ta_SingleUse args \<Longrightarrow> tr_single_use old \<Longrightarrow> tr_type old = ta_Type args \<Longrightarrow>
       tr_ref_id old = ta_RefID args \<Longrightarrow> tr_data x = tr_data old"
    by (rule after_insert [OF assms(3) ins]) blast
  have sd: "tr_data x = stored_data args data (tokens_tokens (contents e))"
    using data unfolding stored_data_def
    by (auto simp: find_None_iff find_Some_iff list_ex_iff split: option.split)
  from x assms(5,6) have "row_live t x" by (auto simp: row_live_def split: if_splits)
  with x(1,2) inv have live: "live_row token t (tokens_tokens (contents e1)) = Some x"
    using live_rowI [of "tokens_tokens (contents e1)" x t] by (simp add: tokens_inv_def)
  show ?thesis
    by (rule Verify_live [of "e1\<lparr>now := t\<rparr>" c token x rand waited None])
      (use f1 assms(2) inv live x sd in \<open>simp_all add: token_of_row_def\<close>)
qed

text \<open>
  A single-use token replaces the previous one of its type and reference: the previous text
  is gone. The stored data however stays that of the previous token, whatever data was given
  and returned: the conflict clause overwrites the token and the expiry only.
\<close>

theorem New_replaces_single_use:
  assumes "faults e = []" "getCtxTx c = None" "tokens_inv (contents e)"
    and "tokens_New n rnd c args e = (Inr (token, data), e1)" "ta_SingleUse args"
    and "old \<in> set (tokens_tokens (contents e))" "tr_single_use old" "tr_type old = ta_Type args"
      "tr_ref_id old = ta_RefID args" "tr_token old \<noteq> token"
  shows "absent (tr_token old) (contents e1) \<and>
    (\<exists>x \<in> set (tokens_tokens (contents e1)). tr_token x = token \<and> tr_data x = tr_data old)"
proof -
  from tokens_New_pool [OF assms(1,2,4)] assms(5) have ins:
    "insertToken_sql token (ta_Type args) True (ta_RefID args) (duration_seconds (ta_AbsoluteExpiry args))
      None data (now e) (contents e) = Inr ((), contents e1)" by auto
  obtain x where "x \<in> set (tokens_tokens (contents e1))" "tr_token x = token" "tr_data x = tr_data old"
    by (rule after_insert [OF assms(3) ins]) (use assms(6-9) in blast)
  moreover have "tr_token y \<noteq> tr_token old" if "y \<in> set (tokens_tokens (contents e1))" for y
  proof -
    let ?same = "\<lambda>x. tr_single_use x \<and> tr_type x = ta_Type args \<and> tr_ref_id x = ta_RefID args"
    from ins assms(6-9) that obtain z where "z \<in> set (tokens_tokens (contents e))"
      "y = (if ?same z then z\<lparr>tr_token := token,
         tr_expiry := now e + duration_seconds (ta_AbsoluteExpiry args) * pg_second\<rparr> else z)"
      by (auto simp: insertToken_sql_def on_tokens_Inr insert_token_def same_single_use_def list_ex_iff
          split: option.splits if_splits)
    with assms(3,6-10) distinct_map_eq [of tr_token "tokens_tokens (contents e)" z old] show ?thesis
      by (auto simp: tokens_inv_def table_ok_def split: if_splits)
  qed
  then have "absent (tr_token old) (contents e1)" by (auto simp: absent_def image_iff) metis
  ultimately show ?thesis by blast
qed

text \<open>
  The sizes that work: with a positive raw size, a creation that violates nothing else
  succeeds exactly when the raw token has between 7 and 75 bytes; the encoded token then has
  between 10 and 100 characters, as the table requires. The default of 32 bytes is inside.
\<close>

theorem New_raw_size:
  assumes "0 < n" "length (rnd (nat n)) = nat n" "faults e = []" "getCtxTx c = None"
    and "0 < pg_length (ta_Type args)" "pg_length (ta_Type args) \<le> 100" "int4_ok (duration_seconds (ta_IdleExpiry args))"
    and "ta_Data args = None" "absent (generateNewToken n rnd) (contents e)"
  shows "(\<exists>r e'. tokens_New n rnd c args e = (Inr r, e')) \<longleftrightarrow> 7 \<le> n \<and> n \<le> 75"
proof -
  define token where "token = generateNewToken n rnd"
  have len: "pg_length token = (8 * nat n + 5) div 6"
    using assms(1,2) by (simp add: token_def generateNewToken_def pg_length_b64_encode)
  define r where "r = \<lparr>tr_token = token, tr_type = ta_Type args, tr_single_use = ta_SingleUse args,
      tr_ref_id = ta_RefID args, tr_expiry = now e + duration_seconds (ta_AbsoluteExpiry args) * pg_second,
      tr_idle = map_option (\<lambda>s. now e + s * pg_second)
        (if \<not> ta_SingleUse args \<and> 0 < ta_IdleExpiry args then Some (duration_seconds (ta_IdleExpiry args)) else None),
      tr_idle_duration = (if \<not> ta_SingleUse args \<and> 0 < ta_IdleExpiry args
        then Some (duration_seconds (ta_IdleExpiry args)) else None), tr_data = ''null''\<rparr>"
  have new: "(\<exists>r e'. tokens_New n rnd c args e = (Inr r, e')) \<longleftrightarrow>
      (\<exists>tbl. insert_token r (tokens_tokens (contents e)) = Inr tbl)"
    using assms(3,4,8) unfolding r_def token_def
    by (simp add: tokens_New_def EnsureQueryer_def Let_def Exec_def run_stmt_QConn_no_fault insertToken_sql_def
        on_tokens_def split: sum.splits)
  have err: "row_error r = None \<longleftrightarrow> 10 \<le> pg_length token \<and> pg_length token \<le> 100"
    using assms(5-7) by (auto simp: r_def row_error_None chk_idle_multi_use_only_def chk_token_length_def chk_type_length_def)
  have "tr_token r \<notin> tr_token ` set (tokens_tokens (contents e))"
    using assms(9) by (simp add: absent_def r_def token_def)
  then have "\<not> list_ex (\<lambda>x. tr_token x = tr_token r) (tokens_tokens (contents e))"
    "\<not> list_ex (\<lambda>x. tr_token x = tr_token r \<and> \<not> same_single_use r x) (tokens_tokens (contents e))"
    by (auto simp: list_ex_iff image_iff)
  then have ins: "(\<exists>tbl. insert_token r (tokens_tokens (contents e)) = Inr tbl) \<longleftrightarrow> row_error r = None"
    by (simp add: insert_token_def split: option.split)
  show ?thesis unfolding new ins err len using assms(1) by linarith
qed

section \<open>Rotation and cleanup\<close>

lemma tokens_Rotate_pool:
  assumes "faults e = []" "getCtxTx c = None" "tokens_Rotate n rnd c old args e = (Inr new, e1)"
  obtains data where "new = generateNewToken n rnd"
    "case ta_Data args of None \<Rightarrow> data = None | Some j \<Rightarrow> \<exists>b. j = Inr b \<and> data = Some b"
    "updateToken_sql new (ta_RefID args) (duration_seconds (ta_AbsoluteExpiry args))
      (if 0 < ta_IdleExpiry args then Some (duration_seconds (ta_IdleExpiry args)) else None) data old
      (now e) (contents e) = Inr ((), contents e1)"
  using assms
  by (auto simp: tokens_Rotate_def EnsureQueryer_def Let_def Exec_def run_stmt_QConn_no_fault
      split: option.splits sum.splits prod.splits)

lemma Rotate_pool_effect:
  assumes "faults e = []" "getCtxTx c = None" "tokens_inv (contents e)"
    and "tokens_Rotate n rnd c old args e = (Inr new, e1)"
    and "list_ex (\<lambda>r. tr_token r = old \<and> \<not> tr_single_use r) (tokens_tokens (contents e)) \<Longrightarrow> new \<noteq> old"
  shows "if list_ex (\<lambda>r. tr_token r = old \<and> \<not> tr_single_use r) (tokens_tokens (contents e))
    then absent old (contents e1) \<and> (\<exists>r \<in> set (tokens_tokens (contents e)). \<exists>x \<in> set (tokens_tokens (contents e1)).
           tr_token r = old \<and> \<not> tr_single_use r \<and> tr_token x = new \<and> tr_type x = tr_type r
           \<and> \<not> tr_single_use x \<and> tr_ref_id x = ta_RefID args
           \<and> tr_idle x = (if 0 < ta_IdleExpiry args then Some (now e + duration_seconds (ta_IdleExpiry args) * pg_second) else None)
           \<and> tr_expiry x = now e + duration_seconds (ta_AbsoluteExpiry args) * pg_second
           \<and> tr_data x = (case ta_Data args of Some (Inr b) \<Rightarrow> b | _ \<Rightarrow> tr_data r)
           \<and> set (tokens_tokens (contents e1)) - {x} = set (tokens_tokens (contents e)) - {r})
    else contents e1 = contents e"
proof -
  obtain data where data: "case ta_Data args of None \<Rightarrow> data = None | Some j \<Rightarrow> \<exists>b. j = Inr b \<and> data = Some b"
    and upd: "updateToken_sql new (ta_RefID args) (duration_seconds (ta_AbsoluteExpiry args))
      (if 0 < ta_IdleExpiry args then Some (duration_seconds (ta_IdleExpiry args)) else None) data old
      (now e) (contents e) = Inr ((), contents e1)"
    by (rule tokens_Rotate_pool [OF assms(1,2,4)])
  define f where "f = rotated new (ta_RefID args) (duration_seconds (ta_AbsoluteExpiry args))
      (if 0 < ta_IdleExpiry args then Some (duration_seconds (ta_IdleExpiry args)) else None) data (now e)"
  let ?hit = "\<lambda>r. tr_token r = old \<and> \<not> tr_single_use r" and ?tbl = "tokens_tokens (contents e)"
  define g where "g = (\<lambda>r. if ?hit r then f r else r)"
  from upd have e1: "contents e1 = (contents e)\<lparr>tokens_tokens := map g ?tbl\<rparr>"
    unfolding updateToken_sql_def on_tokens_Inr f_def [symmetric] g_def by (auto dest: rotate_rows_map)
  have uniq: "z = r" if "z \<in> set ?tbl" "r \<in> set ?tbl" "tr_token z = tr_token r" for z r
    using that assms(3) distinct_map_eq [of tr_token ?tbl z r] by (simp add: tokens_inv_def table_ok_def)
  show ?thesis
  proof (cases "list_ex ?hit ?tbl")
    case True
    then obtain r where r: "r \<in> set ?tbl" "?hit r" by (auto simp: list_ex_iff)
    from assms(5) [OF True] have ne: "new \<noteq> old" .
    have new: "tr_token (f r) = new" by (simp add: f_def rotated_def)
    have x: "f r \<in> set (tokens_tokens (contents e1))" using r e1 by (auto simp: g_def intro: rev_image_eqI)
    have others: "g z = z" if "z \<in> set ?tbl" "z \<noteq> r" for z using that uniq r by (auto simp: g_def)
    have gr: "g r = f r" using r(2) by (simp add: g_def)
    from upd obtain tbl' where rows: "rotate_rows old new f ?tbl = Inr tbl'"
      unfolding updateToken_sql_def on_tokens_Inr f_def [symmetric] by blast
    have "f r \<notin> set ?tbl - {r}"
    proof
      assume z: "f r \<in> set ?tbl - {r}"
      with rotate_rows_fresh [OF rows r(1) _ _ _ new] r(2) have "tr_token (f r) = old" by simp
      with new ne show False by simp
    qed
    moreover have "g ` set ?tbl = insert (f r) (set ?tbl - {r})"
    proof -
      have "g ` (set ?tbl - {r}) = (\<lambda>z. z) ` (set ?tbl - {r})" by (rule image_cong) (use others in auto)
      then have "g ` insert r (set ?tbl - {r}) = insert (f r) (set ?tbl - {r})" unfolding image_insert gr by simp
      with r(1) show ?thesis by (simp only: insert_Diff)
    qed
    ultimately have "g ` set ?tbl - {f r} = set ?tbl - {r}" by simp
    have "tr_token (g z) \<noteq> old" if "z \<in> set ?tbl" for z
    proof (cases "z = r")
      case True
      with gr new ne show ?thesis by simp
    next
      case False
      with others [OF that] uniq [OF that r(1)] r(2) show ?thesis by auto
    qed
    then have "absent old (contents e1)" by (auto simp: absent_def e1)
    moreover note \<open>g ` set ?tbl - {f r} = set ?tbl - {r}\<close>
    moreover have "tr_token (f r) = new \<and> tr_type (f r) = tr_type r \<and> tr_single_use (f r) = tr_single_use r
           \<and> tr_ref_id (f r) = ta_RefID args
           \<and> tr_idle (f r) = (if 0 < ta_IdleExpiry args then Some (now e + duration_seconds (ta_IdleExpiry args) * pg_second) else None)
           \<and> tr_expiry (f r) = now e + duration_seconds (ta_AbsoluteExpiry args) * pg_second
           \<and> tr_data (f r) = (case ta_Data args of Some (Inr b) \<Rightarrow> b | _ \<Rightarrow> tr_data r)"
      using data by (auto simp: f_def rotated_def split: option.splits)
    ultimately show ?thesis using r x e1 unfolding if_P [OF True]
      by (intro conjI bexI [of _ r] bexI [of _ "f r"]) simp_all
  next
    case False
    then have "map g ?tbl = ?tbl" by (intro map_idI) (auto simp: list_ex_iff g_def)
    with False e1 show ?thesis by simp
  qed
qed

lemma Rotate_pool_ok:
  assumes "faults e = []" "getCtxTx c = None" "tokens_inv (contents e)" "\<And>err. ta_Data args \<noteq> Some (Inl err)"
    and "list_ex (\<lambda>r. tr_token r = old \<and> \<not> tr_single_use r) (tokens_tokens (contents e)) \<Longrightarrow>
      absent (generateNewToken n rnd) (contents e) \<and> 10 \<le> pg_length (generateNewToken n rnd)
      \<and> pg_length (generateNewToken n rnd) \<le> 100 \<and> int4_ok (duration_seconds (ta_IdleExpiry args))"
  obtains e1 where "tokens_Rotate n rnd c old args e = (Inr (generateNewToken n rnd), e1)"
proof -
  define new where "new = generateNewToken n rnd"
  obtain data where data: "(case ta_Data args of None \<Rightarrow> Inr None | Some (Inl err) \<Rightarrow> Inl err | Some (Inr b) \<Rightarrow> Inr (Some b)) = Inr data"
    using assms(4) by (cases "ta_Data args") (simp_all add: sum.case_eq_if, metis obj_sumE sum.disc(2) sum.collapse(2) sum.sel(2))
  define f where "f = rotated new (ta_RefID args) (duration_seconds (ta_AbsoluteExpiry args))
      (if 0 < ta_IdleExpiry args then Some (duration_seconds (ta_IdleExpiry args)) else None) data (now e)"
  let ?hit = "\<lambda>r. tr_token r = old \<and> \<not> tr_single_use r" and ?tbl = "tokens_tokens (contents e)"
  have known: "absent new (contents e) \<and> 10 \<le> pg_length new \<and> pg_length new \<le> 100 \<and> int4_ok (duration_seconds (ta_IdleExpiry args))"
    if "list_ex ?hit ?tbl" using assms(5) [OF that] by (simp add: new_def)
  have "row_error (f r) = None" if "r \<in> set ?tbl" "?hit r" for r
  proof -
    from that have "list_ex ?hit ?tbl" by (auto simp: list_ex_iff)
    moreover have "row_ok r" using assms(3) that(1) by (auto simp: tokens_inv_def table_ok_def list_all_iff)
    ultimately show ?thesis using known that(2) by (auto simp: row_checks f_def rotated_def)
  qed
  then have "find_map (\<lambda>r. if ?hit r then row_error (f r) else None) ?tbl = None"
    by (simp add: find_map_None_iff)
  moreover have "\<not> (list_ex ?hit ?tbl \<and> list_ex (\<lambda>r. \<not> ?hit r \<and> tr_token r = new) ?tbl)"
    using known by (auto simp: list_ex_iff absent_def)
  ultimately have "rotate_rows old new f ?tbl = Inr (map (\<lambda>r. if ?hit r then f r else r) ?tbl)"
    by (simp add: rotate_rows_def Let_def)
  then have "\<exists>e1. tokens_Rotate n rnd c old args e = (Inr new, e1)"
    using assms(1,2) data
    by (simp add: tokens_Rotate_def EnsureQueryer_def Let_def Exec_def run_stmt_QConn_no_fault updateToken_sql_def
        on_tokens_def new_def [symmetric] f_def [symmetric])
  with that show thesis by (auto simp: new_def)
qed

text \<open>
  C22. A rotation on the pool of a working database returns the text it generated, whether it found the old token or
  not, provided that its data can be marshaled and, when it finds the old token, that the new text has an allowed length and is
  not in use, and that the idle time fits its column. If the old token is a multi-use token, its row gets the new text: the old text is gone, the type is kept, reference,
  expiry and idle time come from the arguments, the data only when some is given, and all other
  rows stay as they are. If it is unknown or a single-use token nothing changes, so that the returned text is stored only if it was
  before.
\<close>

theorem Rotate_effect:
  assumes "faults e = []" "getCtxTx c = None" "tokens_inv (contents e)" "\<And>err. ta_Data args \<noteq> Some (Inl err)"
    and "new = generateNewToken n rnd"
    and "list_ex (\<lambda>r. tr_token r = old \<and> \<not> tr_single_use r) (tokens_tokens (contents e)) \<Longrightarrow>
      absent new (contents e) \<and> 10 \<le> pg_length new \<and> pg_length new \<le> 100 \<and> int4_ok (duration_seconds (ta_IdleExpiry args))"
  shows "\<exists>e1. tokens_Rotate n rnd c old args e = (Inr new, e1) \<and>
   (if list_ex (\<lambda>r. tr_token r = old \<and> \<not> tr_single_use r) (tokens_tokens (contents e))
    then absent old (contents e1) \<and> (\<exists>r \<in> set (tokens_tokens (contents e)). \<exists>x \<in> set (tokens_tokens (contents e1)).
           tr_token r = old \<and> \<not> tr_single_use r \<and> tr_token x = new \<and> tr_type x = tr_type r
           \<and> \<not> tr_single_use x \<and> tr_ref_id x = ta_RefID args
           \<and> tr_idle x = (if 0 < ta_IdleExpiry args then Some (now e + duration_seconds (ta_IdleExpiry args) * pg_second) else None)
           \<and> tr_expiry x = now e + duration_seconds (ta_AbsoluteExpiry args) * pg_second
           \<and> tr_data x = (case ta_Data args of Some (Inr b) \<Rightarrow> b | _ \<Rightarrow> tr_data r)
           \<and> set (tokens_tokens (contents e1)) - {x} = set (tokens_tokens (contents e)) - {r})
    else contents e1 = contents e)"
proof -
  obtain e1 where run: "tokens_Rotate n rnd c old args e = (Inr new, e1)"
    using Rotate_pool_ok [OF assms(1-4), of old n rnd] assms(5,6) by blast
  have "new \<noteq> old" if "list_ex (\<lambda>r. tr_token r = old \<and> \<not> tr_single_use r) (tokens_tokens (contents e))"
    using assms(6) [OF that] that by (auto simp: absent_def list_ex_iff)
  from Rotate_pool_effect [OF assms(1-3) run this] run show ?thesis by (intro exI [of _ e1] conjI)
qed

text \<open>
  Cleanup is invisible to verification: a cleanup that succeeds changes the outcome of no
  verification now or later, and leaves no row that has expired.
\<close>

theorem Cleanup_invisible:
  assumes "tokens_Cleanup c e = (Inr u, e')" "visible (ctx_queryer c) e = Some d"
  shows "\<exists>d'. visible (ctx_queryer c) e' = Some d'
    \<and> (\<forall>token t. now e \<le> t \<longrightarrow> live_row token t (tokens_tokens d') = live_row token t (tokens_tokens d))
    \<and> (\<forall>r \<in> set (tokens_tokens d'). now e \<le> tr_expiry r)"
proof -
  from assms run_stmt_visible [of "ctx_queryer c" tokens_cleanup_sql e u e'] obtain d'
    where d': "visible (ctx_queryer c) e' = Some d'" "tokens_cleanup_sql (now e) d = Inr (u, d')"
    by (auto simp: tokens_Cleanup_def EnsureQueryer_QConn Exec_def)
  then have t': "tokens_tokens d' = filter (\<lambda>r. \<not> tr_expiry r < now e) (tokens_tokens d)"
    by (auto simp: tokens_cleanup_sql_def on_tokens_def)
  have "live_row token t (filter (\<lambda>r. \<not> tr_expiry r < now e) tbl) = live_row token t tbl" if "now e \<le> t" for token t tbl
    using that by (induction tbl) (auto simp: live_row_def row_live_def)
  with d'(1) t' show ?thesis by auto
qed

text \<open>Deletions on the pool of a working database.\<close>

lemma tokens_Delete_pool:
  "faults e = [] \<Longrightarrow> getCtxTx c = None \<Longrightarrow> tokens_Delete c token e =
     (Inr (), e\<lparr>contents := (contents e)\<lparr>tokens_tokens := filter (\<lambda>r. tr_token r \<noteq> token) (tokens_tokens (contents e))\<rparr>\<rparr>)"
  by (simp add: tokens_Delete_def EnsureQueryer_def Exec_def run_stmt_QConn_no_fault deleteToken_sql_def on_tokens_def)

lemma tokens_DeleteByTypeRef_pool:
  "faults e = [] \<Longrightarrow> getCtxTx c = None \<Longrightarrow> tokens_DeleteByTypeRef c typ refid e =
     (Inr (), e\<lparr>contents := (contents e)\<lparr>tokens_tokens :=
        filter (\<lambda>r. \<not> (tr_ref_id r = refid \<and> tr_type r = typ)) (tokens_tokens (contents e))\<rparr>\<rparr>)"
  by (simp add: tokens_DeleteByTypeRef_def EnsureQueryer_def Exec_def run_stmt_QConn_no_fault deleteTokens_sql_def on_tokens_def)

section \<open>Concrete runs\<close>

text \<open>A table with one live single-use and one live multi-use token, and the runs on it.\<close>

definition reset_row :: token_row where
  "reset_row = \<lparr>tr_token = ''reset-token'', tr_type = ''reset'', tr_single_use = True, tr_ref_id = 0,
     tr_expiry = 1000, tr_idle = None, tr_idle_duration = None, tr_data = ''1''\<rparr>"

definition session_row :: token_row where
  "session_row = \<lparr>tr_token = ''session-token'', tr_type = ''session'', tr_single_use = False, tr_ref_id = 0,
     tr_expiry = 1000, tr_idle = Some 50, tr_idle_duration = Some 60, tr_data = ''2''\<rparr>"

definition sample_tokens :: "tokens_db engine" where
  "sample_tokens = \<lparr>contents = \<lparr>tokens_tokens = [reset_row, session_row]\<rparr>, txs = [], now = 5,
     faults = [], lost_commit = False\<rparr>"

definition sample_args :: "bool \<Rightarrow> TokenArgs" where
  "sample_args single = \<lparr>ta_Type = ''reset'', ta_RefID = 0, ta_SingleUse = single,
     ta_AbsoluteExpiry = 3600 * Second, ta_IdleExpiry = 60 * Second, ta_Data = Some (Inr ''7'')\<rparr>"

definition sample_rnd :: "nat \<Rightarrow> string" where
  "sample_rnd n = replicate n (CHR 0x00)"

abbreviation sample_verify where
  "sample_verify token vfn \<equiv> tokens_Verify (engine_runtime (\<lambda>_. 0) None) ([] :: unit ctx) token vfn sample_tokens"

lemma sample_runs:
  "fst (sample_verify ''reset-token'' None) = Ret (Inr (token_of_row reset_row))"
  "fst (sample_verify ''session-token'' None) = Ret (Inr (token_of_row session_row))"
  "fst (tokens_New 9 sample_rnd ([] :: unit ctx) (sample_args True) sample_tokens) = Inr (''AAAAAAAAAAAA'', ''7'')"
  "fst (tokens_Rotate 9 sample_rnd ([] :: unit ctx) ''session-token'' (sample_args False) sample_tokens) = Inr ''AAAAAAAAAAAA''"
  "fst (tokens_Cleanup ([] :: unit ctx) sample_tokens) = Inr ()"
  by code_simp+

lemma sample_tokens_simps [simp]:
  "faults sample_tokens = []" "now sample_tokens = 5" "tokens_inv (contents sample_tokens)"
  "tx_lookup sample_tokens t = None" "getCtxTx ([] :: unit ctx) = None"
  "live_row ''reset-token'' 5 (tokens_tokens (contents sample_tokens)) = Some reset_row"
  by (simp_all add: sample_tokens_def tokens_inv_def table_ok_def row_checks reset_row_def session_row_def
      single_key_def int4_ok_def tx_lookup_def getCtxTx_def ctx_Value_def live_row_def row_live_def
      pg_length_def continues_char_def)

lemma sample_rows [simp]:
  "after_verify 5 reset_row (tokens_tokens (contents sample_tokens)) = [session_row]"
  "reset_row \<in> set (tokens_tokens (contents sample_tokens))" "tr_single_use reset_row"
  "tr_type reset_row = ''reset''" "tr_ref_id reset_row = 0" "tr_token reset_row = ''reset-token''"
  "ta_Type (sample_args b) = ''reset''" "ta_RefID (sample_args b) = 0" "ta_SingleUse (sample_args b) = b"
  by (simp_all add: sample_args_def sample_tokens_def reset_row_def session_row_def after_verify_def)

text \<open>On the sample table, two overlapping transactions both verify the single-use token and both commit.\<close>

theorem overlapping_verifications_succeed: "overlapping sample_tokens ''reset-token''"
  by code_simp

theorem Verify_sound_witness:
  "\<exists>d d'. visible QConn sample_tokens = Some d \<and> visible QConn (snd (sample_verify ''reset-token'' None)) = Some d'
     \<and> verify_effect ''reset-token'' 5 d (token_of_row reset_row) d'"
  using Verify_sound [of "\<lambda>_. 0" None "[] :: unit ctx" "''reset-token''" None sample_tokens "token_of_row reset_row"
      "snd (sample_verify ''reset-token'' None)"] sample_runs(1)
  by (simp add: prod_eq_iff ctx_queryer_def)

theorem Verify_exact_witness:
  "case sample_verify ''reset-token'' (Some (MustMatchType ''session'')) of (r, e') \<Rightarrow> r = Ret (Inl ErrInvalid)
     \<and> visible QConn e' = Some ((contents sample_tokens)\<lparr>tokens_tokens := [session_row]\<rparr>)"
  using Verify_exact [where e = sample_tokens and c = "[] :: unit ctx" and token = "''reset-token''"
      and d = "contents sample_tokens" and rnd = "\<lambda>_. 0" and waited = None and vfn = "Some (MustMatchType ''session'')"]
  by (simp add: ctx_queryer_def MustMatchType_def token_of_row_def split: prod.splits)

theorem rejected_check_still_consumes_witness:
  "case sample_verify ''reset-token'' (Some (MustMatchType ''session'')) of (r, e') \<Rightarrow>
     r = Ret (Inl ErrInvalid) \<and> tokens_tokens (contents e') = [session_row]"
  using rejected_check_still_consumes [of sample_tokens "[] :: unit ctx" "''reset-token''" reset_row
      "MustMatchType ''session''" ErrInvalid "\<lambda>_. 0" None]
  by (simp add: MustMatchType_def token_of_row_def)

lemma sample_engine_inv: "engine_inv tokens_inv sample_tokens"
  by (simp add: engine_inv_def)

lemma sample_serial: "serial ([] :: unit ctx) sample_tokens"
  by (simp add: serial_def)

lemma sample_run: "tokens_run [[] :: unit ctx] [] sample_tokens (snd (sample_verify ''reset-token'' None))"
proof -
  have "tokens_step ([] :: unit ctx) [] sample_tokens (snd (sample_verify ''reset-token'' None))"
    by (rule step_Verify [OF sample_serial prod.collapse [symmetric]])
  from run_step [OF run_refl this] show ?thesis by simp
qed

theorem tokens_run_invariant_witness:
  "engine_inv tokens_inv (snd (sample_verify ''reset-token'' None))"
  using tokens_run_invariant [OF sample_run sample_engine_inv] .

theorem single_use_verified_once_witness:
  "fst (tokens_Verify (engine_runtime (\<lambda>_. 0) None) ([] :: unit ctx) ''reset-token'' None
      ((snd (sample_verify ''reset-token'' None))\<lparr>now := 6\<rparr>)) \<noteq> Ret (Inr (token_of_row reset_row))"
proof -
  let ?e1 = "snd (sample_verify ''reset-token'' None)"
  have "now ?e1 = 5" by code_simp
  then have "tokens_step ([] :: unit ctx) [] ?e1 (?e1\<lparr>now := 6\<rparr>)" by (intro step_time) simp
  from run_step [OF run_refl this] have run: "tokens_run [[] :: unit ctx] [] ?e1 (?e1\<lparr>now := 6\<rparr>)" by simp
  have v: "sample_verify ''reset-token'' None = (Ret (Inr (token_of_row reset_row)), ?e1)"
    using sample_runs(1) by (simp add: prod_eq_iff)
  show ?thesis
    using single_use_verified_once [OF sample_serial v _ run, of "\<lambda>_. 0" None "[] :: unit ctx" None "token_of_row reset_row"]
    by (simp add: token_of_row_def reset_row_def)
qed

theorem New_then_Verify_witness:
  "\<exists>tok e2. tokens_Verify (engine_runtime (\<lambda>_. 0) None) ([] :: unit ctx) ''AAAAAAAAAAAA'' None
      ((snd (tokens_New 9 sample_rnd ([] :: unit ctx) (sample_args True) sample_tokens))\<lparr>now := 6\<rparr>) = (Ret (Inr tok), e2)
      \<and> tok_Type tok = ''reset''"
proof -
  let ?e1 = "snd (tokens_New 9 sample_rnd ([] :: unit ctx) (sample_args True) sample_tokens)"
  have new: "tokens_New 9 sample_rnd ([] :: unit ctx) (sample_args True) sample_tokens = (Inr (''AAAAAAAAAAAA'', ''7''), ?e1)"
    using sample_runs(3) by (simp add: prod_eq_iff)
  have "(6 :: int) < 5 + duration_seconds (ta_AbsoluteExpiry (sample_args True)) * pg_second" by code_simp
  with New_then_Verify [OF _ _ _ new, where t = 6 and rand = "\<lambda>_. 0" and waited = None] show ?thesis
    by (auto simp: sample_args_def)
qed

theorem New_replaces_single_use_witness:
  "absent ''reset-token'' (contents (snd (tokens_New 9 sample_rnd ([] :: unit ctx) (sample_args True) sample_tokens)))"
proof -
  let ?e1 = "snd (tokens_New 9 sample_rnd ([] :: unit ctx) (sample_args True) sample_tokens)"
  have new: "tokens_New 9 sample_rnd ([] :: unit ctx) (sample_args True) sample_tokens = (Inr (''AAAAAAAAAAAA'', ''7''), ?e1)"
    using sample_runs(3) by (simp add: prod_eq_iff)
  from New_replaces_single_use [OF _ _ _ new, of reset_row] show ?thesis by simp
qed

theorem New_raw_size_witness:
  "\<exists>r e'. tokens_New 75 sample_rnd ([] :: unit ctx) ((sample_args True)\<lparr>ta_Data := None\<rparr>) sample_tokens = (Inr r, e')"
proof -
  have "absent (generateNewToken 75 sample_rnd) (contents sample_tokens)"
    "int4_ok (duration_seconds (ta_IdleExpiry ((sample_args True)\<lparr>ta_Data := None\<rparr>)))" by code_simp+
  then show ?thesis
    using New_raw_size [of 75 sample_rnd sample_tokens "[] :: unit ctx" "(sample_args True)\<lparr>ta_Data := None\<rparr>"]
    by (simp add: sample_rnd_def sample_args_def pg_length_def continues_char_def)
qed

theorem Rotate_effect_witness:
  "fst (tokens_Rotate 9 sample_rnd ([] :: unit ctx) ''session-token'' (sample_args False) sample_tokens) = Inr ''AAAAAAAAAAAA''
   \<and> absent ''session-token'' (contents (snd (tokens_Rotate 9 sample_rnd ([] :: unit ctx) ''session-token'' (sample_args False) sample_tokens)))"
proof -
  have hit: "list_ex (\<lambda>r. tr_token r = ''session-token'' \<and> \<not> tr_single_use r) (tokens_tokens (contents sample_tokens))"
    "''AAAAAAAAAAAA'' = generateNewToken 9 sample_rnd"
    "absent ''AAAAAAAAAAAA'' (contents sample_tokens) \<and> 10 \<le> pg_length ''AAAAAAAAAAAA''
      \<and> pg_length ''AAAAAAAAAAAA'' \<le> 100 \<and> int4_ok (duration_seconds (ta_IdleExpiry (sample_args False)))"
    by code_simp+
  have "ta_Data (sample_args False) \<noteq> Some (Inl err)" for err by (simp add: sample_args_def)
  from Rotate_effect [OF _ _ _ this hit(2) hit(3), where c = "[] :: unit ctx" and old = "''session-token''"]
  have "\<exists>e1. tokens_Rotate 9 sample_rnd ([] :: unit ctx) ''session-token'' (sample_args False) sample_tokens
      = (Inr ''AAAAAAAAAAAA'', e1) \<and> absent ''session-token'' (contents e1)"
    unfolding if_P [OF hit(1)] using sample_tokens_simps(1,3,5) by blast
  then show ?thesis by (metis fst_conv snd_conv)
qed

theorem Cleanup_invisible_witness:
  "\<exists>d'. visible QConn (snd (tokens_Cleanup ([] :: unit ctx) sample_tokens)) = Some d'
    \<and> live_row ''session-token'' 7 (tokens_tokens d') = Some session_row"
proof -
  have "tokens_Cleanup ([] :: unit ctx) sample_tokens = (Inr (), snd (tokens_Cleanup ([] :: unit ctx) sample_tokens))"
    using sample_runs(5) by (simp add: prod_eq_iff)
  moreover have "live_row ''session-token'' 7 (tokens_tokens (contents sample_tokens)) = Some session_row" by code_simp
  ultimately show ?thesis
    using Cleanup_invisible [of "[] :: unit ctx" sample_tokens "()"] by (fastforce simp: ctx_queryer_def)
qed

end
