(* ===== verification/Accounts.thy ===== *)
theory Accounts
  imports Tokens
begin

text \<open>
  Package \<^verbatim>\<open>accounts\<close> (\<^verbatim>\<open>src/accounts/accounts.go\<close>) over the tables of
  \<^verbatim>\<open>src/accounts/migrations\<close>: accounts, groups and the membership of accounts in groups. Each SQL
  statement is a function on the tables, with their constraints; each Go function is one
  definition. Identifiers are made by the server function \<^verbatim>\<open>uuidv7\<close>, a parameter. A Go slice of
  group names is \<open>None\<close> when it is nil, which the drivers send as NULL. Columns that are never
  read (the identifiers and times of groups and members) are left out, and names are ordered by
  the C collation.
\<close>

section \<open>The tables\<close>

record account_row =
  ar_id :: uuid
  ar_email :: string
  ar_password :: string
  ar_verified :: "int option"
  ar_created :: int

record group_row =
  gr_id :: uuid
  gr_name :: string

record accounts_db = tokens_db +
  accounts_accounts :: "account_row list"
  accounts_groups :: "group_row list"
  accounts_members :: "(uuid \<times> uuid) list" \<comment> \<open>account and group\<close>

definition chk_email_length :: "string \<Rightarrow> bool" where
  "chk_email_length email \<longleftrightarrow> 3 \<le> pg_length email \<and> pg_length email \<le> 254"

definition chk_password_length :: "string \<Rightarrow> bool" where
  "chk_password_length pwd \<longleftrightarrow> pg_length pwd \<le> 1024"

definition chk_name_length :: "string \<Rightarrow> bool" where
  "chk_name_length name \<longleftrightarrow> 2 \<le> pg_length name \<and> pg_length name \<le> 128"

section \<open>Statements\<close>

record Account =
  acct_ID :: uuid
  acct_Email :: string
  acct_Password :: string
  acct_Verified :: "int option"
  acct_Created :: int
  acct_Groups :: "string list"

text \<open>The names of the groups of an account; the order of \<^verbatim>\<open>array_agg\<close> is not specified.\<close>

definition groups_of :: "'z accounts_db_scheme \<Rightarrow> uuid \<Rightarrow> string list" where
  "groups_of d aid =
     concat (map (\<lambda>(a, gid). if a = aid then map gr_name (filter (\<lambda>g. gr_id g = gid) (accounts_groups d)) else [])
       (accounts_members d))"

definition account_of :: "'z accounts_db_scheme \<Rightarrow> account_row \<Rightarrow> Account" where
  "account_of d a =
     \<lparr>acct_ID = ar_id a, acct_Email = ar_email a, acct_Password = ar_password a,
      acct_Verified = ar_verified a, acct_Created = ar_created a, acct_Groups = groups_of d (ar_id a)\<rparr>"

definition selectAccount_sql :: "(account_row \<Rightarrow> bool) \<Rightarrow> ('z accounts_db_scheme, Account list) stmt" where
  "selectAccount_sql cond t d = Inr (map (account_of d) (filter cond (accounts_accounts d)), d)"

definition insertAccount_sql :: "uuid \<Rightarrow> string \<Rightarrow> string \<Rightarrow> ('z accounts_db_scheme, uuid list) stmt" where
  "insertAccount_sql newid email pwd t d =
     (if \<not> chk_email_length email then Inl (pg_fail CheckViolation ''accounts_accounts'' ''chk_email_length'')
      else if \<not> chk_password_length pwd then Inl (pg_fail CheckViolation ''accounts_accounts'' ''chk_password_length'')
      else if newid \<in> ar_id ` set (accounts_accounts d)
        then Inl (pg_fail UniqueViolation ''accounts_accounts'' ''accounts_accounts_pkey'')
      else if email \<in> ar_email ` set (accounts_accounts d)
        then Inl (pg_fail UniqueViolation ''accounts_accounts'' ''uidx_accounts_email'')
      else Inr ([newid], d\<lparr>accounts_accounts := accounts_accounts d @
             [\<lparr>ar_id = newid, ar_email = email, ar_password = pwd, ar_verified = None, ar_created = t\<rparr>]\<rparr>))"

definition deleteAccount_sql :: "uuid \<Rightarrow> ('z accounts_db_scheme, unit) stmt" where
  "deleteAccount_sql aid t d =
     Inr ((), d\<lparr>accounts_accounts := filter (\<lambda>a. ar_id a \<noteq> aid) (accounts_accounts d),
                accounts_members := filter (\<lambda>(a, g). a \<noteq> aid) (accounts_members d)\<rparr>)"

text \<open>
  The rows of an insertion of groups, one after the other: the check comes first, a known name
  is skipped. \<open>newids\<close> numbers the calls of \<^verbatim>\<open>uuidv7\<close>, one per row.
\<close>

fun insert_groups :: "(nat \<Rightarrow> uuid) \<Rightarrow> nat \<Rightarrow> string list \<Rightarrow> group_row list \<Rightarrow> group_row list res" where
  "insert_groups newids n [] tbl = Inr tbl"
| "insert_groups newids n (name # names) tbl =
     (if \<not> chk_name_length name then Inl (pg_fail CheckViolation ''accounts_groups'' ''chk_name_length'')
      else if name \<in> gr_name ` set tbl then insert_groups newids (Suc n) names tbl
      else if newids n \<in> gr_id ` set tbl
        then Inl (pg_fail UniqueViolation ''accounts_groups'' ''accounts_groups_pkey'')
      else insert_groups newids (Suc n) names (tbl @ [\<lparr>gr_id = newids n, gr_name = name\<rparr>]))"

definition insertGroups_sql :: "(nat \<Rightarrow> uuid) \<Rightarrow> string list option \<Rightarrow> ('z accounts_db_scheme, unit) stmt" where
  "insertGroups_sql newids groups t d =
     (case insert_groups newids 0 (case groups of None \<Rightarrow> [] | Some gs \<Rightarrow> gs) (accounts_groups d) of
        Inl e \<Rightarrow> Inl e
      | Inr tbl \<Rightarrow> Inr ((), d\<lparr>accounts_groups := tbl\<rparr>))"

text \<open>\<^verbatim>\<open>x = ANY(array)\<close> and \<^verbatim>\<open>x != ALL(array)\<close> as conditions: a NULL array makes both fail.\<close>

fun eq_ANY :: "string \<Rightarrow> string list option \<Rightarrow> bool" where
  "eq_ANY x None = False"
| "eq_ANY x (Some xs) = (x \<in> set xs)"

fun ne_ALL :: "string \<Rightarrow> string list option \<Rightarrow> bool" where
  "ne_ALL x None = False"
| "ne_ALL x (Some xs) = (x \<notin> set xs)"

definition deleteGroups_sql :: "string list option \<Rightarrow> ('z accounts_db_scheme, unit) stmt" where
  "deleteGroups_sql groups t d =
     (let gone = filter (\<lambda>g. eq_ANY (gr_name g) groups) (accounts_groups d) in
      Inr ((), d\<lparr>accounts_groups := filter (\<lambda>g. \<not> eq_ANY (gr_name g) groups) (accounts_groups d),
                 accounts_members := filter (\<lambda>(a, gid). gid \<notin> gr_id ` set gone) (accounts_members d)\<rparr>))"

definition selectGroups_sql :: "('z accounts_db_scheme, string list) stmt" where
  "selectGroups_sql t d = Inr (sort (map gr_name (accounts_groups d)), d)"

text \<open>Deleting the members of an account whose group has a name that satisfies a condition.\<close>

definition delete_members :: "uuid \<Rightarrow> (string \<Rightarrow> bool) \<Rightarrow> ('z accounts_db_scheme, unit) stmt" where
  "delete_members acctID cond t d =
     Inr ((), d\<lparr>accounts_members := filter (\<lambda>(a, gid). \<not> (a = acctID \<and>
        list_ex (\<lambda>g. gr_id g = gid \<and> cond (gr_name g)) (accounts_groups d))) (accounts_members d)\<rparr>)"

text \<open>Adding them; the reference to the account is checked when a row was added.\<close>

definition insert_members :: "uuid \<Rightarrow> (string \<Rightarrow> bool) \<Rightarrow> ('z accounts_db_scheme, unit) stmt" where
  "insert_members acctID cond t d =
     (let new = filter (\<lambda>x. x \<notin> set (accounts_members d))
                  (map (\<lambda>g. (acctID, gr_id g)) (filter (\<lambda>g. cond (gr_name g)) (accounts_groups d)))
      in if new \<noteq> [] \<and> acctID \<notin> ar_id ` set (accounts_accounts d)
         then Inl (pg_fail ForeignKeyViolation ''accounts_members'' ''fk_members_account_id'')
         else Inr ((), d\<lparr>accounts_members := accounts_members d @ new\<rparr>))"

section \<open>Operations\<close>

definition AccountsTag :: ErrorTag where "AccountsTag = ''accounts''"

definition ByEmail :: "'a ctx \<Rightarrow> queryer \<Rightarrow> string \<Rightarrow> 'z accounts_db_scheme engine
    \<Rightarrow> Account res \<times> 'z accounts_db_scheme engine" where
  "ByEmail c q email e = EnsureQueryer c q (\<lambda>c q. QueryOne q (selectAccount_sql (\<lambda>a. ar_email a = email))) e"

definition ByID :: "'a ctx \<Rightarrow> queryer \<Rightarrow> uuid \<Rightarrow> 'z accounts_db_scheme engine
    \<Rightarrow> Account res \<times> 'z accounts_db_scheme engine" where
  "ByID c q aid e = EnsureQueryer c q (\<lambda>c q. QueryOne q (selectAccount_sql (\<lambda>a. ar_id a = aid))) e"

text \<open>The error switch of \<open>Create\<close>.\<close>

definition create_error :: "goerr \<Rightarrow> goerr" where
  "create_error err =
     (let state = SQLState (Some err) in
      if state = UniqueViolation then
        the (TagNew ''an account already exists for this email'' AccountsTag
               [''code'', go_Sprint 409, ''parameter'', ''email''])
      else if state = CheckViolation then
        (case AsProtocolError (Some err) of
           None \<Rightarrow> err
         | Some perr \<Rightarrow>
             if pe_ConstraintName perr = ''chk_email_length'' then
               the (TagNew ''email is too long'' AccountsTag [''code'', go_Sprint 400, ''parameter'', ''email''])
             else if pe_ConstraintName perr = ''chk_password_length'' then
               the (TagNew ''password hash is too long'' AccountsTag [''code'', go_Sprint 500, ''parameter'', ''password''])
             else err)
      else err)"

definition Create :: "uuid \<Rightarrow> 'a ctx \<Rightarrow> queryer \<Rightarrow> string \<Rightarrow> string \<Rightarrow> 'z accounts_db_scheme engine
    \<Rightarrow> Account res \<times> 'z accounts_db_scheme engine" where
  "Create newid c q email hashedPwd e =
     (case EnsureQueryer c q (\<lambda>c q e.
             case QueryOne q (insertAccount_sql newid email hashedPwd) e of
               (Inl err, e1) \<Rightarrow> (Inl err, e1)
             | (Inr aid, e1) \<Rightarrow> ByID c q aid e1) e of
        (Inl err, e1) \<Rightarrow> (Inl (create_error err), e1)
      | (Inr acct, e1) \<Rightarrow> (Inr acct, e1))"

definition Delete :: "'a ctx \<Rightarrow> queryer \<Rightarrow> uuid \<Rightarrow> 'z accounts_db_scheme engine
    \<Rightarrow> unit res \<times> 'z accounts_db_scheme engine" where
  "Delete c q aid e = EnsureQueryer c q (\<lambda>c q. Exec q (deleteAccount_sql aid)) e"

definition groups_error :: "goerr \<Rightarrow> goerr" where
  "groups_error err =
     (if SQLState (Some err) = CheckViolation then
        (case AsProtocolError (Some err) of
           None \<Rightarrow> err
         | Some perr \<Rightarrow>
             if pe_ConstraintName perr = ''chk_name_length'' then
               the (TagNew ''group name is too short or too long'' AccountsTag
                      [''code'', go_Sprint 400, ''parameter'', ''group''])
             else err)
      else err)"

definition CreateGroups :: "(nat \<Rightarrow> uuid) \<Rightarrow> 'a ctx \<Rightarrow> queryer \<Rightarrow> string list option \<Rightarrow> 'z accounts_db_scheme engine
    \<Rightarrow> unit res \<times> 'z accounts_db_scheme engine" where
  "CreateGroups newids c q groups e =
     (case EnsureQueryer c q (\<lambda>c q. Exec q (insertGroups_sql newids groups)) e of
        (Inl err, e1) \<Rightarrow> (Inl (groups_error err), e1)
      | (Inr u, e1) \<Rightarrow> (Inr u, e1))"

definition DeleteGroups :: "'a ctx \<Rightarrow> queryer \<Rightarrow> string list option \<Rightarrow> 'z accounts_db_scheme engine
    \<Rightarrow> unit res \<times> 'z accounts_db_scheme engine" where
  "DeleteGroups c q groups e = EnsureQueryer c q (\<lambda>c q. Exec q (deleteGroups_sql groups)) e"

definition Groups :: "'a ctx \<Rightarrow> queryer \<Rightarrow> 'z accounts_db_scheme engine
    \<Rightarrow> string list res \<times> 'z accounts_db_scheme engine" where
  "Groups c q e = EnsureQueryer c q (\<lambda>c q. QueryMany q selectGroups_sql) e"

definition setMembership_tx :: "uuid \<Rightarrow> string list option \<Rightarrow> ('a, 'z accounts_db_scheme engine, unit) tx_fn" where
  "setMembership_tx acctID groups c tx e =
     (case Exec (QTx tx) (delete_members acctID (\<lambda>name. ne_ALL name groups)) e of
        (Inl err, e1) \<Rightarrow> (Ret (Inl err), e1)
      | (Inr _, e1) \<Rightarrow>
          (case Exec (QTx tx) (insert_members acctID (\<lambda>name. eq_ANY name groups)) e1 of
             (Inl err, e2) \<Rightarrow> (Ret (Inl err), e2)
           | (Inr _, e2) \<Rightarrow> (Ret (Inr ()), e2)))"

definition SetMembership :: "'z accounts_db_scheme engine runtime \<Rightarrow> 'a ctx \<Rightarrow> uuid \<Rightarrow> string list option
    \<Rightarrow> 'z accounts_db_scheme engine \<Rightarrow> unit res outcome \<times> 'z accounts_db_scheme engine" where
  "SetMembership rt c acctID groups e = EnsureTx engine_driver rt c (setMembership_tx acctID groups) e"

definition AddMembership :: "'a ctx \<Rightarrow> queryer \<Rightarrow> uuid \<Rightarrow> string \<Rightarrow> 'z accounts_db_scheme engine
    \<Rightarrow> unit res \<times> 'z accounts_db_scheme engine" where
  "AddMembership c q acctID grp e =
     EnsureQueryer c q (\<lambda>c q. Exec q (insert_members acctID (\<lambda>name. name = grp))) e"

definition RemoveMembership :: "'a ctx \<Rightarrow> queryer \<Rightarrow> uuid \<Rightarrow> string \<Rightarrow> 'z accounts_db_scheme engine
    \<Rightarrow> unit res \<times> 'z accounts_db_scheme engine" where
  "RemoveMembership c q acctID grp e =
     EnsureQueryer c q (\<lambda>c q. Exec q (delete_members acctID (\<lambda>name. name = grp))) e"

section \<open>Well-formed tables\<close>

text \<open>Keys are unique, the checks hold, and members refer to existing accounts and groups.\<close>

definition accounts_ok :: "'z accounts_db_scheme \<Rightarrow> bool" where
  "accounts_ok d \<longleftrightarrow>
     distinct (map ar_id (accounts_accounts d)) \<and> distinct (map ar_email (accounts_accounts d))
     \<and> list_all (\<lambda>a. chk_email_length (ar_email a) \<and> chk_password_length (ar_password a)) (accounts_accounts d)
     \<and> distinct (map gr_id (accounts_groups d)) \<and> distinct (map gr_name (accounts_groups d))
     \<and> list_all (\<lambda>g. chk_name_length (gr_name g)) (accounts_groups d)
     \<and> distinct (accounts_members d)
     \<and> list_all (\<lambda>(a, g). a \<in> ar_id ` set (accounts_accounts d) \<and> g \<in> gr_id ` set (accounts_groups d)) (accounts_members d)"

lemma insert_groups_result:
  "insert_groups newids n names tbl = Inr tbl' \<Longrightarrow>
     distinct (map gr_id tbl) \<Longrightarrow> distinct (map gr_name tbl) \<Longrightarrow> list_all (\<lambda>g. chk_name_length (gr_name g)) tbl \<Longrightarrow>
     distinct (map gr_id tbl') \<and> distinct (map gr_name tbl') \<and> list_all (\<lambda>g. chk_name_length (gr_name g)) tbl'
     \<and> set tbl \<subseteq> set tbl' \<and> gr_name ` set tbl' = gr_name ` set tbl \<union> set names"
  by (induction newids n names tbl rule: insert_groups.induct) (auto split: if_splits simp: insert_absorb)

lemma insert_members_new:
  assumes "accounts_ok d"
  shows "distinct (filter (\<lambda>x. x \<notin> set (accounts_members d))
    (map (\<lambda>g. (acctID, gr_id g)) (filter cond (accounts_groups d))))"
proof -
  from assms have "distinct (map gr_id (filter cond (accounts_groups d)))"
    by (auto simp: accounts_ok_def distinct_map intro: inj_on_subset)
  then show ?thesis by (intro distinct_filter) (auto simp: distinct_map inj_on_def)
qed

lemma insert_members_ok:
  assumes ok: "accounts_ok d" and ins: "insert_members acctID cond t d = Inr (u, d')"
  shows "accounts_ok d'"
proof -
  define new where "new = filter (\<lambda>x. x \<notin> set (accounts_members d))
    (map (\<lambda>g. (acctID, gr_id g)) (filter (\<lambda>g. cond (gr_name g)) (accounts_groups d)))"
  from ins have d': "d' = d\<lparr>accounts_members := accounts_members d @ new\<rparr>"
    and ref: "new \<noteq> [] \<Longrightarrow> acctID \<in> ar_id ` set (accounts_accounts d)"
    by (auto simp: insert_members_def Let_def new_def [symmetric] split: if_splits)
  have new: "distinct new" "set new \<inter> set (accounts_members d) = {}"
    "\<And>a g. (a, g) \<in> set new \<Longrightarrow> a = acctID \<and> g \<in> gr_id ` set (accounts_groups d) \<and> new \<noteq> []"
    using insert_members_new [OF ok, of acctID "\<lambda>g. cond (gr_name g)"] by (auto simp: new_def filter_empty_conv)
  with ok ref show ?thesis unfolding d' by (auto simp: accounts_ok_def list_all_iff)
qed

lemma accounts_stmts_keep:
  "stmt_keeps accounts_ok (selectAccount_sql sel)"
  "stmt_keeps accounts_ok (insertAccount_sql newid email pwd)"
  "stmt_keeps accounts_ok (deleteAccount_sql aid)"
  "stmt_keeps accounts_ok (insertGroups_sql newids groups)"
  "stmt_keeps accounts_ok (deleteGroups_sql groups)"
  "stmt_keeps accounts_ok selectGroups_sql"
  "stmt_keeps accounts_ok (delete_members acctID cond)"
  "stmt_keeps accounts_ok (insert_members acctID cond)"
proof -
  show "stmt_keeps accounts_ok (insertAccount_sql newid email pwd)"
    by (auto simp: stmt_keeps_def insertAccount_sql_def accounts_ok_def list_all_iff split: if_splits)
  show "stmt_keeps accounts_ok (insertGroups_sql newids groups)"
    unfolding stmt_keeps_def insertGroups_sql_def
    by (auto simp: accounts_ok_def split: sum.splits dest!: insert_groups_result) (fastforce simp: list_all_iff)
  show "stmt_keeps accounts_ok (deleteAccount_sql aid)"
    by (auto simp: stmt_keeps_def deleteAccount_sql_def accounts_ok_def distinct_map_filter list_all_iff)
  show "stmt_keeps accounts_ok (deleteGroups_sql groups)"
    by (auto simp: stmt_keeps_def deleteGroups_sql_def accounts_ok_def distinct_map_filter list_all_iff Let_def)
      (fastforce simp: image_iff)
  show "stmt_keeps accounts_ok (insert_members acctID cond)"
    unfolding stmt_keeps_def by (auto intro: insert_members_ok)
qed (auto simp: stmt_keeps_def selectAccount_sql_def selectGroups_sql_def delete_members_def accounts_ok_def list_all_iff)

section \<open>Properties that every operation keeps\<close>

text \<open>The interface of the token operations, extended with the statements of this package.\<close>

locale accounts_property = table_property I J G
  for I :: "'z accounts_db_scheme \<Rightarrow> bool" and J and G +
  assumes insert_account_keeps: "stmt_keeps I (insertAccount_sql newid email pwd)"
    and delete_account_keeps: "stmt_keeps I (deleteAccount_sql aid)"
    and insert_groups_keeps: "stmt_keeps I (insertGroups_sql newids groups)"
    and delete_groups_keeps: "stmt_keeps I (deleteGroups_sql groups)"
    and delete_members_keeps: "stmt_keeps I (delete_members acctID cond)"
    and insert_members_keeps: "stmt_keeps I (insert_members acctID cond)"

lemma select_keeps: "stmt_keeps I (selectAccount_sql sel)" "stmt_keeps I selectGroups_sql"
  by (auto simp: stmt_keeps_def selectAccount_sql_def selectGroups_sql_def)

lemmas accounts_ops = ByEmail_def ByID_def Delete_def DeleteGroups_def Groups_def AddMembership_def
  RemoveMembership_def EnsureQueryer_def

context accounts_property
begin

lemma simple_accounts_inv:
  assumes "J e"
  shows "J (snd (ByEmail c q email e))"
    and "J (snd (ByID c q aid e))"
    and "J (snd (Delete c q aid e))"
    and "J (snd (DeleteGroups c q groups e))"
    and "J (snd (Groups c q e))"
    and "J (snd (AddMembership c q aid name e))"
    and "J (snd (RemoveMembership c q aid name e))"
  using assms
  by (simp_all add: accounts_ops Exec_keeps QueryOne_keeps QueryMany_keeps select_keeps delete_account_keeps
      delete_groups_keeps delete_members_keeps insert_members_keeps)

lemma CreateGroups_inv: "J e \<Longrightarrow> J (snd (CreateGroups newids c q groups e))"
  by (auto simp: CreateGroups_def EnsureQueryer_def split: prod.splits sum.splits
      dest: Exec_keeps_fst [OF insert_groups_keeps])

lemma Create_inv:
  assumes "J e"
  shows "J (snd (Create newid c q email pwd e))"
proof -
  let ?q = "case getCtxTx c of Some tx \<Rightarrow> QTx tx | None \<Rightarrow> q"
  obtain r e1 where r: "QueryOne ?q (insertAccount_sql newid email pwd) e = (r, e1)" by fastforce
  with QueryOne_keeps [OF insert_account_keeps assms, of ?q newid email pwd] have i1: "J e1" by simp
  have b: "J e2" if "ByID c q' aid e1 = (x, e2)" for q' aid x e2
    using simple_accounts_inv(2) [OF i1, of c q' aid] that by simp
  from r i1 show ?thesis
    by (auto simp: Create_def EnsureQueryer_def split: sum.splits prod.splits dest: b)
qed

lemma setMembership_tx_keeps: "fn_keeps J (setMembership_tx aid groups)"
  unfolding fn_keeps_def
  by (auto simp: setMembership_tx_def split: prod.splits sum.splits
      dest: Exec_keeps_fst [OF delete_members_keeps] Exec_keeps_fst [OF insert_members_keeps])

lemma SetMembership_inv:
  "J e \<Longrightarrow> J (snd (SetMembership (engine_runtime rnd waited) c aid groups e))"
  unfolding SetMembership_def by (rule EnsureTx_inv [OF setMembership_tx_keeps])

end

text \<open>Both packages on one database: the invariants of both.\<close>

definition db_ok :: "'z accounts_db_scheme \<Rightarrow> bool" where
  "db_ok d \<longleftrightarrow> tokens_inv d \<and> accounts_ok d"

lemma stmt_keeps_both: "stmt_keeps tokens_inv st \<Longrightarrow> stmt_keeps accounts_ok st \<Longrightarrow> stmt_keeps db_ok st"
  unfolding stmt_keeps_def db_ok_def by blast

lemma on_tokens_accounts: "stmt_keeps accounts_ok (on_tokens f)"
  by (auto simp: stmt_keeps_def on_tokens_Inr accounts_ok_def)

lemma tokens_stmts_accounts:
  "stmt_keeps accounts_ok (insertToken_sql token typ single refid es ids data)"
  "stmt_keeps accounts_ok (updateToken_sql newt refid as ids newdata old)"
  "stmt_keeps accounts_ok (updateData_sql data token)"
  "stmt_keeps accounts_ok (deleteToken_sql token)"
  "stmt_keeps accounts_ok (deleteTokens_sql refid typ)"
  "stmt_keeps accounts_ok (resetIdle_sql token)"
  "stmt_keeps accounts_ok tokens_cleanup_sql"
  unfolding insertToken_sql_def updateToken_sql_def updateData_sql_def deleteToken_sql_def deleteTokens_sql_def
    resetIdle_sql_def tokens_cleanup_sql_def by (rule on_tokens_accounts)+

lemma accounts_stmts_tokens:
  "stmt_keeps tokens_inv (insertAccount_sql newid email pwd)"
  "stmt_keeps tokens_inv (deleteAccount_sql aid)"
  "stmt_keeps tokens_inv (insertGroups_sql newids groups)"
  "stmt_keeps tokens_inv (deleteGroups_sql groups)"
  "stmt_keeps tokens_inv (delete_members acctID cond)"
  "stmt_keeps tokens_inv (insert_members acctID cond)"
  by (auto simp: stmt_keeps_def tokens_inv_def insertAccount_sql_def deleteAccount_sql_def insertGroups_sql_def
      deleteGroups_sql_def delete_members_def insert_members_def Let_def split: if_splits sum.splits)

interpretation db: accounts_property db_ok "engine_inv db_ok" "\<lambda>_. True"
  by unfold_locales
    (intro stmt_keeps_both tokens_stmts_keep tokens_stmts_accounts accounts_stmts_tokens accounts_stmts_keep)+

text \<open>Sequences of operations of both packages.\<close>

inductive db_step :: "'a ctx \<Rightarrow> 'z accounts_db_scheme engine \<Rightarrow> 'z accounts_db_scheme engine \<Rightarrow> bool" where
  step_tokens: "tokens_step c l e e' \<Longrightarrow> db_step c e e'"
| step_Create: "serial c e \<Longrightarrow> Create newid c q email pwd e = (a, e') \<Longrightarrow> db_step c e e'"
| step_DeleteAccount: "serial c e \<Longrightarrow> Delete c q aid e = (u, e') \<Longrightarrow> db_step c e e'"
| step_CreateGroups: "serial c e \<Longrightarrow> CreateGroups newids c q groups e = (u, e') \<Longrightarrow> db_step c e e'"
| step_DeleteGroups: "serial c e \<Longrightarrow> DeleteGroups c q groups e = (u, e') \<Longrightarrow> db_step c e e'"
| step_SetMembership: "serial c e \<Longrightarrow> SetMembership (engine_runtime rnd waited) c aid groups e = (v, e') \<Longrightarrow> db_step c e e'"
| step_AddMembership: "serial c e \<Longrightarrow> AddMembership c q aid name e = (u, e') \<Longrightarrow> db_step c e e'"
| step_RemoveMembership: "serial c e \<Longrightarrow> RemoveMembership c q aid name e = (u, e') \<Longrightarrow> db_step c e e'"
| step_ByEmail: "serial c e \<Longrightarrow> ByEmail c q email e = (a, e') \<Longrightarrow> db_step c e e'"
| step_ByID: "serial c e \<Longrightarrow> ByID c q aid e = (a, e') \<Longrightarrow> db_step c e e'"
| step_Groups: "serial c e \<Longrightarrow> Groups c q e = (gs, e') \<Longrightarrow> db_step c e e'"

inductive_cases db_stepE: "db_step c e e'"

inductive db_run :: "'a ctx list \<Rightarrow> 'z accounts_db_scheme engine \<Rightarrow> 'z accounts_db_scheme engine \<Rightarrow> bool" where
  db_refl: "db_run [] e e"
| db_steps: "db_run cs e e1 \<Longrightarrow> db_step c e1 e2 \<Longrightarrow> db_run (cs @ [c]) e e2"

lemma db_step_inv: "db_step c e e' \<Longrightarrow> engine_inv db_ok e \<Longrightarrow> engine_inv db_ok e'"
proof (erule db_stepE)
  fix l assume "tokens_step c l e e'" "engine_inv db_ok e"
  then show "engine_inv db_ok e'" using db.step_inv by (simp add: list_all_iff)
qed (metis snd_conv db.simple_accounts_inv db.CreateGroups_inv db.Create_inv db.SetMembership_inv)+

text \<open>
  C16. The whole database stays consistent: every sequence of operations on tokens, accounts,
  groups and memberships, with any faults, keeps emails and group names unique, the checks of
  every column, members that refer to existing accounts and groups, and the token table well
  formed.
\<close>

theorem db_run_invariant:
  assumes "db_run cs e e'" "engine_inv db_ok e"
  shows "engine_inv db_ok e'"
  using assms by (induction rule: db_run.induct) (auto intro: db_step_inv)

section \<open>Membership\<close>

text \<open>The names of the groups an account is in, as a set of pairs of the tables.\<close>

lemma groups_of_set:
  "set (groups_of d aid) = gr_name ` {g \<in> set (accounts_groups d). (aid, gr_id g) \<in> set (accounts_members d)}"
  by (force simp: groups_of_def split: if_splits)

text \<open>Only the members of an account decide its groups.\<close>

definition members_of :: "uuid \<Rightarrow> (uuid \<times> uuid) list \<Rightarrow> (uuid \<times> uuid) list" where
  "members_of aid = filter (\<lambda>(a, g). a = aid)"

lemma groups_of_members_of:
  "groups_of d aid = concat (map (\<lambda>(a, gid). map gr_name (filter (\<lambda>g. gr_id g = gid) (accounts_groups d)))
     (members_of aid (accounts_members d)))"
proof -
  have "concat (map (\<lambda>(a, gid). if a = aid then f gid else []) ms) =
      concat (map (\<lambda>(a, gid). f gid) (members_of aid ms))" for f :: "uuid \<Rightarrow> string list" and ms
    by (induction ms) (auto simp: members_of_def)
  then show ?thesis by (simp add: groups_of_def)
qed

lemma members_of_filter: "(\<And>g. P (aid, g)) \<Longrightarrow> members_of aid (filter P ms) = members_of aid ms"
  by (induction ms) (auto simp: members_of_def)

lemma groups_of_cong:
  "accounts_groups d' = accounts_groups d \<Longrightarrow> members_of aid (accounts_members d') = members_of aid (accounts_members d) \<Longrightarrow>
     groups_of d' aid = groups_of d aid"
  by (simp add: groups_of_members_of)

lemma setMembership_tx_spec:
  "tx_spec (setMembership_tx aid groups) (\<lambda>t d u d'. \<exists>d1. delete_members aid (\<lambda>name. ne_ALL name groups) t d = Inr ((), d1)
     \<and> insert_members aid (\<lambda>name. eq_ANY name groups) t d1 = Inr ((), d'))"
  unfolding tx_spec_def
proof (intro allI impI)
  fix c :: "'a ctx" and tx and e e' :: "'z accounts_db_scheme engine" and r
  assume run: "setMembership_tx aid groups c tx e = (r, e')"
  obtain s e1 where del: "run_stmt (QTx tx) (delete_members aid (\<lambda>name. ne_ALL name groups)) e = (s, e1)" by fastforce
  obtain s' e2 where ins: "run_stmt (QTx tx) (insert_members aid (\<lambda>name. eq_ANY name groups)) e1 = (s', e2)" by fastforce
  note c1 = run_stmt_QTx_confined [OF del] and c2 = run_stmt_QTx_confined [OF ins]
  show "contents e' = contents e \<and> now e' = now e \<and> (\<forall>u. u \<noteq> tx \<longrightarrow> tx_lookup e' u = tx_lookup e u) \<and>
    (\<forall>x. r = Ret (Inr x) \<longrightarrow> (\<exists>d d'. tx_lookup e tx = Some (Active d) \<and> tx_lookup e' tx = Some (Active d') \<and>
       (\<exists>d1. delete_members aid (\<lambda>name. ne_ALL name groups) (now e) d = Inr ((), d1)
         \<and> insert_members aid (\<lambda>name. eq_ANY name groups) (now e) d1 = Inr ((), d'))))"
  proof (cases "\<exists>u u'. s = Inr u \<and> s' = Inr u'")
    case True
    then have ss: "s = Inr ()" "s' = Inr ()" by auto
    with run del ins have "r = Ret (Inr ())" "e' = e2" by (auto simp: setMembership_tx_def Exec_def)
    with run_stmt_QTx_ok [OF del [unfolded ss(1)]] run_stmt_QTx_ok [OF ins [unfolded ss(2)]] c1 c2 show ?thesis
      by auto
  next
    case False
    with run del ins c1 c2 show ?thesis
      by (auto simp: setMembership_tx_def Exec_def split: sum.splits prod.splits)
  qed
qed

lemma delete_members_of:
  "delete_members aid cond t d = Inr (u, d') \<Longrightarrow> accounts_groups d' = accounts_groups d \<and>
     (\<forall>other. other \<noteq> aid \<longrightarrow> members_of other (accounts_members d') = members_of other (accounts_members d))"
  by (auto simp: delete_members_def intro!: members_of_filter)

lemma insert_members_of:
  "insert_members aid cond t d = Inr (u, d') \<Longrightarrow> accounts_groups d' = accounts_groups d \<and>
     (\<forall>other. other \<noteq> aid \<longrightarrow> members_of other (accounts_members d') = members_of other (accounts_members d))"
  by (auto simp: insert_members_def members_of_def Let_def filter_empty_conv split: if_splits)

lemma insert_members_set:
  assumes "insert_members aid cond t d = Inr (u, d')"
  shows "set (accounts_members d') =
    set (accounts_members d) \<union> (\<lambda>g. (aid, gr_id g)) ` {g \<in> set (accounts_groups d). cond (gr_name g)}"
proof -
  from assms have "accounts_members d' = accounts_members d @ filter (\<lambda>x. x \<notin> set (accounts_members d))
      (map (\<lambda>g. (aid, gr_id g)) (filter (\<lambda>g. cond (gr_name g)) (accounts_groups d)))"
    by (auto simp: insert_members_def Let_def split: if_splits)
  then show ?thesis by auto
qed

lemma SetMembership_list:
  assumes "SetMembership (engine_runtime rnd waited) c aid (Some gs) e = (Ret (Inr u), e')"
    and "engine_inv accounts_ok e" "visible (ctx_queryer c) e = Some d"
  shows "\<exists>d'. visible (ctx_queryer c) e' = Some d'
    \<and> set (groups_of d' aid) = set gs \<inter> gr_name ` set (accounts_groups d)
    \<and> (\<forall>other. other \<noteq> aid \<longrightarrow> groups_of d' other = groups_of d other)"
proof -
  from EnsureTx_ok [OF setMembership_tx_spec assms(1) [unfolded SetMembership_def]] assms(3)
  obtain d' d1 where d': "visible (ctx_queryer c) e' = Some d'"
    "delete_members aid (\<lambda>name. ne_ALL name (Some gs)) (now e) d = Inr ((), d1)"
    "insert_members aid (\<lambda>name. eq_ANY name (Some gs)) (now e) d1 = Inr ((), d')" by auto
  note del = delete_members_of [OF d'(2)] and ins = insert_members_of [OF d'(3)]
  from engine_inv_visible [OF assms(2,3)] have ok: "accounts_ok d" .
  have id_eq: "g = h" if "g \<in> set (accounts_groups d)" "h \<in> set (accounts_groups d)" "gr_id g = gr_id h" for g h
    using that ok distinct_map_eq [of gr_id "accounts_groups d" g h] by (simp add: accounts_ok_def)
  have m1: "(aid, gr_id g) \<in> set (accounts_members d1) \<longleftrightarrow> (aid, gr_id g) \<in> set (accounts_members d) \<and> gr_name g \<in> set gs"
    if "g \<in> set (accounts_groups d)" for g
    using d'(2) that by (auto simp: delete_members_def list_ex_iff dest: id_eq)
  have "(aid, gr_id g) \<in> set (accounts_members d') \<longleftrightarrow> gr_name g \<in> set gs" if "g \<in> set (accounts_groups d)" for g
    using insert_members_set [OF d'(3)] that m1 [OF that] del by (auto dest: id_eq)
  with del ins have "set (groups_of d' aid) = set gs \<inter> gr_name ` set (accounts_groups d)"
    unfolding groups_of_set by auto
  moreover have "groups_of d' other = groups_of d other" if "other \<noteq> aid" for other
    using del ins that by (intro groups_of_cong) auto
  ultimately show ?thesis using d'(1) by blast
qed

text \<open>
  With a nil slice of groups \<open>SetMembership\<close> changes nothing: the slice reaches the server as
  NULL, on which both conditions fail, so an account asked to be in no group keeps all of its
  groups. (An empty slice that is not nil removes them.)
\<close>

lemma SetMembership_nil_keeps_groups:
  assumes "SetMembership (engine_runtime rnd waited) c aid None e = (Ret (Inr u), e')"
  shows "visible (ctx_queryer c) e' = visible (ctx_queryer c) e"
proof -
  from EnsureTx_ok [OF setMembership_tx_spec assms(1) [unfolded SetMembership_def]]
  obtain d d' d1 where "visible (ctx_queryer c) e = Some d" "visible (ctx_queryer c) e' = Some d'"
    "delete_members aid (\<lambda>name. ne_ALL name None) (now e) d = Inr ((), d1)"
    "insert_members aid (\<lambda>name. eq_ANY name None) (now e) d1 = Inr ((), d')" by auto
  then show ?thesis by (auto simp: delete_members_def insert_members_def list_ex_iff Let_def)
qed

text \<open>
  C34. What \<open>SetMembership\<close> does when it succeeds. Given a list of groups, the account is in exactly
  the given groups that exist, also when the list is empty. Given a nil slice, which the documentation does not tell from an empty one, the account keeps
  all of its groups. The groups of every other account are what they were.
\<close>

theorem SetMembership_exact:
  assumes "SetMembership (engine_runtime rnd waited) c aid groups e = (Ret (Inr u), e')"
    and "engine_inv accounts_ok e" "visible (ctx_queryer c) e = Some d"
  shows "\<exists>d'. visible (ctx_queryer c) e' = Some d'
    \<and> set (groups_of d' aid) =
        (case groups of Some gs \<Rightarrow> set gs \<inter> gr_name ` set (accounts_groups d) | None \<Rightarrow> set (groups_of d aid))
    \<and> (\<forall>other. other \<noteq> aid \<longrightarrow> groups_of d' other = groups_of d other)"
proof (cases groups)
  case None
  with SetMembership_nil_keeps_groups assms(1,3) show ?thesis by fastforce
next
  case (Some gs)
  from SetMembership_list [OF assms(1) [unfolded Some] assms(2,3)] Some show ?thesis by simp
qed

section \<open>Accounts\<close>

lemma AsType_PgErr [simp]:
  "AsType sqlstate_view (PgErr p) = Some (pg_Code p)" "AsType pg_view (PgErr p) = Some p"
  by (simp_all add: AsType.simps [of _ "PgErr _"])

lemma create_error_pg_fail:
  "create_error (pg_fail UniqueViolation tbl con) = the (TagNew ''an account already exists for this email'' AccountsTag
     [''code'', go_Sprint 409, ''parameter'', ''email''])"
  "create_error (pg_fail CheckViolation tbl ''chk_email_length'') =
     the (TagNew ''email is too long'' AccountsTag [''code'', go_Sprint 400, ''parameter'', ''email''])"
  "create_error (pg_fail CheckViolation tbl ''chk_password_length'') =
     the (TagNew ''password hash is too long'' AccountsTag [''code'', go_Sprint 500, ''parameter'', ''password''])"
  by (simp_all add: create_error_def pg_fail_def Let_def UniqueViolation_def CheckViolation_def of_pg_error_def)

text \<open>The status code that a tagged error carries is the number it was tagged with.\<close>

lemma TagNew_code:
  "int64_ok n \<Longrightarrow> Code (Some (the (TagNew msg tag [''code'', go_Sprint n, ''parameter'', p]))) = n
     \<and> IsTag (Some (the (TagNew msg tag [''code'', go_Sprint n, ''parameter'', p]))) tag
     \<and> KeyValue (Some (the (TagNew msg tag [''code'', go_Sprint n, ''parameter'', p]))) ''parameter'' = p"
  by (simp add: TagNew_def New_def Code_def CodeKey_def gomap_set_def KeyValue.simps IsTag.simps go_Atoi_Sprint)

lemma QueryOne_QConn_no_fault:
  "faults e = [] \<Longrightarrow> QueryOne QConn st e =
     (case st (now e) (contents e) of
        Inl x \<Rightarrow> (Inl x, e)
      | Inr (rows, d) \<Rightarrow> (case rows of [] \<Rightarrow> Inl (Errorf_w ''not found: '' (Sentinel ErrNoRows)) | [x] \<Rightarrow> Inr x
          | _ \<Rightarrow> Inl (OpaqueErr ''scany: expected 1 row''), e\<lparr>contents := d\<rparr>))"
  by (simp add: QueryOne_def run_stmt_QConn_no_fault split: sum.splits prod.splits list.splits)

text \<open>A new account, as \<open>Create\<close> returns it.\<close>

definition new_account :: "uuid \<Rightarrow> string \<Rightarrow> string \<Rightarrow> int \<Rightarrow> Account" where
  "new_account newid email pwd t = \<lparr>acct_ID = newid, acct_Email = email, acct_Password = pwd,
     acct_Verified = None, acct_Created = t, acct_Groups = []\<rparr>"

lemma account_of_new:
  assumes "accounts_ok d" "newid \<notin> ar_id ` set (accounts_accounts d)"
  shows "account_of (d\<lparr>accounts_accounts := as\<rparr>) \<lparr>ar_id = newid, ar_email = email, ar_password = pwd,
    ar_verified = None, ar_created = t\<rparr> = new_account newid email pwd t"
proof -
  from assms have "members_of newid (accounts_members d) = []"
    by (auto simp: accounts_ok_def list_all_iff members_of_def filter_empty_conv)
  then show ?thesis by (simp add: account_of_def new_account_def groups_of_members_of)
qed

lemma Create_pool_ok:
  assumes "faults e = []" "getCtxTx c = None" "accounts_ok (contents e)"
    and "newid \<notin> ar_id ` set (accounts_accounts (contents e))"
    and "chk_email_length email" "chk_password_length pwd" "email \<notin> ar_email ` set (accounts_accounts (contents e))"
  shows "Create newid c QConn email pwd e =
    (Inr (new_account newid email pwd (now e)), e\<lparr>contents := (contents e)\<lparr>accounts_accounts :=
       accounts_accounts (contents e) @ [\<lparr>ar_id = newid, ar_email = email, ar_password = pwd,
         ar_verified = None, ar_created = now e\<rparr>]\<rparr>\<rparr>)"
proof -
  have "filter (\<lambda>a. ar_id a = newid) (accounts_accounts (contents e)) = []"
    using assms(4) by (auto simp: filter_empty_conv)
  then show ?thesis
    using assms by (simp add: Create_def ByID_def EnsureQueryer_def QueryOne_QConn_no_fault insertAccount_sql_def
        selectAccount_sql_def account_of_new)
qed

text \<open>
  C35. Creation of an account, on every branch: a valid new email and a hash that fits give the
  account, unverified and without groups; otherwise nothing is stored and the error is tagged
  with the package's tag, the offending parameter and the HTTP status: 400 for an email whose
  length is out of bounds, 500 for a hash too long, 409 for an email already taken.
\<close>

theorem Create_exact:
  assumes "faults e = []" "getCtxTx c = None" "accounts_ok (contents e)"
    and "newid \<notin> ar_id ` set (accounts_accounts (contents e))"
  shows "case Create newid c QConn email pwd e of (r, e') \<Rightarrow>
    if chk_email_length email \<and> chk_password_length pwd \<and> email \<notin> ar_email ` set (accounts_accounts (contents e))
    then r = Inr (new_account newid email pwd (now e)) \<and> accounts_accounts (contents e') = accounts_accounts (contents e)
           @ [\<lparr>ar_id = newid, ar_email = email, ar_password = pwd, ar_verified = None, ar_created = now e\<rparr>]
    else contents e' = contents e \<and> (\<exists>err. r = Inl err \<and> IsTag (Some err) AccountsTag \<and>
      Code (Some err) = (if \<not> chk_email_length email then 400 else if \<not> chk_password_length pwd then 500 else 409) \<and>
      KeyValue (Some err) ''parameter'' = (if chk_email_length email \<and> \<not> chk_password_length pwd then ''password'' else ''email''))"
proof (cases "chk_email_length email \<and> chk_password_length pwd \<and> email \<notin> ar_email ` set (accounts_accounts (contents e))")
  case True
  with Create_pool_ok [OF assms, of email pwd] show ?thesis by simp
next
  case False
  have codes: "int64_ok 400" "int64_ok 409" "int64_ok 500" by (simp_all add: int64_ok_def)
  from False assms show ?thesis
    by (simp add: Create_def EnsureQueryer_def QueryOne_QConn_no_fault insertAccount_sql_def create_error_pg_fail
        TagNew_code codes)
qed

text \<open>
  An account that was created is found again by its email and by its identifier, as
  it was returned.
\<close>

theorem Create_then_find:
  assumes "faults e = []" "getCtxTx c = None" "accounts_ok (contents e)"
    and "newid \<notin> ar_id ` set (accounts_accounts (contents e))" "Create newid c QConn email pwd e = (Inr acct, e1)"
  shows "fst (ByEmail c QConn email e1) = Inr acct \<and> fst (ByID c QConn (acct_ID acct) e1) = Inr acct"
proof -
  have new: "chk_email_length email" "chk_password_length pwd" "email \<notin> ar_email ` set (accounts_accounts (contents e))"
    using assms by (auto simp: Create_def EnsureQueryer_def QueryOne_QConn_no_fault insertAccount_sql_def
        split: if_splits)
  have f: "filter (\<lambda>a. ar_id a = newid) (accounts_accounts (contents e)) = []"
    "filter (\<lambda>a. ar_email a = email) (accounts_accounts (contents e)) = []"
    using assms(4) new(3) by (auto simp: filter_empty_conv)
  from Create_pool_ok [OF assms(1-4) new] assms(5)
  have "acct = new_account newid email pwd (now e)" "e1 = e\<lparr>contents := (contents e)\<lparr>accounts_accounts :=
       accounts_accounts (contents e) @ [\<lparr>ar_id = newid, ar_email = email, ar_password = pwd,
         ar_verified = None, ar_created = now e\<rparr>]\<rparr>\<rparr>" by simp_all
  with assms(1-4) f show ?thesis
    by (simp add: ByEmail_def ByID_def EnsureQueryer_def QueryOne_QConn_no_fault selectAccount_sql_def account_of_new)
      (simp add: new_account_def)
qed

text \<open>
  Deleting an account removes it and all of its memberships, and touches neither another
  account nor the tokens: tokens that refer to the account stay.
\<close>

theorem Delete_cascades:
  assumes "Delete c QConn aid e = (Inr u, e')" "visible (ctx_queryer c) e = Some d"
  shows "\<exists>d'. visible (ctx_queryer c) e' = Some d' \<and> groups_of d' aid = []
    \<and> accounts_accounts d' = filter (\<lambda>a. ar_id a \<noteq> aid) (accounts_accounts d)
    \<and> (\<forall>other. other \<noteq> aid \<longrightarrow> groups_of d' other = groups_of d other)
    \<and> tokens_tokens d' = tokens_tokens d"
proof -
  from assms run_stmt_visible [of "ctx_queryer c" "deleteAccount_sql aid" e u e'] obtain d'
    where d': "visible (ctx_queryer c) e' = Some d'" "deleteAccount_sql aid (now e) d = Inr (u, d')"
    by (auto simp: Delete_def EnsureQueryer_QConn Exec_def)
  then have m: "accounts_members d' = filter (\<lambda>(a, g). a \<noteq> aid) (accounts_members d)"
    and rest: "accounts_groups d' = accounts_groups d" "tokens_tokens d' = tokens_tokens d"
      "accounts_accounts d' = filter (\<lambda>a. ar_id a \<noteq> aid) (accounts_accounts d)"
    by (auto simp: deleteAccount_sql_def)
  have "members_of aid (accounts_members d') = []" unfolding m
    by (auto simp: members_of_def filter_empty_conv)
  then have "groups_of d' aid = []" by (simp add: groups_of_members_of)
  moreover have "groups_of d' other = groups_of d other" if "other \<noteq> aid" for other
    using that rest(1) unfolding m by (intro groups_of_cong) (auto simp: m intro!: members_of_filter)
  ultimately show ?thesis using d'(1) rest by blast
qed

text \<open>
  \<open>CreateGroups\<close> ensures groups: when it succeeds, the groups are those that existed and
  those asked for, existing ones with their members untouched; asking again changes nothing.
\<close>

theorem CreateGroups_ensures:
  assumes "CreateGroups newids c QConn (Some gs) e = (Inr u, e')" "visible (ctx_queryer c) e = Some d" "accounts_ok d"
  shows "\<exists>d'. visible (ctx_queryer c) e' = Some d' \<and> gr_name ` set (accounts_groups d') = gr_name ` set (accounts_groups d) \<union> set gs
    \<and> set (accounts_groups d) \<subseteq> set (accounts_groups d') \<and> accounts_members d' = accounts_members d
    \<and> insertGroups_sql newids' (Some gs) t d' = Inr ((), d')"
proof -
  from assms(1) have "run_stmt (ctx_queryer c) (insertGroups_sql newids (Some gs)) e = (Inr u, e')"
    by (auto simp: CreateGroups_def EnsureQueryer_QConn Exec_def split: prod.splits sum.splits)
  from run_stmt_visible [OF this] assms(2) obtain d'
    where d': "visible (ctx_queryer c) e' = Some d'" "insertGroups_sql newids (Some gs) (now e) d = Inr (u, d')" by auto
  then obtain tbl where tbl: "insert_groups newids 0 gs (accounts_groups d) = Inr tbl" "d' = d\<lparr>accounts_groups := tbl\<rparr>"
    by (auto simp: insertGroups_sql_def split: sum.splits)
  with assms(3) insert_groups_result [OF tbl(1)] have r: "gr_name ` set tbl = gr_name ` set (accounts_groups d) \<union> set gs"
    "set (accounts_groups d) \<subseteq> set tbl" "list_all (\<lambda>g. chk_name_length (gr_name g)) tbl"
    by (auto simp: accounts_ok_def)
  have again: "insert_groups newids' n gs' tbl = Inr tbl" if "set gs' \<subseteq> gr_name ` set tbl" for n gs'
    using that r(3) by (induction gs' arbitrary: n) (auto simp: list_all_iff)
  have "insert_groups newids' 0 gs tbl = Inr tbl" by (rule again) (simp add: r(1))
  with d'(1) tbl(2) r show ?thesis by (auto simp: insertGroups_sql_def)
qed

section \<open>Concrete runs\<close>

definition sample_accounts :: "accounts_db engine" where
  "sample_accounts = \<lparr>contents = \<lparr>tokens_tokens = [],
     accounts_accounts = [\<lparr>ar_id = 1, ar_email = ''a@b.c'', ar_password = ''hash'', ar_verified = None, ar_created = 0\<rparr>],
     accounts_groups = [\<lparr>gr_id = 10, gr_name = ''admins''\<rparr>, \<lparr>gr_id = 11, gr_name = ''users''\<rparr>],
     accounts_members = [(1, 10)]\<rparr>, txs = [], now = 5, faults = [], lost_commit = False\<rparr>"

abbreviation sample_set where
  "sample_set groups \<equiv> SetMembership (engine_runtime (\<lambda>_. 0) None) ([] :: unit ctx) 1 groups sample_accounts"

lemma sample_accounts_runs:
  "fst (sample_set (Some [''users'', ''none''])) = Ret (Inr ())"
  "fst (sample_set None) = Ret (Inr ())"
  "fst (Create 2 ([] :: unit ctx) QConn ''d@e.f'' ''hash2'' sample_accounts) = Inr (new_account 2 ''d@e.f'' ''hash2'' 5)"
  "fst (Delete ([] :: unit ctx) QConn 1 sample_accounts) = Inr ()"
  "fst (CreateGroups (\<lambda>n. 20 + of_nat n) ([] :: unit ctx) QConn (Some [''users'', ''staff'']) sample_accounts) = Inr ()"
  by code_simp+

lemma sample_accounts_simps [simp]:
  "faults sample_accounts = []" "now sample_accounts = 5" "accounts_ok (contents sample_accounts)"
  "tokens_inv (contents sample_accounts)" "tx_lookup sample_accounts t = None"
  by (simp_all add: sample_accounts_def accounts_ok_def tokens_inv_def table_ok_def tx_lookup_def chk_email_length_def
      chk_password_length_def chk_name_length_def pg_length_def continues_char_def)

lemma sample_accounts_names [simp]: "gr_name ` set (accounts_groups (contents sample_accounts)) = {''admins'', ''users''}"
  "engine_inv accounts_ok sample_accounts"
  by (simp_all add: engine_inv_def) (simp add: sample_accounts_def)

lemma unit_ctx_pool [simp]: "ctx_queryer ([] :: unit ctx) = QConn"
  by (simp add: ctx_queryer_def)

theorem db_run_invariant_witness: "engine_inv db_ok (snd (sample_set (Some [''users''])))"
proof -
  have "engine_inv db_ok sample_accounts" by (simp add: engine_inv_def db_ok_def)
  moreover have "db_step ([] :: unit ctx) sample_accounts (snd (sample_set (Some [''users''])))"
    by (rule step_SetMembership [OF _ prod.collapse [symmetric]]) (simp add: serial_def)
  ultimately show ?thesis using db_run_invariant [OF db_steps [OF db_refl]] by blast
qed

theorem SetMembership_exact_witness:
  "\<exists>d'. visible QConn (snd (sample_set (Some [''users'', ''none'']))) = Some d' \<and> set (groups_of d' 1) = {''users''}"
proof -
  have "sample_set (Some [''users'', ''none'']) = (Ret (Inr ()), snd (sample_set (Some [''users'', ''none''])))"
    using sample_accounts_runs(1) by (simp add: prod_eq_iff)
  from SetMembership_exact [OF this, of "contents sample_accounts"] show ?thesis by simp
qed

theorem SetMembership_nil_keeps_groups_witness:
  "visible QConn (snd (sample_set None)) = Some (contents sample_accounts)"
proof -
  have "sample_set None = (Ret (Inr ()), snd (sample_set None))"
    using sample_accounts_runs(2) by (simp add: prod_eq_iff)
  from SetMembership_nil_keeps_groups [OF this] show ?thesis by simp
qed

theorem Create_exact_witness:
  "\<exists>err. fst (Create 2 ([] :: unit ctx) QConn ''a@b.c'' ''hash2'' sample_accounts) = Inl err \<and> Code (Some err) = 409"
proof -
  have "(2::uuid) \<notin> ar_id ` set (accounts_accounts (contents sample_accounts))" by code_simp
  moreover have "chk_email_length ''a@b.c''" "chk_password_length ''hash2''"
    "''a@b.c'' \<in> ar_email ` set (accounts_accounts (contents sample_accounts))" by code_simp+
  ultimately show ?thesis
    using Create_exact [of sample_accounts "[] :: unit ctx" 2 "''a@b.c''" "''hash2''"] by (auto split: prod.splits)
qed

theorem Create_then_find_witness:
  "fst (ByEmail ([] :: unit ctx) QConn ''d@e.f'' (snd (Create 2 ([] :: unit ctx) QConn ''d@e.f'' ''hash2'' sample_accounts)))
     = Inr (new_account 2 ''d@e.f'' ''hash2'' 5)"
proof -
  have "(2::uuid) \<notin> ar_id ` set (accounts_accounts (contents sample_accounts))" by code_simp
  moreover have "Create 2 ([] :: unit ctx) QConn ''d@e.f'' ''hash2'' sample_accounts =
      (Inr (new_account 2 ''d@e.f'' ''hash2'' 5), snd (Create 2 ([] :: unit ctx) QConn ''d@e.f'' ''hash2'' sample_accounts))"
    using sample_accounts_runs(3) by (simp add: prod_eq_iff)
  ultimately show ?thesis
    using Create_then_find [of sample_accounts "[] :: unit ctx" 2 "''d@e.f''" "''hash2''"] by simp
qed

theorem Delete_cascades_witness:
  "\<exists>d'. visible QConn (snd (Delete ([] :: unit ctx) QConn 1 sample_accounts)) = Some d' \<and> groups_of d' 1 = []"
proof -
  have "Delete ([] :: unit ctx) QConn 1 sample_accounts = (Inr (), snd (Delete ([] :: unit ctx) QConn 1 sample_accounts))"
    using sample_accounts_runs(4) by (simp add: prod_eq_iff)
  from Delete_cascades [OF this, of "contents sample_accounts"] show ?thesis by auto
qed

theorem CreateGroups_ensures_witness:
  "\<exists>d'. visible QConn (snd (CreateGroups (\<lambda>n. 20 + of_nat n) ([] :: unit ctx) QConn (Some [''users'', ''staff'']) sample_accounts))
      = Some d' \<and> gr_name ` set (accounts_groups d') = {''admins'', ''users'', ''staff''}"
proof -
  let ?r = "CreateGroups (\<lambda>n. 20 + of_nat n) ([] :: unit ctx) QConn (Some [''users'', ''staff'']) sample_accounts"
  have "?r = (Inr (), snd ?r)" using sample_accounts_runs(5) by (simp add: prod_eq_iff)
  from CreateGroups_ensures [OF this, of "contents sample_accounts"] show ?thesis by auto
qed

end
