(* ===== verification/Acctctx.thy ===== *)
theory Acctctx
  imports Accounts
begin

text \<open>
  Package \<^verbatim>\<open>acctctx\<close> (\<^verbatim>\<open>src/accounts/acctctx/acctctx.go\<close>): the account and the session of a request,
  held in its context. A session is a mutable object that the context points to, so sessions are
  an explicit store of objects and the context holds an address: every context derived from the
  one that \<open>WithSession\<close> made sees the changes of \<open>ResetSession\<close> and \<open>ReplaceSessionData\<close>.
\<close>

section \<open>State\<close>

record session =
  ssn_id :: string
  ssn_data :: string
  ssn_dirty :: bool

type_synonym sessions = "session list"

type_synonym actx = "Account ctx"

definition accountKey :: ctx_key where "accountKey = AcctctxKey 0"

definition sessionKey :: ctx_key where "sessionKey = AcctctxKey 1"

definition nullJSON :: string where "nullJSON = ''null''"

section \<open>Operations\<close>

definition WithAccount :: "actx \<Rightarrow> Account option \<Rightarrow> actx" where
  "WithAccount c acct = WithValue c accountKey (VAccount acct)"

definition ctx_Account :: "actx \<Rightarrow> Account option" where
  "ctx_Account c = (case ctx_Value c accountKey of Some (VAccount acct) \<Rightarrow> acct | _ \<Rightarrow> None)"

text \<open>The special case for empty data, shared by \<open>WithSession\<close> and \<open>ResetSession\<close>.\<close>

definition or_null :: "string \<Rightarrow> string" where
  "or_null data = (if data = [] then nullJSON else data)"

definition WithSession :: "actx \<Rightarrow> string \<Rightarrow> string \<Rightarrow> sessions \<Rightarrow> actx \<times> sessions" where
  "WithSession c ssnID ssnData ss =
     (WithValue c sessionKey (VSession (length ss)),
      ss @ [\<lparr>ssn_id = ssnID, ssn_data = or_null ssnData, ssn_dirty = False\<rparr>])"

text \<open>The address of the session of a context, if there is one.\<close>

definition session_addr :: "actx \<Rightarrow> sessions \<Rightarrow> nat option" where
  "session_addr c ss =
     (case ctx_Value c sessionKey of Some (VSession a) \<Rightarrow> if a < length ss then Some a else None | _ \<Rightarrow> None)"

definition ResetSession :: "actx \<Rightarrow> string \<Rightarrow> string \<Rightarrow> sessions \<Rightarrow> unit outcome \<times> sessions" where
  "ResetSession c ssnID ssnData ss =
     (case session_addr c ss of
        None \<Rightarrow> (Panic ''ResetSession called without an existing Session in the context'', ss)
      | Some a \<Rightarrow> (Ret (), ss[a := \<lparr>ssn_id = ssnID, ssn_data = or_null ssnData, ssn_dirty = False\<rparr>]))"

definition SessionID :: "actx \<Rightarrow> sessions \<Rightarrow> string" where
  "SessionID c ss = (case session_addr c ss of Some a \<Rightarrow> ssn_id (ss ! a) | None \<Rightarrow> [])"

definition ctx_Session :: "actx \<Rightarrow> sessions \<Rightarrow> string \<times> string \<times> bool" where
  "ctx_Session c ss =
     (case session_addr c ss of
        Some a \<Rightarrow> (ssn_id (ss ! a), ssn_data (ss ! a), ssn_dirty (ss ! a))
      | None \<Rightarrow> ([], [], False))"

text \<open>\<open>p\<close> is what \<^verbatim>\<open>json.Marshal\<close> returns for the new data.\<close>

definition ReplaceSessionData :: "actx \<Rightarrow> string res \<Rightarrow> sessions \<Rightarrow> goerr option \<times> sessions" where
  "ReplaceSessionData c p ss =
     (case session_addr c ss of
        None \<Rightarrow> (New ''no existing session data to replace'', ss)
      | Some a \<Rightarrow>
          (case p of
             Inl err \<Rightarrow> (Some err, ss)
           | Inr data \<Rightarrow> (None, ss[a := (ss ! a)\<lparr>ssn_data := data, ssn_dirty := True\<rparr>])))"

section \<open>Lemmas\<close>

lemma ctx_keys [simp]: "accountKey \<noteq> sessionKey" "sessionKey \<noteq> accountKey" "accountKey \<noteq> ctxTx" "sessionKey \<noteq> ctxTx"
  "ctxTx \<noteq> accountKey" "ctxTx \<noteq> sessionKey"
  by (simp_all add: accountKey_def sessionKey_def ctxTx_def)

lemma WithAccount_simps [simp]:
  "ctx_Account (WithAccount c acct) = acct" "session_addr (WithAccount c acct) ss = session_addr c ss"
  "SessionID (WithAccount c acct) ss = SessionID c ss" "ctx_Session (WithAccount c acct) ss = ctx_Session c ss"
  "getCtxTx (WithAccount c acct) = getCtxTx c"
  by (simp_all add: WithAccount_def ctx_Account_def session_addr_def SessionID_def ctx_Session_def getCtxTx_def)

lemma WithSession_simps [simp]:
  "ctx_Account (fst (WithSession c i d ss)) = ctx_Account c"
  "ctx_Session (fst (WithSession c i d ss)) (snd (WithSession c i d ss)) = (i, or_null d, False)"
  "session_addr (fst (WithSession c i d ss)) (snd (WithSession c i d ss)) = Some (length ss)"
  "getCtxTx (fst (WithSession c i d ss)) = getCtxTx c"
  by (simp_all add: WithSession_def ctx_Account_def session_addr_def ctx_Session_def getCtxTx_def)

lemma session_addr_less: "session_addr c ss = Some a \<Longrightarrow> a < length ss"
  by (auto simp: session_addr_def split: option.splits ctx_val.splits if_splits)

lemma session_addr_length: "length ss' = length ss \<Longrightarrow> session_addr c ss' = session_addr c ss"
  by (simp add: session_addr_def split: option.splits ctx_val.splits)

lemma ResetSession_length: "length (snd (ResetSession c i d ss)) = length ss"
  by (simp add: ResetSession_def split: option.splits)

lemma ReplaceSessionData_length: "length (snd (ReplaceSessionData c p ss)) = length ss"
  by (simp add: ReplaceSessionData_def split: option.splits sum.splits)

text \<open>
  Sessions are shared by reference: after \<open>ResetSession\<close> through one context, every context
  that points to the same session sees the new identifier and data, marked unmodified, and
  contexts that point to other sessions see no change. After \<open>ReplaceSessionData\<close> all of them see
  the new data, marked modified, under the old identifier. Both fail, the first by a panic,
  exactly when the context has no session.
\<close>

theorem sessions_shared_by_reference:
  "case session_addr c ss of
     None \<Rightarrow> ResetSession c i d ss = (Panic ''ResetSession called without an existing Session in the context'', ss)
       \<and> fst (ReplaceSessionData c (Inr p) ss) \<noteq> None \<and> snd (ReplaceSessionData c (Inr p) ss) = ss
   | Some a \<Rightarrow> fst (ResetSession c i d ss) = Ret () \<and> fst (ReplaceSessionData c (Inr p) ss) = None
       \<and> (\<forall>c'. ctx_Session c' (snd (ResetSession c i d ss)) =
             (if session_addr c' ss = Some a then (i, or_null d, False) else ctx_Session c' ss))
       \<and> (\<forall>c'. ctx_Session c' (snd (ReplaceSessionData c (Inr p) ss)) =
             (if session_addr c' ss = Some a then (SessionID c ss, p, True) else ctx_Session c' ss))"
proof (cases "session_addr c ss")
  case None
  then show ?thesis by (simp add: ResetSession_def ReplaceSessionData_def New_def)
next
  case (Some a)
  have len: "length (snd (ResetSession c i d ss)) = length ss" "length (snd (ReplaceSessionData c (Inr p) ss)) = length ss"
    by (simp_all add: ResetSession_length ReplaceSessionData_length)
  show ?thesis
    unfolding ctx_Session_def session_addr_length [OF len(1)] session_addr_length [OF len(2)]
    using session_addr_less [OF Some]
    by (auto simp: Some ResetSession_def ReplaceSessionData_def SessionID_def nth_list_update split: option.splits)
qed

end
