(* ===== verification/Acctmw.thy ===== *)
theory Acctmw
  imports Acctctx
begin

text \<open>
  Package \<^verbatim>\<open>acctmw\<close> (\<^verbatim>\<open>src/accounts/acctmw\<close>): the HTTP middleware for sessions, authorization,
  login, logout, registration and account deletion. A handler works on a world: the database, the
  session objects, the response writer and the random source. A middleware is a function from the
  wrapped handler to a handler. Not part of the repository, hence parameters: the password hash
  functions of \<^verbatim>\<open>argon2id\<close>, the error handler and the password validator of the application. What
  the decoder of parameters makes of a request before it calls \<open>Validate\<close> is a field of the
  request. Session data is JSON in the compact form that \<^verbatim>\<open>json.Marshal\<close> produces, on which marshaling
  a raw message is the identity; an empty string stands for a nil raw message.
\<close>

section \<open>The world of a request\<close>

record cookie =
  ck_Name :: string
  ck_Value :: string
  ck_Path :: string
  ck_MaxAge :: int
  ck_Expires :: "int option" \<comment> \<open>seconds since the epoch, none for the zero time\<close>
  ck_Secure :: bool
  ck_HttpOnly :: bool
  ck_SameSiteLax :: bool

text \<open>
  A response writer: the cookies in its header map, and what was sent when the header was
  written. Changes of the header map after that have no effect on the response.
\<close>

record response =
  rw_cookies :: "cookie list"
  rw_sent :: "(int \<times> cookie list) option"

definition SetCookie :: "cookie \<Rightarrow> response \<Rightarrow> response" where
  "SetCookie ck rw = rw\<lparr>rw_cookies := rw_cookies rw @ [ck]\<rparr>"

definition WriteHeader :: "int \<Rightarrow> response \<Rightarrow> response" where
  "WriteHeader code rw =
     (case rw_sent rw of None \<Rightarrow> rw\<lparr>rw_sent := Some (code, rw_cookies rw)\<rparr> | Some _ \<Rightarrow> rw)"

text \<open>The cookies that reach the client: when no header was written, one is on return.\<close>

definition sent_cookies :: "response \<Rightarrow> cookie list" where
  "sent_cookies rw = (case rw_sent rw of None \<Rightarrow> rw_cookies rw | Some (_, cks) \<Rightarrow> cks)"

record 'z world =
  w_db :: "'z accounts_db_scheme engine"
  w_sessions :: sessions
  w_rw :: response
  w_rnd :: "nat \<Rightarrow> nat \<Rightarrow> string" \<comment> \<open>the bytes of the k-th read of the random source\<close>
  w_draws :: nat

record loginInput =
  li_Email :: string
  li_Password :: string
  li_RememberMe :: bool

record registerInput =
  ri_Email :: string
  ri_Password :: string
  ri_Password2 :: string

record deleteInput =
  di_Password :: string

record request =
  req_ctx :: actx
  req_ssn :: "string option" \<comment> \<open>the session cookie\<close>
  req_login :: "loginInput res"
  req_register :: "registerInput res"
  req_delete :: "deleteInput res"
  req_none :: "unit res"

type_synonym 'z handler = "request \<Rightarrow> 'z world \<Rightarrow> unit outcome \<times> 'z world"

record 'z Accounts =
  am_RawTokenSize :: int
  am_PasswordValidator :: "(string \<Rightarrow> goerr option) option"
  am_AllowRememberMe :: bool
  am_ErrorHandler :: "request \<Rightarrow> goerr \<Rightarrow> 'z world \<Rightarrow> unit outcome \<times> 'z world"
  am_Argon2Params :: "nat option"
  am_SessionTokenType :: string
  am_DefaultParams :: nat
  am_CreateHash :: "(nat \<Rightarrow> string) \<Rightarrow> string \<Rightarrow> nat \<Rightarrow> string res"
  am_ComparePasswordAndHash :: "string \<Rightarrow> string \<Rightarrow> bool res"
  am_runtime :: "'z accounts_db_scheme engine runtime"
  am_uuidv7 :: "nat \<Rightarrow> uuid"

text \<open>Calls on the database; a call that reads the random source or makes an identifier takes the next draw.\<close>

definition on_db :: "('z accounts_db_scheme engine \<Rightarrow> 'r \<times> 'z accounts_db_scheme engine) \<Rightarrow> 'z world \<Rightarrow> 'r \<times> 'z world" where
  "on_db f w = (case f (w_db w) of (r, e) \<Rightarrow> (r, w\<lparr>w_db := e\<rparr>))"

definition draw :: "'z world \<Rightarrow> (nat \<Rightarrow> string) \<times> 'z world" where
  "draw w = (w_rnd w (w_draws w), w\<lparr>w_draws := Suc (w_draws w)\<rparr>)"

definition sessionTokenType :: "'z Accounts \<Rightarrow> string" where
  "sessionTokenType a = (if am_SessionTokenType a \<noteq> [] then am_SessionTokenType a else ''session'')"

definition argon2Params :: "'z Accounts \<Rightarrow> nat" where
  "argon2Params a = (case am_Argon2Params a of None \<Rightarrow> am_DefaultParams a | Some p \<Rightarrow> p)"

definition Hour :: int where "Hour = 3600 * Second"

definition shortSessionDuration :: int where "shortSessionDuration = 12 * Hour"
definition idleAnonymousSessionDuration :: int where "idleAnonymousSessionDuration = 30 * 60 * Second"
definition anonymousSessionDuration :: int where "anonymousSessionDuration = shortSessionDuration"
definition longSessionDuration :: int where "longSessionDuration = 30 * 24 * Hour"

section \<open>Errors and validation\<close>

datatype Action = ActionAuthorize | ActionDelete | ActionDeny | ActionLogin | ActionLogout | ActionRegister | ActionSession

fun action_text :: "Action \<Rightarrow> string" where
  "action_text ActionAuthorize = ''authorize''"
| "action_text ActionDelete = ''delete''"
| "action_text ActionDeny = ''deny''"
| "action_text ActionLogin = ''login''"
| "action_text ActionLogout = ''logout''"
| "action_text ActionRegister = ''register''"
| "action_text ActionSession = ''session''"

text \<open>\<^verbatim>\<open>errors.TagNew(msg, accounts.AccountsTag, kvpairs...)\<close>, never nil.\<close>

definition acct_error :: "string \<Rightarrow> string list \<Rightarrow> goerr" where
  "acct_error msg kvpairs = the (TagNew msg AccountsTag kvpairs)"

text \<open>\<^verbatim>\<open>errors.Tag(err, accounts.AccountsTag, kvpairs...)\<close> for an error that is not nil.\<close>

definition acct_tag :: "goerr \<Rightarrow> string list \<Rightarrow> goerr" where
  "acct_tag err kvpairs = the (Tag (Some err) AccountsTag kvpairs)"

definition validateEmail :: "string \<Rightarrow> Action \<Rightarrow> goerr option" where
  "validateEmail email act =
     (case go_Cut email (CHR ''@'') of
        (before, after, _) \<Rightarrow>
          if before = [] \<or> after = [] then
            (if email = []
             then Some (acct_error ''email is missing'' [''code'', ''400'', ''parameter'', ''email'', ''action'', action_text act])
             else Some (acct_error ''invalid email'' [''code'', ''400'', ''parameter'', ''email'', ''action'', action_text act]))
          else None)"

definition validatePassword :: "string \<Rightarrow> Action \<Rightarrow> goerr option" where
  "validatePassword pwd act =
     (if pwd = []
      then Some (acct_error ''password is missing'' [''code'', ''400'', ''parameter'', ''password'', ''action'', action_text act])
      else None)"

definition loginInput_Validate :: "loginInput \<Rightarrow> goerr option" where
  "loginInput_Validate i =
     (case validateEmail (li_Email i) ActionLogin of
        Some err \<Rightarrow> Some err
      | None \<Rightarrow> validatePassword (li_Password i) ActionLogin)"

definition registerInput_Validate :: "registerInput \<Rightarrow> goerr option" where
  "registerInput_Validate i =
     (case validateEmail (ri_Email i) ActionRegister of
        Some err \<Rightarrow> Some err
      | None \<Rightarrow>
          (case validatePassword (ri_Password i) ActionRegister of
             Some err \<Rightarrow> Some err
           | None \<Rightarrow>
               if ri_Password i \<noteq> ri_Password2 i
               then Some (acct_error ''passwords do not match''
                     [''code'', ''400'', ''parameter'', ''password2'', ''action'', action_text ActionRegister])
               else None))"

definition deleteInput_Validate :: "deleteInput \<Rightarrow> goerr option" where
  "deleteInput_Validate i = validatePassword (di_Password i) ActionLogin"

text \<open>The end of \<^verbatim>\<open>Decode\<close>: a decoded value that has a \<open>Validate\<close> method is validated.\<close>

definition decode_validate :: "('i \<Rightarrow> goerr option) \<Rightarrow> 'i res \<Rightarrow> 'i res" where
  "decode_validate validate raw =
     (case raw of
        Inl err \<Rightarrow> Inl err
      | Inr input \<Rightarrow> (case validate input of Some err \<Rightarrow> Inl err | None \<Rightarrow> Inr input))"

text \<open>How the middleware reports a decoding error.\<close>

definition decode_error :: "goerr \<Rightarrow> Action \<Rightarrow> goerr" where
  "decode_error err act =
     (if \<not> IsTag (Some err) AccountsTag then acct_tag err [''code'', ''400'', ''action'', action_text act] else err)"

section \<open>Authorization\<close>

definition AccessAnyone :: string where "AccessAnyone = ''?''"
definition AccessAuthenticated :: string where "AccessAuthenticated = ''*''"
definition AccessVerified :: string where "AccessVerified = ''@''"

definition authorize :: "'z Accounts \<Rightarrow> string list \<Rightarrow> bool \<Rightarrow> 'z handler \<Rightarrow> 'z handler" where
  "authorize a groups isDeny h r w =
     (let set' = (\<lambda>g. g \<in> set groups);
          action = (if isDeny then ActionDeny else ActionAuthorize);
          serve = h r w;
          deny = am_ErrorHandler a r (acct_error ''permission denied''
                   [''code'', go_Sprint 403, ''action'', action_text action]) w;
          isInGroup = (if isDeny then deny else serve);
          isNotInGroup = (if isDeny then serve else deny)
      in if groups = [] then isNotInGroup
         else if set' AccessAnyone then isInGroup
         else (case ctx_Account (req_ctx r) of
                 None \<Rightarrow> isNotInGroup
               | Some acct \<Rightarrow>
                   if set' AccessAuthenticated then isInGroup
                   else if acct_Verified acct \<noteq> None \<and> set' AccessVerified then isInGroup
                   else if list_ex set' (acct_Groups acct) then isInGroup
                   else isNotInGroup))"

definition Authorize :: "'z Accounts \<Rightarrow> string list \<Rightarrow> 'z handler \<Rightarrow> 'z handler" where
  "Authorize a groups = authorize a groups False"

definition Deny :: "'z Accounts \<Rightarrow> string list \<Rightarrow> 'z handler \<Rightarrow> 'z handler" where
  "Deny a groups = authorize a groups True"

section \<open>Cookies\<close>

definition session_cookie :: "string \<Rightarrow> int \<Rightarrow> cookie" where
  "session_cookie value maxAge = \<lparr>ck_Name = ''__Host-ssn'', ck_Value = value, ck_Path = ''/'', ck_MaxAge = maxAge,
     ck_Expires = None, ck_Secure = True, ck_HttpOnly = True, ck_SameSiteLax = True\<rparr>"

definition cleared_cookie :: cookie where
  "cleared_cookie = (session_cookie [] (- 1))\<lparr>ck_Expires := Some 0\<rparr>"

definition set_cookie :: "cookie \<Rightarrow> 'z world \<Rightarrow> 'z world" where
  "set_cookie ck w = w\<lparr>w_rw := SetCookie ck (w_rw w)\<rparr>"

text \<open>A middleware up to the call of the wrapped handler: it stops, or goes on with a request.\<close>

datatype 'r flow = Stop "unit outcome" | Next 'r

definition stop_error :: "'z Accounts \<Rightarrow> request \<Rightarrow> goerr \<Rightarrow> 'z world \<Rightarrow> 'r flow \<times> 'z world" where
  "stop_error a r err w = (case am_ErrorHandler a r err w of (out, w') \<Rightarrow> (Stop out, w'))"

definition reset_session :: "actx \<Rightarrow> string \<Rightarrow> string \<Rightarrow> 'z world \<Rightarrow> unit outcome \<times> 'z world" where
  "reset_session c ssnID ssnData w =
     (case ResetSession c ssnID ssnData (w_sessions w) of (out, ss) \<Rightarrow> (out, w\<lparr>w_sessions := ss\<rparr>))"

section \<open>Session\<close>

text \<open>The session token of the request; an invalid one is as if not present.\<close>

definition session_token :: "'z Accounts \<Rightarrow> request \<Rightarrow> 'z world \<Rightarrow> Token option flow \<times> 'z world" where
  "session_token a r w =
     (case req_ssn r of
        None \<Rightarrow> (Next None, w)
      | Some ssnTok \<Rightarrow>
          (case on_db (tokens_Verify (am_runtime a) (req_ctx r) ssnTok (Some (MustMatchType (sessionTokenType a)))) w of
             (Panic p, w1) \<Rightarrow> (Stop (Panic p), w1)
           | (Ret (Inr tok), w1) \<Rightarrow> (Next (Some tok), w1)
           | (Ret (Inl err), w1) \<Rightarrow>
               if Is (Some err) (ConstTarget ''invalid token'') then (Next None, w1) else stop_error a r err w1))"

text \<open>The identifier and data of the session and its account.\<close>

definition session_account :: "'z Accounts \<Rightarrow> request \<Rightarrow> Token option \<Rightarrow> 'z world
    \<Rightarrow> (string \<times> string \<times> Account option) flow \<times> 'z world" where
  "session_account a r tok w =
     (case tok of
        None \<Rightarrow> (Next ([], [], None), w)
      | Some tok \<Rightarrow>
          if tok_RefID tok = uuid_Nil then (Next (tok_Token tok, tok_Data tok, None), w)
          else
            (case on_db (ByID (req_ctx r) QConn (tok_RefID tok)) w of
               (Inr acct, w1) \<Rightarrow> (Next (tok_Token tok, tok_Data tok, Some acct), w1)
             | (Inl err, w1) \<Rightarrow>
                 if \<not> Is (Some err) (SentinelTarget ErrNoRows) then stop_error a r err w1
                 else (case on_db (tokens_DeleteByTypeRef (req_ctx r) (sessionTokenType a) (tok_RefID tok)) w1 of
                         (Inl err, w2) \<Rightarrow> stop_error a r err w2
                       | (Inr _, w2) \<Rightarrow> (Next ([], [], None), w2))))"

text \<open>The request that the wrapped handler gets.\<close>

definition session_request :: "request \<Rightarrow> string \<times> string \<times> Account option \<Rightarrow> 'z world \<Rightarrow> request \<times> 'z world" where
  "session_request r s w =
     (case s of (ssnID, ssnData, acct) \<Rightarrow>
        let c = (case acct of None \<Rightarrow> req_ctx r | Some x \<Rightarrow> WithAccount (req_ctx r) (Some x))
        in case WithSession c ssnID ssnData (w_sessions w) of
             (c', ss) \<Rightarrow> (r\<lparr>req_ctx := c'\<rparr>, w\<lparr>w_sessions := ss\<rparr>))"

definition session_load :: "'z Accounts \<Rightarrow> request \<Rightarrow> 'z world \<Rightarrow> request flow \<times> 'z world" where
  "session_load a r w =
     (case session_token a r w of
        (Stop out, w1) \<Rightarrow> (Stop out, w1)
      | (Next tok, w1) \<Rightarrow>
          (case session_account a r tok w1 of
             (Stop out, w2) \<Rightarrow> (Stop out, w2)
           | (Next s, w2) \<Rightarrow> (case session_request r s w2 of (r', w3) \<Rightarrow> (Next r', w3))))"

definition anonymous_args :: "'z Accounts \<Rightarrow> string \<Rightarrow> TokenArgs" where
  "anonymous_args a data = \<lparr>ta_Type = sessionTokenType a, ta_RefID = uuid_Nil, ta_SingleUse = False,
     ta_AbsoluteExpiry = anonymousSessionDuration, ta_IdleExpiry = idleAnonymousSessionDuration,
     ta_Data = Some (Inr (or_null data))\<rparr>"

definition generateNewAnonymousSession :: "'z Accounts \<Rightarrow> request \<Rightarrow> string \<Rightarrow> 'z world \<Rightarrow> request flow \<times> 'z world" where
  "generateNewAnonymousSession a r data w =
     (case draw w of (rnd, w1) \<Rightarrow>
        (case on_db (tokens_New (am_RawTokenSize a) rnd (req_ctx r) (anonymous_args a data)) w1 of
           (Inl err, w2) \<Rightarrow> stop_error a r err w2
         | (Inr (ssnTok, ssnData), w2) \<Rightarrow>
             (case WithSession (req_ctx r) ssnTok ssnData (w_sessions w2) of
                (c', ss) \<Rightarrow> (Next (r\<lparr>req_ctx := c'\<rparr>), set_cookie (session_cookie ssnTok 0) (w2\<lparr>w_sessions := ss\<rparr>)))))"

text \<open>After the wrapped handler: modified session data is saved.\<close>

definition session_save :: "'z Accounts \<Rightarrow> request \<Rightarrow> 'z world \<Rightarrow> unit outcome \<times> 'z world" where
  "session_save a r w =
     (case ctx_Session (req_ctx r) (w_sessions w) of (ssnID, ssnData, isDirty) \<Rightarrow>
        if \<not> isDirty then (Ret (), w)
        else if ssnID = [] then
          (case generateNewAnonymousSession a r ssnData w of
             (Stop out, w1) \<Rightarrow> (out, w1)
           | (Next _, w1) \<Rightarrow> (Ret (), w1))
        else
          (case on_db (tokens_UpdateData (req_ctx r) ssnID ssnData) w of
             (Inl err, w1) \<Rightarrow> am_ErrorHandler a r err w1
           | (Inr _, w1) \<Rightarrow> (Ret (), w1)))"

definition Session :: "'z Accounts \<Rightarrow> 'z handler \<Rightarrow> 'z handler" where
  "Session a h r w =
     (case session_load a r w of
        (Stop out, w1) \<Rightarrow> (out, w1)
      | (Next r', w1) \<Rightarrow>
          (case h r' w1 of
             (Panic p, w2) \<Rightarrow> (Panic p, w2)
           | (Ret _, w2) \<Rightarrow> session_save a r' w2))"

section \<open>Login\<close>

definition authenticatedSessionDurations :: "bool \<Rightarrow> int \<times> int" where
  "authenticatedSessionDurations rememberMe =
     (if rememberMe then (longSessionDuration, duration_seconds longSessionDuration) else (shortSessionDuration, 0))"

definition invalid_login :: goerr where
  "invalid_login = acct_error ''invalid email or password''
     [''code'', ''400'', ''parameter'', ''password'', ''action'', action_text ActionLogin]"

text \<open>The hash check on a fixed hash, made for its duration only, has no other effect.\<close>

definition login :: "'z Accounts \<Rightarrow> actx \<Rightarrow> string \<Rightarrow> string \<Rightarrow> 'z world \<Rightarrow> Account res \<times> 'z world" where
  "login a c email password w =
     (case on_db (ByEmail c QConn email) w of
        (Inl err, w1) \<Rightarrow>
          if Is (Some err) (SentinelTarget ErrNoRows) then (Inl invalid_login, w1) else (Inl err, w1)
      | (Inr acct, w1) \<Rightarrow>
          (case am_ComparePasswordAndHash a password (acct_Password acct) of
             Inl err \<Rightarrow> (Inl err, w1)
           | Inr ok \<Rightarrow> if \<not> ok then (Inl invalid_login, w1) else (Inr acct, w1)))"

text \<open>The deletion of the previous session of an account, and whether a new one is made, with its data.\<close>

definition login_previous :: "'z Accounts \<Rightarrow> request \<Rightarrow> 'z world \<Rightarrow> (bool \<times> string) flow \<times> 'z world" where
  "login_previous a r w =
     (let c = req_ctx r; oldSessionID = SessionID c (w_sessions w) in
      case ctx_Account c of
        Some oldAcct \<Rightarrow>
          if oldSessionID \<noteq> [] then
            (case on_db (tokens_Delete c oldSessionID) w of
               (Inl err, w1) \<Rightarrow> stop_error a r err w1
             | (Inr _, w1) \<Rightarrow> (Next (True, []), w1))
          else (Next (True, []), w)
      | None \<Rightarrow>
          (case ctx_Session c (w_sessions w) of (_, data, _) \<Rightarrow> (Next (oldSessionID = [], data), w)))"

definition login_args :: "'z Accounts \<Rightarrow> string \<Rightarrow> uuid \<Rightarrow> int \<Rightarrow> string \<Rightarrow> TokenArgs" where
  "login_args a typ refid expiry data = \<lparr>ta_Type = typ, ta_RefID = refid, ta_SingleUse = False,
     ta_AbsoluteExpiry = expiry, ta_IdleExpiry = 0, ta_Data = Some (Inr (or_null data))\<rparr>"

text \<open>The new session: a new token, or the token of the anonymous session rotated.\<close>

definition login_session :: "'z Accounts \<Rightarrow> request \<Rightarrow> Account \<Rightarrow> int \<Rightarrow> bool \<Rightarrow> string \<Rightarrow> 'z world
    \<Rightarrow> (string \<times> string) flow \<times> 'z world" where
  "login_session a r acct expiry createNewSession sessionData w =
     (case draw w of (rnd, w1) \<Rightarrow>
        if createNewSession then
          (case on_db (tokens_New (am_RawTokenSize a) rnd (req_ctx r)
                  (login_args a (sessionTokenType a) (acct_ID acct) expiry sessionData)) w1 of
             (Inl err, w2) \<Rightarrow> stop_error a r err w2
           | (Inr (newSessionID, data), w2) \<Rightarrow> (Next (newSessionID, data), w2))
        else
          (case on_db (tokens_Rotate (am_RawTokenSize a) rnd (req_ctx r) (SessionID (req_ctx r) (w_sessions w1))
                  (login_args a [] (acct_ID acct) expiry sessionData)) w1 of
             (Inl err, w2) \<Rightarrow> stop_error a r err w2
           | (Inr newSessionID, w2) \<Rightarrow> (Next (newSessionID, sessionData), w2)))"

definition login_finish :: "request \<Rightarrow> Account \<Rightarrow> int \<Rightarrow> string \<Rightarrow> string \<Rightarrow> 'z world \<Rightarrow> request flow \<times> 'z world" where
  "login_finish r acct maxAge newSessionID sessionData w =
     (case reset_session (req_ctx r) newSessionID sessionData w of
        (Panic p, w1) \<Rightarrow> (Stop (Panic p), w1)
      | (Ret _, w1) \<Rightarrow>
          (Next (r\<lparr>req_ctx := WithAccount (req_ctx r) (Some acct)\<rparr>), set_cookie (session_cookie newSessionID maxAge) w1))"

definition login_flow :: "'z Accounts \<Rightarrow> request \<Rightarrow> 'z world \<Rightarrow> request flow \<times> 'z world" where
  "login_flow a r w =
     (case decode_validate loginInput_Validate (req_login r) of
        Inl err \<Rightarrow> stop_error a r (decode_error err ActionLogin) w
      | Inr input \<Rightarrow>
          if li_RememberMe input \<and> \<not> am_AllowRememberMe a then
            stop_error a r (acct_error ''invalid parameter''
              [''code'', go_Sprint 400, ''parameter'', ''remember_me'', ''action'', action_text ActionLogin]) w
          else
            (case login a (req_ctx r) (li_Email input) (li_Password input) w of
               (Inl err, w1) \<Rightarrow> stop_error a r err w1
             | (Inr acct, w1) \<Rightarrow>
                 (case authenticatedSessionDurations (li_RememberMe input) of (expiry, maxAge) \<Rightarrow>
                    (case login_previous a r w1 of
                       (Stop out, w2) \<Rightarrow> (Stop out, w2)
                     | (Next (createNewSession, sessionData), w2) \<Rightarrow>
                         (case login_session a r acct expiry createNewSession sessionData w2 of
                            (Stop out, w3) \<Rightarrow> (Stop out, w3)
                          | (Next (newSessionID, sessionData), w3) \<Rightarrow>
                              login_finish r acct maxAge newSessionID sessionData w3)))))"

text \<open>A middleware that ends with the wrapped handler.\<close>

definition serve :: "request flow \<times> 'z world \<Rightarrow> 'z handler \<Rightarrow> unit outcome \<times> 'z world" where
  "serve fw h = (case fw of (Stop out, w) \<Rightarrow> (out, w) | (Next r, w) \<Rightarrow> h r w)"

definition Login :: "'z Accounts \<Rightarrow> 'z handler \<Rightarrow> 'z handler" where
  "Login a h r w = serve (login_flow a r w) h"

section \<open>Logout\<close>

definition logout :: "actx \<Rightarrow> string \<Rightarrow> 'z world \<Rightarrow> unit res \<times> 'z world" where
  "logout c ssnID w = on_db (tokens_Delete c ssnID) w"

definition logout_flow :: "'z Accounts \<Rightarrow> request \<Rightarrow> 'z world \<Rightarrow> request flow \<times> 'z world" where
  "logout_flow a r w =
     (case req_none r of
        Inl err \<Rightarrow> stop_error a r (decode_error err ActionLogout) w
      | Inr _ \<Rightarrow>
          let ssnID = SessionID (req_ctx r) (w_sessions w) in
          if ssnID = [] \<or> ctx_Account (req_ctx r) = None then
            stop_error a r (acct_error ''permission denied''
              [''code'', go_Sprint 403, ''action'', action_text ActionLogout]) w
          else
            (case logout (req_ctx r) ssnID w of
               (Inl err, w1) \<Rightarrow> stop_error a r err w1
             | (Inr _, w1) \<Rightarrow>
                 (case reset_session (req_ctx r) [] [] w1 of
                    (Panic p, w2) \<Rightarrow> (Stop (Panic p), w2)
                  | (Ret _, w2) \<Rightarrow>
                      (Next (r\<lparr>req_ctx := WithAccount (req_ctx r) None\<rparr>), set_cookie cleared_cookie w2))))"

definition Logout :: "'z Accounts \<Rightarrow> 'z handler \<Rightarrow> 'z handler" where
  "Logout a h r w = serve (logout_flow a r w) h"

section \<open>Register\<close>

definition register :: "'z Accounts \<Rightarrow> actx \<Rightarrow> string \<Rightarrow> string \<Rightarrow> 'z world \<Rightarrow> goerr option \<times> 'z world" where
  "register a c email password w =
     (case draw w of (rnd, w1) \<Rightarrow>
        (case am_CreateHash a rnd password (argon2Params a) of
           Inl err \<Rightarrow> (Some err, w1)
         | Inr hashedPwd \<Rightarrow>
             (case on_db (Create (am_uuidv7 a (w_draws w1)) c QConn email hashedPwd) w1 of
                (Inl err, w2) \<Rightarrow>
                  (if IsTag (Some err) AccountsTag then WithKeyValue (Some err) ''action'' (action_text ActionRegister)
                   else Some err, w2)
              | (Inr _, w2) \<Rightarrow> (None, w2))))"

definition register_flow :: "'z Accounts \<Rightarrow> request \<Rightarrow> 'z world \<Rightarrow> request flow \<times> 'z world" where
  "register_flow a r w =
     (case decode_validate registerInput_Validate (req_register r) of
        Inl err \<Rightarrow> stop_error a r (decode_error err ActionRegister) w
      | Inr input \<Rightarrow>
          (case (case am_PasswordValidator a of None \<Rightarrow> None | Some f \<Rightarrow> f (ri_Password input)) of
             Some err \<Rightarrow> stop_error a r (acct_tag err [''code'', ''400'', ''action'', action_text ActionRegister]) w
           | None \<Rightarrow>
               (case register a (req_ctx r) (ri_Email input) (ri_Password input) w of
                  (Some err, w1) \<Rightarrow> stop_error a r err w1
                | (None, w1) \<Rightarrow> (Next r, w1))))"

definition Register :: "'z Accounts \<Rightarrow> 'z handler \<Rightarrow> 'z handler" where
  "Register a h r w = serve (register_flow a r w) h"

section \<open>Delete\<close>

definition delete_tx :: "'z Accounts \<Rightarrow> uuid \<Rightarrow> (Account, 'z accounts_db_scheme engine, unit) tx_fn" where
  "delete_tx a acctID c tx e =
     (case Delete c QConn acctID e of
        (Inl err, e1) \<Rightarrow> (Ret (Inl err), e1)
      | (Inr _, e1) \<Rightarrow>
          (case tokens_DeleteByTypeRef c (sessionTokenType a) acctID e1 of
             (Inl err, e2) \<Rightarrow> (Ret (Inl err), e2)
           | (Inr _, e2) \<Rightarrow> (Ret (Inr ()), e2)))"

definition delete_account :: "'z Accounts \<Rightarrow> actx \<Rightarrow> uuid \<Rightarrow> string \<Rightarrow> string \<Rightarrow> 'z world
    \<Rightarrow> unit res outcome \<times> 'z world" where
  "delete_account a c acctID password passwordHash w =
     (case am_ComparePasswordAndHash a password passwordHash of
        Inl err \<Rightarrow> (Ret (Inl err), w)
      | Inr ok \<Rightarrow>
          if \<not> ok then
            (Ret (Inl (acct_error ''invalid password''
               [''code'', ''400'', ''parameter'', ''password'', ''action'', action_text ActionDelete])), w)
          else on_db (EnsureTx engine_driver (am_runtime a) c (delete_tx a acctID)) w)"

definition delete_flow :: "'z Accounts \<Rightarrow> request \<Rightarrow> 'z world \<Rightarrow> request flow \<times> 'z world" where
  "delete_flow a r w =
     (case decode_validate deleteInput_Validate (req_delete r) of
        Inl err \<Rightarrow> stop_error a r (decode_error err ActionDelete) w
      | Inr input \<Rightarrow>
          (case ctx_Account (req_ctx r) of
             None \<Rightarrow> stop_error a r (acct_error ''permission denied''
               [''code'', go_Sprint 403, ''action'', action_text ActionDelete]) w
           | Some acct \<Rightarrow>
               (case delete_account a (req_ctx r) (acct_ID acct) (di_Password input) (acct_Password acct) w of
                  (Panic p, w1) \<Rightarrow> (Stop (Panic p), w1)
                | (Ret (Inl err), w1) \<Rightarrow> stop_error a r err w1
                | (Ret (Inr _), w1) \<Rightarrow>
                    (case reset_session (req_ctx r) [] [] (set_cookie cleared_cookie w1) of
                       (Panic p, w2) \<Rightarrow> (Stop (Panic p), w2)
                     | (Ret _, w2) \<Rightarrow> (Next r, w2)))))"

definition DeleteAccount :: "'z Accounts \<Rightarrow> 'z handler \<Rightarrow> 'z handler" where
  "DeleteAccount a h r w = serve (delete_flow a r w) h"

section \<open>Access control\<close>

text \<open>What the groups of a rule grant, as documented.\<close>

definition allowed :: "string list \<Rightarrow> Account option \<Rightarrow> bool" where
  "allowed groups acct \<longleftrightarrow> AccessAnyone \<in> set groups \<or>
     (\<exists>x. acct = Some x \<and> (AccessAuthenticated \<in> set groups
        \<or> (acct_Verified x \<noteq> None \<and> AccessVerified \<in> set groups)
        \<or> set (acct_Groups x) \<inter> set groups \<noteq> {}))"

definition permission_denied :: "Action \<Rightarrow> goerr" where
  "permission_denied act = acct_error ''permission denied'' [''code'', go_Sprint 403, ''action'', action_text act]"

lemma authorize_rule:
  "Authorize a groups h r w =
     (if allowed groups (ctx_Account (req_ctx r)) then h r w
      else am_ErrorHandler a r (permission_denied ActionAuthorize) w)"
  "Deny a groups h r w =
     (if allowed groups (ctx_Account (req_ctx r)) then am_ErrorHandler a r (permission_denied ActionDeny) w
      else h r w)"
  by (auto simp: Authorize_def Deny_def authorize_def allowed_def permission_denied_def Let_def list_ex_iff
      split: option.splits)

text \<open>
  C7. \<open>Authorize\<close> and \<open>Deny\<close> decide exactly by the documented meaning of the groups, the three
  special ones included, and are complementary: of the two, exactly one serves the request with
  the wrapped handler, and the other one only calls the error handler with a forbidden error.
\<close>

theorem authorize_exact:
  "Authorize a groups h r w =
     (if allowed groups (ctx_Account (req_ctx r)) then h r w
      else am_ErrorHandler a r (permission_denied ActionAuthorize) w)
   \<and> Deny a groups h r w =
     (if allowed groups (ctx_Account (req_ctx r)) then am_ErrorHandler a r (permission_denied ActionDeny) w
      else h r w)"
  by (simp add: authorize_rule)

text \<open>
  The special groups cannot be joined: in a well-formed database no group has a name of one
  character, so a rule made of special groups grants access by the state of the account alone.
\<close>

theorem special_groups_not_joinable:
  assumes "accounts_ok d" "acct = account_of d row" "set groups \<subseteq> {AccessAuthenticated, AccessVerified}" "groups \<noteq> []"
  shows "allowed groups (Some acct) \<longleftrightarrow> AccessAuthenticated \<in> set groups \<or> acct_Verified acct \<noteq> None"
proof -
  have name: "chk_name_length n" if "n \<in> set (acct_Groups acct)" for n
    using assms(1,2) that by (auto simp: account_of_def groups_of_set accounts_ok_def list_all_iff)
  have "\<not> chk_name_length AccessAuthenticated" "\<not> chk_name_length AccessVerified"
    by (simp_all add: chk_name_length_def AccessAuthenticated_def AccessVerified_def pg_length_def continues_char_def)
  with name assms(3) have none: "set (acct_Groups acct) \<inter> set groups = {}" by auto
  from assms(3,4) have "AccessAuthenticated \<in> set groups \<or> AccessVerified \<in> set groups"
    by (cases groups) auto
  moreover from assms(3) have "AccessAnyone \<notin> set groups"
    by (auto simp: AccessAnyone_def AccessAuthenticated_def AccessVerified_def)
  ultimately show ?thesis using none by (auto simp: allowed_def)
qed

section \<open>Requests that reach the database\<close>

lemma on_db_eq: "on_db f w = (r, w') \<longleftrightarrow> (\<exists>e. f (w_db w) = (r, e) \<and> w' = w\<lparr>w_db := e\<rparr>)"
  by (auto simp: on_db_def split: prod.splits)

lemma ByEmail_pool:
  assumes "faults e = []" "getCtxTx c = None" "accounts_ok (contents e)"
  shows "ByEmail c QConn email e =
    (case find (\<lambda>a. ar_email a = email) (accounts_accounts (contents e)) of
       None \<Rightarrow> Inl (Errorf_w ''not found: '' (Sentinel ErrNoRows))
     | Some row \<Rightarrow> Inr (account_of (contents e) row), e)"
proof -
  have "filter (\<lambda>a. ar_email a = email) as = (case find (\<lambda>a. ar_email a = email) as of None \<Rightarrow> [] | Some x \<Rightarrow> [x])"
    if "distinct (map ar_email as)" for as :: "account_row list"
    using that by (induction as) (auto simp: filter_empty_conv find_Some_iff split: option.splits)
  with assms show ?thesis
    by (simp add: ByEmail_def EnsureQueryer_def QueryOne_QConn_no_fault selectAccount_sql_def accounts_ok_def
        split: option.splits)
qed

lemma ByID_pool:
  assumes "faults e = []" "getCtxTx c = None" "accounts_ok (contents e)"
  shows "ByID c QConn aid e =
    (case find (\<lambda>a. ar_id a = aid) (accounts_accounts (contents e)) of
       None \<Rightarrow> Inl (Errorf_w ''not found: '' (Sentinel ErrNoRows))
     | Some row \<Rightarrow> Inr (account_of (contents e) row), e)"
proof -
  have "filter (\<lambda>a. ar_id a = aid) as = (case find (\<lambda>a. ar_id a = aid) as of None \<Rightarrow> [] | Some x \<Rightarrow> [x])"
    if "distinct (map ar_id as)" for as :: "account_row list"
    using that by (induction as) (auto simp: filter_empty_conv find_Some_iff split: option.splits)
  with assms show ?thesis
    by (simp add: ByID_def EnsureQueryer_def QueryOne_QConn_no_fault selectAccount_sql_def accounts_ok_def
        split: option.splits)
qed

text \<open>
  A failed login does not tell whether the account exists: on a working database an unknown
  email, and a wrong password for a known email, give the same error and the same unchanged
  world. A login returns an account only when the hash check accepts the password.
\<close>

theorem login_exact:
  assumes "faults (w_db w) = []" "getCtxTx c = None" "accounts_ok (contents (w_db w))"
    and "\<And>p h. \<exists>b. am_ComparePasswordAndHash a p h = Inr b"
  shows "login a c email password w =
    (case find (\<lambda>x. ar_email x = email) (accounts_accounts (contents (w_db w))) of
       None \<Rightarrow> Inl invalid_login
     | Some row \<Rightarrow>
         if am_ComparePasswordAndHash a password (ar_password row) = Inr True
         then Inr (account_of (contents (w_db w)) row) else Inl invalid_login, w)"
proof (cases "find (\<lambda>x. ar_email x = email) (accounts_accounts (contents (w_db w)))")
  case None
  with ByEmail_pool [OF assms(1-3)] show ?thesis by (simp add: login_def on_db_def)
next
  case (Some row)
  obtain b where "am_ComparePasswordAndHash a password (ar_password row) = Inr b" using assms(4) by blast
  with Some ByEmail_pool [OF assms(1-3)] show ?thesis
    by (simp add: login_def on_db_def account_of_def)
qed

text \<open>
  The validation of a delete request reports the action of a login request: a missing
  password gives an error that carries the action of login, although the middleware reports
  every other error of the request with the action of delete.
\<close>

theorem delete_validation_reports_login:
  assumes "deleteInput_Validate i = Some err"
  shows "KeyValue (Some (decode_error err ActionDelete)) ''action'' = action_text ActionLogin"
  using assms
  by (auto simp: deleteInput_Validate_def validatePassword_def acct_error_def TagNew_def New_def decode_error_def
      KeyValue.simps IsTag.simps split: if_splits)

section \<open>Sessions of a login\<close>

lemma reset_session_ok:
  assumes "reset_session c i d w = (Ret u, w')"
  shows "\<exists>ss. w' = w\<lparr>w_sessions := ss\<rparr> \<and> ctx_Session c ss = (i, or_null d, False) \<and> SessionID c ss = i
    \<and> length ss = length (w_sessions w)"
proof -
  let ?ssn = "\<lparr>ssn_id = i, ssn_data = or_null d, ssn_dirty = False\<rparr>"
  from assms obtain x where x: "session_addr c (w_sessions w) = Some x" "w' = w\<lparr>w_sessions := (w_sessions w)[x := ?ssn]\<rparr>"
    by (auto simp: reset_session_def ResetSession_def split: option.splits)
  have "session_addr c ((w_sessions w)[x := ?ssn]) = Some x"
    using x(1) session_addr_length [of "(w_sessions w)[x := ?ssn]" "w_sessions w" c] by simp
  with session_addr_less [OF x(1)] x(2) show ?thesis
    by (intro exI [of _ "(w_sessions w)[x := ?ssn]"]) (simp add: ctx_Session_def SessionID_def)
qed

lemma login_Inr:
  assumes "faults (w_db w) = []" "getCtxTx c = None" "accounts_ok (contents (w_db w))"
    and "login a c email pwd w = (Inr acct, w1)"
  shows "w1 = w \<and> am_ComparePasswordAndHash a pwd (acct_Password acct) = Inr True \<and> acct_Email acct = email
    \<and> acct \<in> account_of (contents (w_db w)) ` set (accounts_accounts (contents (w_db w)))"
  using assms(4) ByEmail_pool [OF assms(1-3), of email]
  by (auto simp: login_def on_db_def account_of_def find_Some_iff split: option.splits sum.splits if_splits)

text \<open>What the steps of a login keep of the world.\<close>

definition same_request :: "'z world \<Rightarrow> 'z world \<Rightarrow> bool" where
  "same_request w w' \<longleftrightarrow> w_sessions w' = w_sessions w \<and> w_rw w' = w_rw w \<and> faults (w_db w') = [] \<and> now (w_db w') = now (w_db w)"

lemma login_previous_pool:
  assumes "faults (w_db w) = []" "getCtxTx (req_ctx r) = None" "db_ok (contents (w_db w))"
    and "login_previous a r w = (Next (new, data), w1)"
  shows "same_request w w1 \<and> w_rnd w1 = w_rnd w \<and> w_draws w1 = w_draws w \<and> db_ok (contents (w_db w1))
    \<and> (new \<longrightarrow> SessionID (req_ctx r) (w_sessions w) \<noteq> [] \<longrightarrow> absent (SessionID (req_ctx r) (w_sessions w)) (contents (w_db w1)))
    \<and> (\<not> new \<longrightarrow> w1 = w \<and> SessionID (req_ctx r) (w_sessions w) \<noteq> [])"
proof -
  let ?old = "SessionID (req_ctx r) (w_sessions w)"
  note del = tokens_Delete_pool [OF assms(1,2), of ?old]
  have ok: "db_ok ((contents (w_db w))\<lparr>tokens_tokens := filter (\<lambda>r. tr_token r \<noteq> ?old) (tokens_tokens (contents (w_db w)))\<rparr>)"
    using assms(3) by (auto simp: db_ok_def tokens_inv_def accounts_ok_def intro: table_ok_filter)
  show ?thesis
  proof (cases "ctx_Account (req_ctx r)")
    case None
    with assms show ?thesis
      by (auto simp: login_previous_def Let_def same_request_def split: prod.splits)
  next
    case (Some acct)
    with assms del ok show ?thesis
      by (auto simp: login_previous_def Let_def same_request_def absent_def on_db_def split: if_splits)
  qed
qed

lemma login_session_new:
  assumes "faults (w_db w) = []" "getCtxTx (req_ctx r) = None" "db_ok (contents (w_db w))"
    and "login_session a r acct expiry True data w = (Next (ssn, data'), w1)"
  obtains x where "x \<in> set (tokens_tokens (contents (w_db w1)))" "tr_token x = ssn" "tr_type x = sessionTokenType a"
    "tr_ref_id x = acct_ID acct" "\<not> tr_single_use x" "tr_idle x = None"
    "tr_expiry x = now (w_db w) + duration_seconds expiry * pg_second" "same_request w w1"
    "\<And>t. absent t (contents (w_db w)) \<Longrightarrow> t \<noteq> ssn \<Longrightarrow> absent t (contents (w_db w1))"
    "ssn = generateNewToken (am_RawTokenSize a) (w_rnd w (w_draws w))"
proof -
  let ?args = "login_args a (sessionTokenType a) (acct_ID acct) expiry data"
  from assms(4) obtain e1 where new: "tokens_New (am_RawTokenSize a) (w_rnd w (w_draws w)) (req_ctx r) ?args (w_db w) = (Inr (ssn, data'), e1)"
    and w1: "w1 = w\<lparr>w_draws := Suc (w_draws w), w_db := e1\<rparr>"
    by (auto simp: login_session_def draw_def on_db_def stop_error_def split: sum.splits prod.splits)
  from tokens_New_pool [OF assms(1,2) new] have f: "faults e1 = []" "now e1 = now (w_db w)"
    "ssn = generateNewToken (am_RawTokenSize a) (w_rnd w (w_draws w))" and ins:
    "insertToken_sql ssn (sessionTokenType a) False (acct_ID acct) (duration_seconds expiry) None data'
       (now (w_db w)) (contents (w_db w)) = Inr ((), contents e1)"
    by (auto simp: login_args_def)
  from assms(3) have inv: "tokens_inv (contents (w_db w))" by (simp add: db_ok_def)
  obtain x where x: "x \<in> set (tokens_tokens (contents e1))" "tr_token x = ssn" "tr_type x = sessionTokenType a"
    "tr_ref_id x = acct_ID acct" "\<not> tr_single_use x" "tr_idle x = None"
    "tr_expiry x = now (w_db w) + duration_seconds expiry * pg_second"
    by (rule after_insert [OF inv ins]) auto
  have "absent t (contents e1)" if "absent t (contents (w_db w))" "t \<noteq> ssn" for t
    using absent_stmts(1) [of ssn t] that ins unfolding stmt_keeps_def by metis
  with x f w1 show thesis by (intro that [of x]) (auto simp: same_request_def)
qed

lemma login_session_rotate:
  assumes "faults (w_db w) = []" "getCtxTx (req_ctx r) = None" "db_ok (contents (w_db w))"
    and "login_session a r acct expiry False data w = (Next (ssn, data'), w1)"
    and "row \<in> set (tokens_tokens (contents (w_db w)))" "tr_token row = SessionID (req_ctx r) (w_sessions w)"
      "\<not> tr_single_use row" "tr_type row = sessionTokenType a"
    and "generateNewToken (am_RawTokenSize a) (w_rnd w (w_draws w)) \<noteq> SessionID (req_ctx r) (w_sessions w)"
  obtains x where "x \<in> set (tokens_tokens (contents (w_db w1)))" "tr_token x = ssn" "tr_type x = sessionTokenType a"
    "tr_ref_id x = acct_ID acct" "\<not> tr_single_use x" "tr_idle x = None"
    "tr_expiry x = now (w_db w) + duration_seconds expiry * pg_second" "same_request w w1"
    "absent (SessionID (req_ctx r) (w_sessions w)) (contents (w_db w1))"
proof -
  let ?args = "login_args a [] (acct_ID acct) expiry data" and ?old = "SessionID (req_ctx r) (w_sessions w)"
  from assms(4) obtain e1 where rot: "tokens_Rotate (am_RawTokenSize a) (w_rnd w (w_draws w)) (req_ctx r) ?old ?args (w_db w) = (Inr ssn, e1)"
    and w1: "w1 = w\<lparr>w_draws := Suc (w_draws w), w_db := e1\<rparr>"
    by (auto simp: login_session_def draw_def on_db_def stop_error_def split: sum.splits prod.splits)
  have ssn: "ssn = generateNewToken (am_RawTokenSize a) (w_rnd w (w_draws w))"
    by (rule tokens_Rotate_pool [OF assms(1,2) rot])
  from assms(3) have inv: "tokens_inv (contents (w_db w))" by (simp add: db_ok_def)
  from assms(5-7) have hit: "list_ex (\<lambda>r. tr_token r = ?old \<and> \<not> tr_single_use r) (tokens_tokens (contents (w_db w)))"
    by (auto simp: list_ex_iff)
  from Rotate_pool_effect [OF assms(1,2) inv rot] ssn assms(9) hit obtain y x where y: "y \<in> set (tokens_tokens (contents (w_db w)))"
      "tr_token y = ?old" and x: "x \<in> set (tokens_tokens (contents e1))" "tr_token x = ssn" "tr_type x = tr_type y"
      "tr_ref_id x = acct_ID acct" "\<not> tr_single_use x" "tr_idle x = None"
      "tr_expiry x = now (w_db w) + duration_seconds expiry * pg_second" and gone: "absent ?old (contents e1)"
    by (auto simp: login_args_def)
  from y assms(5,6) inv distinct_map_eq [of tr_token "tokens_tokens (contents (w_db w))" y row] have "y = row"
    by (simp add: tokens_inv_def table_ok_def)
  moreover have "faults e1 = [] \<and> now e1 = now (w_db w)"
    using rot assms(1,2) by (auto simp: tokens_Rotate_def EnsureQueryer_def Let_def Exec_def run_stmt_QConn_no_fault
        split: option.splits sum.splits prod.splits)
  ultimately show thesis using x gone w1 assms(8) by (intro that [of x]) (auto simp: same_request_def)
qed

text \<open>
  A login that goes on to the wrapped handler, taken apart: the decoded input, the account, the
  decision about the previous session, the new session and the final step.
\<close>

lemma login_flow_Next:
  assumes "login_flow a r w = (Next r', w')"
  obtains input acct w1 new data w2 ssn data' w3 where
    "decode_validate loginInput_Validate (req_login r) = Inr input" "li_RememberMe input \<longrightarrow> am_AllowRememberMe a"
    "login a (req_ctx r) (li_Email input) (li_Password input) w = (Inr acct, w1)"
    "login_previous a r w1 = (Next (new, data), w2)"
    "login_session a r acct (fst (authenticatedSessionDurations (li_RememberMe input))) new data w2 = (Next (ssn, data'), w3)"
    "login_finish r acct (snd (authenticatedSessionDurations (li_RememberMe input))) ssn data' w3 = (Next r', w')"
  using assms
  by (auto simp: login_flow_def stop_error_def split: sum.splits prod.splits if_splits flow.splits)

lemma login_establishes:
  assumes "faults (w_db w) = []" "getCtxTx (req_ctx r) = None" "db_ok (contents (w_db w))"
    and saved: "SessionID (req_ctx r) (w_sessions w) \<noteq> [] \<longrightarrow> (\<exists>row \<in> set (tokens_tokens (contents (w_db w))).
      tr_token row = SessionID (req_ctx r) (w_sessions w) \<and> \<not> tr_single_use row \<and> tr_type row = sessionTokenType a)"
    and fresh: "generateNewToken (am_RawTokenSize a) (w_rnd w (w_draws w)) \<noteq> SessionID (req_ctx r) (w_sessions w)"
    and run: "login_flow a r w = (Next r', w')"
  shows "\<exists>input acct x. req_login r = Inr input \<and> ctx_Account (req_ctx r') = Some acct
    \<and> acct_Email acct = li_Email input \<and> am_ComparePasswordAndHash a (li_Password input) (acct_Password acct) = Inr True
    \<and> x \<in> set (tokens_tokens (contents (w_db w'))) \<and> tr_token x = SessionID (req_ctx r') (w_sessions w')
    \<and> tr_type x = sessionTokenType a \<and> tr_ref_id x = acct_ID acct \<and> \<not> tr_single_use x \<and> tr_idle x = None
    \<and> tr_expiry x = now (w_db w) + (if li_RememberMe input then 30 * 24 else 12) * 3600 * pg_second
    \<and> rw_cookies (w_rw w') = rw_cookies (w_rw w) @ [session_cookie (tr_token x) (if li_RememberMe input then 2592000 else 0)]
    \<and> (SessionID (req_ctx r) (w_sessions w) \<noteq> [] \<longrightarrow> absent (SessionID (req_ctx r) (w_sessions w)) (contents (w_db w')))"
proof -
  let ?old = "SessionID (req_ctx r) (w_sessions w)"
  obtain input acct w1 new data w2 ssn data' w3 where
    dec: "decode_validate loginInput_Validate (req_login r) = Inr input"
    and log: "login a (req_ctx r) (li_Email input) (li_Password input) w = (Inr acct, w1)"
    and prev: "login_previous a r w1 = (Next (new, data), w2)"
    and ssn: "login_session a r acct (fst (authenticatedSessionDurations (li_RememberMe input))) new data w2 = (Next (ssn, data'), w3)"
    and fin: "login_finish r acct (snd (authenticatedSessionDurations (li_RememberMe input))) ssn data' w3 = (Next r', w')"
    by (rule login_flow_Next [OF run])
  from assms(3) have "accounts_ok (contents (w_db w))" by (simp add: db_ok_def)
  from login_Inr [OF assms(1,2) this log] have l: "w1 = w"
    "am_ComparePasswordAndHash a (li_Password input) (acct_Password acct) = Inr True" "acct_Email acct = li_Email input" by auto
  from login_previous_pool [OF assms(1-3) prev [unfolded l(1)]] have p: "same_request w w2" "w_rnd w2 = w_rnd w"
    "w_draws w2 = w_draws w" "db_ok (contents (w_db w2))" "new \<longrightarrow> ?old \<noteq> [] \<longrightarrow> absent ?old (contents (w_db w2))"
    "\<not> new \<longrightarrow> w2 = w \<and> ?old \<noteq> []" by blast+
  from p(1) have f2: "faults (w_db w2) = []" "now (w_db w2) = now (w_db w)" "w_sessions w2 = w_sessions w"
    by (simp_all add: same_request_def)
  let ?exp = "fst (authenticatedSessionDurations (li_RememberMe input))"
  have "\<exists>x. x \<in> set (tokens_tokens (contents (w_db w3))) \<and> tr_token x = ssn \<and> tr_type x = sessionTokenType a
    \<and> tr_ref_id x = acct_ID acct \<and> \<not> tr_single_use x \<and> tr_idle x = None
    \<and> tr_expiry x = now (w_db w) + duration_seconds ?exp * pg_second \<and> same_request w2 w3
    \<and> (?old \<noteq> [] \<longrightarrow> absent ?old (contents (w_db w3)))"
  proof (cases new)
    case True
    with ssn have ssn': "login_session a r acct ?exp True data w2 = (Next (ssn, data'), w3)" by simp
    show ?thesis
      by (rule login_session_new [OF f2(1) assms(2) p(4) ssn'])
        (use True p(2,3,5) f2(2) fresh in auto)
  next
    case False
    with p(6) have w2: "w2 = w" "?old \<noteq> []" by auto
    from ssn False w2(1) have ssn': "login_session a r acct ?exp False data w = (Next (ssn, data'), w3)" by simp
    from saved [rule_format, OF w2(2)] obtain row where row: "row \<in> set (tokens_tokens (contents (w_db w)))" "tr_token row = ?old"
      "\<not> tr_single_use row" "tr_type row = sessionTokenType a" by blast
    show ?thesis
      by (rule login_session_rotate [OF assms(1-3) ssn' row fresh]) (use w2 in auto)
  qed
  then obtain x where x: "x \<in> set (tokens_tokens (contents (w_db w3)))" "tr_token x = ssn" "tr_type x = sessionTokenType a"
    "tr_ref_id x = acct_ID acct" "\<not> tr_single_use x" "tr_idle x = None"
    "tr_expiry x = now (w_db w) + duration_seconds ?exp * pg_second" "same_request w2 w3"
    "?old \<noteq> [] \<longrightarrow> absent ?old (contents (w_db w3))" by blast
  from fin obtain u w4 where rs: "reset_session (req_ctx r) ssn data' w3 = (Ret u, w4)"
    and r': "r' = r\<lparr>req_ctx := WithAccount (req_ctx r) (Some acct)\<rparr>"
    "w' = set_cookie (session_cookie ssn (snd (authenticatedSessionDurations (li_RememberMe input)))) w4"
    by (auto simp: login_finish_def split: prod.splits outcome.splits)
  from reset_session_ok [OF rs] x(8) p(1) have w4: "w_db w4 = w_db w3" "w_rw w4 = w_rw w" "SessionID (req_ctx r) (w_sessions w4) = ssn"
    by (auto simp: same_request_def)
  from dec have "req_login r = Inr input" by (auto simp: decode_validate_def split: sum.splits option.splits)
  moreover have "duration_seconds ?exp = (if li_RememberMe input then 30 * 24 else 12) * 3600"
    "snd (authenticatedSessionDurations (li_RememberMe input)) = (if li_RememberMe input then 2592000 else 0)"
    by (simp_all add: authenticatedSessionDurations_def duration_seconds_def longSessionDuration_def
        shortSessionDuration_def Hour_def Second_def)
  ultimately show ?thesis using l x w4 r'
    by (intro exI [of _ input] exI [of _ acct] exI [of _ x]) (simp add: set_cookie_def SetCookie_def)
qed

text \<open>
  C6. A login that succeeds is for the account of the given email, whose stored hash accepted the
  given password. The request goes on with that account and with a session whose token was not
  the previous one: a stored multi-use session token of that account, valid for 12 hours or, with
  remember me, for 30 days, and sent in a secure cookie. The previous session token, anonymous or
  of another account, is gone.
\<close>

theorem Login_establishes_session:
  assumes "faults (w_db w) = []" "getCtxTx (req_ctx r) = None" "db_ok (contents (w_db w))"
    and saved: "SessionID (req_ctx r) (w_sessions w) \<noteq> [] \<Longrightarrow> \<exists>row \<in> set (tokens_tokens (contents (w_db w))).
      tr_token row = SessionID (req_ctx r) (w_sessions w) \<and> \<not> tr_single_use row \<and> tr_type row = sessionTokenType a"
    and fresh: "generateNewToken (am_RawTokenSize a) (w_rnd w (w_draws w)) \<noteq> SessionID (req_ctx r) (w_sessions w)"
    and run: "login_flow a r w = (Next r', w')"
  shows "\<exists>input acct x. req_login r = Inr input \<and> ctx_Account (req_ctx r') = Some acct
    \<and> acct_Email acct = li_Email input \<and> am_ComparePasswordAndHash a (li_Password input) (acct_Password acct) = Inr True
    \<and> x \<in> set (tokens_tokens (contents (w_db w'))) \<and> tr_token x = SessionID (req_ctx r') (w_sessions w')
    \<and> tr_type x = sessionTokenType a \<and> tr_ref_id x = acct_ID acct \<and> \<not> tr_single_use x \<and> tr_idle x = None
    \<and> tr_expiry x = now (w_db w) + (if li_RememberMe input then 30 * 24 else 12) * 3600 * pg_second
    \<and> rw_cookies (w_rw w') = rw_cookies (w_rw w) @ [session_cookie (tr_token x) (if li_RememberMe input then 2592000 else 0)]
    \<and> (SessionID (req_ctx r) (w_sessions w) \<noteq> [] \<longrightarrow> absent (SessionID (req_ctx r) (w_sessions w)) (contents (w_db w')))"
  by (rule login_establishes [OF assms(1-3) impI [OF saved] fresh run])

section \<open>The end of a session\<close>

text \<open>
  A logout that succeeds was made by a logged-in account with a saved session. Its token is
  gone from the contents that the request sees, the request goes on without account and with an
  empty unsaved session, and the cookie is cleared.
\<close>

theorem Logout_ends_session:
  assumes "logout_flow a r w = (Next r', w')"
  shows "SessionID (req_ctx r) (w_sessions w) \<noteq> [] \<and> ctx_Account (req_ctx r) \<noteq> None
    \<and> (\<exists>d. visible (ctx_queryer (req_ctx r)) (w_db w') = Some d \<and> absent (SessionID (req_ctx r) (w_sessions w)) d)
    \<and> ctx_Account (req_ctx r') = None \<and> ctx_Session (req_ctx r') (w_sessions w') = ([], ''null'', False)
    \<and> rw_cookies (w_rw w') = rw_cookies (w_rw w) @ [cleared_cookie]"
proof -
  let ?old = "SessionID (req_ctx r) (w_sessions w)"
  from assms obtain e1 u w2 where old: "?old \<noteq> []" "ctx_Account (req_ctx r) \<noteq> None"
    and del: "tokens_Delete (req_ctx r) ?old (w_db w) = (Inr (), e1)"
    and rs: "reset_session (req_ctx r) [] [] (w\<lparr>w_db := e1\<rparr>) = (Ret u, w2)"
    and r': "r' = r\<lparr>req_ctx := WithAccount (req_ctx r) None\<rparr>" "w' = set_cookie cleared_cookie w2"
    by (auto simp: logout_flow_def stop_error_def logout_def on_db_def Let_def
        split: sum.splits prod.splits if_splits outcome.splits)
  from del have "run_stmt (ctx_queryer (req_ctx r)) (deleteToken_sql ?old) (w_db w) = (Inr (), e1)"
    by (simp add: tokens_Delete_def EnsureQueryer_QConn Exec_def)
  from run_stmt_visible [OF this] obtain d0 d where "visible (ctx_queryer (req_ctx r)) e1 = Some d"
    "deleteToken_sql ?old (now (w_db w)) d0 = Inr ((), d)" by blast
  moreover from this(2) have "absent ?old d" by (auto simp: deleteToken_sql_def on_tokens_Inr absent_def)
  ultimately show ?thesis using reset_session_ok [OF rs] r' old
    by (auto simp: set_cookie_def SetCookie_def or_null_def nullJSON_def)
qed

lemma delete_tx_spec:
  fixes a :: "'z Accounts"
  shows "tx_spec (delete_tx a aid) (\<lambda>t d u d'. \<exists>d1. deleteAccount_sql aid t d = Inr ((), d1)
     \<and> deleteTokens_sql aid (sessionTokenType a) t d1 = Inr ((), d'))"
  unfolding tx_spec_def
proof (intro allI impI)
  fix c :: actx and tx and e e' :: "'z accounts_db_scheme engine" and r
  assume tx: "getCtxTx c = Some tx" and run: "delete_tx a aid c tx e = (r, e')"
  obtain s e1 where acc: "run_stmt (QTx tx) (deleteAccount_sql aid) e = (s, e1)" by fastforce
  obtain s' e2 where tok: "run_stmt (QTx tx) (deleteTokens_sql aid (sessionTokenType a)) e1 = (s', e2)" by fastforce
  note c1 = run_stmt_QTx_confined [OF acc] and c2 = run_stmt_QTx_confined [OF tok]
  note ops = delete_tx_def Delete_def tokens_DeleteByTypeRef_def EnsureQueryer_QConn ctx_queryer_tx [OF tx] Exec_def
  show "contents e' = contents e \<and> now e' = now e \<and> (\<forall>u. u \<noteq> tx \<longrightarrow> tx_lookup e' u = tx_lookup e u) \<and>
    (\<forall>x. r = Ret (Inr x) \<longrightarrow> (\<exists>d d'. tx_lookup e tx = Some (Active d) \<and> tx_lookup e' tx = Some (Active d') \<and>
       (\<exists>d1. deleteAccount_sql aid (now e) d = Inr ((), d1) \<and> deleteTokens_sql aid (sessionTokenType a) (now e) d1 = Inr ((), d'))))"
  proof (cases "\<exists>u u'. s = Inr u \<and> s' = Inr u'")
    case True
    then have ss: "s = Inr ()" "s' = Inr ()" by auto
    with run acc tok have "r = Ret (Inr ())" "e' = e2" by (auto simp: ops)
    with run_stmt_QTx_ok [OF acc [unfolded ss(1)]] run_stmt_QTx_ok [OF tok [unfolded ss(2)]] c1 c2 show ?thesis
      by auto
  next
    case False
    with run acc tok c1 c2 show ?thesis by (auto simp: ops split: sum.splits prod.splits)
  qed
qed

lemma delete_flow_Next:
  assumes "delete_flow a r w = (Next r', w')"
  obtains input acct w1 u where "decode_validate deleteInput_Validate (req_delete r) = Inr input"
    "ctx_Account (req_ctx r) = Some acct"
    "delete_account a (req_ctx r) (acct_ID acct) (di_Password input) (acct_Password acct) w = (Ret (Inr ()), w1)"
    "reset_session (req_ctx r) [] [] (set_cookie cleared_cookie w1) = (Ret u, w')" "r' = r"
proof -
  from assms obtain input acct where dec: "decode_validate deleteInput_Validate (req_delete r) = Inr input"
    and acct: "ctx_Account (req_ctx r) = Some acct"
    by (auto simp: delete_flow_def stop_error_def split: sum.splits prod.splits option.splits)
  obtain x w1 where del: "delete_account a (req_ctx r) (acct_ID acct) (di_Password input) (acct_Password acct) w = (x, w1)"
    by fastforce
  obtain y w2 where rs: "reset_session (req_ctx r) [] [] (set_cookie cleared_cookie w1) = (y, w2)" by fastforce
  from assms dec acct del rs obtain u where "x = Ret (Inr ())" "y = Ret u" "r' = r" "w' = w2"
    by (auto simp: delete_flow_def stop_error_def split: sum.splits prod.splits outcome.splits)
  with that dec acct del rs show thesis by blast
qed

text \<open>What is left of an account after its deletion: nothing but tokens of other types.\<close>

definition account_gone :: "string \<Rightarrow> uuid \<Rightarrow> 'z accounts_db_scheme \<Rightarrow> bool" where
  "account_gone typ aid d \<longleftrightarrow> aid \<notin> ar_id ` set (accounts_accounts d) \<and> groups_of d aid = []
     \<and> (\<forall>r \<in> set (tokens_tokens d). \<not> (tr_ref_id r = aid \<and> tr_type r = typ))"

lemma delete_effect:
  "deleteAccount_sql aid t d = Inr (u, d1) \<Longrightarrow> deleteTokens_sql aid typ t' d1 = Inr (u', d') \<Longrightarrow> account_gone typ aid d'"
  by (auto simp: deleteAccount_sql_def deleteTokens_sql_def on_tokens_Inr account_gone_def groups_of_members_of
      members_of_def filter_empty_conv)

text \<open>
  C17. The deletion of an account is all or nothing, and guarded by its password: when it goes on
  to the wrapped handler, the hash check accepted the password, the account, its memberships and
  all of its session tokens are gone, the session is empty and the cookie cleared. On the pool, a
  deletion that fails leaves the contents as they were, or (a commit whose answer was lost) with
  the account gone in the same sense.
\<close>

theorem DeleteAccount_all_or_nothing:
  assumes "am_runtime a = engine_runtime rnd waited"
  shows "(delete_flow a r w = (Next r', w') \<longrightarrow>
      (\<exists>input acct d. req_delete r = Inr input \<and> ctx_Account (req_ctx r) = Some acct
        \<and> am_ComparePasswordAndHash a (di_Password input) (acct_Password acct) = Inr True
        \<and> visible (ctx_queryer (req_ctx r)) (w_db w') = Some d \<and> account_gone (sessionTokenType a) (acct_ID acct) d
        \<and> ctx_Session (req_ctx r') (w_sessions w') = ([], ''null'', False)
        \<and> rw_cookies (w_rw w') = rw_cookies (w_rw w) @ [cleared_cookie]))
    \<and> (getCtxTx c = None \<longrightarrow> delete_account a c aid pwd hash w = (Ret (Inl err), w') \<longrightarrow>
        contents (w_db w') = contents (w_db w) \<or> account_gone (sessionTokenType a) aid (contents (w_db w')))"
proof (intro conjI impI)
  assume run: "delete_flow a r w = (Next r', w')"
  obtain input acct w1 u where dec: "decode_validate deleteInput_Validate (req_delete r) = Inr input"
    and acct: "ctx_Account (req_ctx r) = Some acct"
    and del: "delete_account a (req_ctx r) (acct_ID acct) (di_Password input) (acct_Password acct) w = (Ret (Inr ()), w1)"
    and rs: "reset_session (req_ctx r) [] [] (set_cookie cleared_cookie w1) = (Ret u, w')" and r': "r' = r"
    by (rule delete_flow_Next [OF run])
  from del assms obtain e1 where ok: "am_ComparePasswordAndHash a (di_Password input) (acct_Password acct) = Inr True"
    and tx: "EnsureTx engine_driver (engine_runtime rnd waited) (req_ctx r) (delete_tx a (acct_ID acct)) (w_db w) = (Ret (Inr ()), e1)"
    and w1: "w1 = w\<lparr>w_db := e1\<rparr>"
    by (auto simp: delete_account_def on_db_eq split: sum.splits if_splits)
  from EnsureTx_ok [OF delete_tx_spec tx] delete_effect obtain d where
    "visible (ctx_queryer (req_ctx r)) e1 = Some d" "account_gone (sessionTokenType a) (acct_ID acct) d" by blast
  moreover from dec have "req_delete r = Inr input" by (auto simp: decode_validate_def split: sum.splits option.splits)
  ultimately show "\<exists>input acct d. req_delete r = Inr input \<and> ctx_Account (req_ctx r) = Some acct
        \<and> am_ComparePasswordAndHash a (di_Password input) (acct_Password acct) = Inr True
        \<and> visible (ctx_queryer (req_ctx r)) (w_db w') = Some d \<and> account_gone (sessionTokenType a) (acct_ID acct) d
        \<and> ctx_Session (req_ctx r') (w_sessions w') = ([], ''null'', False)
        \<and> rw_cookies (w_rw w') = rw_cookies (w_rw w) @ [cleared_cookie]"
    using reset_session_ok [OF rs] acct ok r' w1 by (auto simp: set_cookie_def SetCookie_def or_null_def nullJSON_def)
next
  assume c: "getCtxTx c = None" and run: "delete_account a c aid pwd hash w = (Ret (Inl err), w')"
  show "contents (w_db w') = contents (w_db w) \<or> account_gone (sessionTokenType a) aid (contents (w_db w'))"
  proof (cases "w' = w")
    case False
    with run obtain e1 where tx: "EnsureTx engine_driver (engine_runtime rnd waited) c (delete_tx a aid) (w_db w) = (Ret (Inl err), e1)"
      and w': "w' = w\<lparr>w_db := e1\<rparr>"
      by (auto simp: delete_account_def on_db_eq assms split: sum.splits if_splits)
    from EnsureTx_own [OF delete_tx_spec c tx] w' show ?thesis by (auto dest: delete_effect)
  qed simp
qed

section \<open>The session of a request\<close>

text \<open>The identifier, data and account of the session that a cookie stands for.\<close>

definition session_of :: "'z Accounts \<Rightarrow> string option \<Rightarrow> int \<Rightarrow> 'z accounts_db_scheme \<Rightarrow> string \<times> string \<times> Account option" where
  "session_of a ck t d =
     (case ck of
        None \<Rightarrow> ([], [], None)
      | Some tok \<Rightarrow>
          (case live_row tok t (tokens_tokens d) of
             None \<Rightarrow> ([], [], None)
           | Some row \<Rightarrow>
               if tr_type row \<noteq> sessionTokenType a then ([], [], None)
               else if tr_ref_id row = uuid_Nil then (tok, tr_data row, None)
               else (case find (\<lambda>x. ar_id x = tr_ref_id row) (accounts_accounts d) of
                       None \<Rightarrow> ([], [], None)
                     | Some x \<Rightarrow> (tok, tr_data row, Some (account_of d x)))))"

lemma account_of_tokens [simp]: "account_of (d\<lparr>tokens_tokens := tbl\<rparr>) = account_of d"
proof -
  have "groups_of (d\<lparr>tokens_tokens := tbl\<rparr>) aid = groups_of d aid" for aid
    by (rule groups_of_cong) simp_all
  then show ?thesis by (simp add: account_of_def fun_eq_iff)
qed

lemma session_token_pool:
  assumes "faults (w_db w) = []" "getCtxTx (req_ctx r) = None" "tokens_inv (contents (w_db w))"
    and "am_runtime a = engine_runtime rnd waited"
  obtains w1 tbl where "session_token a r w = (Next (case req_ssn r of None \<Rightarrow> None | Some t \<Rightarrow>
      (case live_row t (now (w_db w)) (tokens_tokens (contents (w_db w))) of None \<Rightarrow> None
       | Some row \<Rightarrow> if tr_type row = sessionTokenType a then Some (token_of_row row) else None)), w1)"
    "w_sessions w1 = w_sessions w" "faults (w_db w1) = []" "contents (w_db w1) = (contents (w_db w))\<lparr>tokens_tokens := tbl\<rparr>"
proof (cases "req_ssn r")
  case None
  with assms(1) show thesis
    by (intro that [of w "tokens_tokens (contents (w_db w))"]) (simp_all add: session_token_def)
next
  case (Some t)
  let ?vfn = "Some (MustMatchType (sessionTokenType a))"
  show thesis
  proof (cases "live_row t (now (w_db w)) (tokens_tokens (contents (w_db w)))")
    case None
    obtain e' where e': "tokens_Verify (engine_runtime rnd waited) (req_ctx r) t ?vfn (w_db w) = (Ret (Inl (join_err ErrInvalid None)), e')"
      "contents e' = contents (w_db w)" "faults e' = []"
      by (rule Verify_not_live [OF assms(1-3) None])
    with Some None assms(4) show thesis
      by (intro that [of "w\<lparr>w_db := e'\<rparr>" "tokens_tokens (contents (w_db w))"])
        (simp_all add: session_token_def on_db_def ErrInvalid_def)
  next
    case (Some row)
    obtain e' where e': "tokens_Verify (engine_runtime rnd waited) (req_ctx r) t ?vfn (w_db w) =
        (Ret (case ?vfn of None \<Rightarrow> Inr (token_of_row row) | Some f \<Rightarrow>
          (case f (token_of_row row) of Some err \<Rightarrow> Inl err | None \<Rightarrow> Inr (token_of_row row))), e')"
      "contents e' = (contents (w_db w))\<lparr>tokens_tokens := after_verify (now (w_db w)) row (tokens_tokens (contents (w_db w)))\<rparr>"
      "faults e' = []"
      by (rule Verify_live [OF assms(1-3) Some])
    with Some \<open>req_ssn r = Some t\<close> assms(4) show thesis
      by (intro that [of "w\<lparr>w_db := e'\<rparr>" "after_verify (now (w_db w)) row (tokens_tokens (contents (w_db w)))"])
        (simp_all add: session_token_def on_db_def ErrInvalid_def MustMatchType_def token_of_row_def)
  qed
qed

lemma session_request_ctx:
  "ctx_Account (req_ctx (fst (session_request r (i, data, acct) w))) =
     (case acct of None \<Rightarrow> ctx_Account (req_ctx r) | Some x \<Rightarrow> Some x)"
  "ctx_Session (req_ctx (fst (session_request r (i, data, acct) w))) (w_sessions (snd (session_request r (i, data, acct) w)))
     = (i, or_null data, False)"
  by (simp_all add: session_request_def Let_def split_def split: option.split)

lemma session_load_exact:
  assumes "faults (w_db w) = []" "getCtxTx (req_ctx r) = None" "db_ok (contents (w_db w))"
    and "am_runtime a = engine_runtime rnd waited" "ctx_Account (req_ctx r) = None"
  shows "\<exists>r' w'. session_load a r w = (Next r', w') \<and>
    (case session_of a (req_ssn r) (now (w_db w)) (contents (w_db w)) of (i, data, acct) \<Rightarrow>
       ctx_Account (req_ctx r') = acct \<and> ctx_Session (req_ctx r') (w_sessions w') = (i, or_null data, False))"
proof -
  from assms(3) have inv: "tokens_inv (contents (w_db w))" "accounts_ok (contents (w_db w))" by (simp_all add: db_ok_def)
  define tok where tok_def: "tok = (case req_ssn r of None \<Rightarrow> None | Some t \<Rightarrow>
      (case live_row t (now (w_db w)) (tokens_tokens (contents (w_db w))) of None \<Rightarrow> None
       | Some row \<Rightarrow> if tr_type row = sessionTokenType a then Some (token_of_row row) else None))"
  obtain w1 tbl where tok: "session_token a r w = (Next tok, w1)"
    and w1: "faults (w_db w1) = []" "contents (w_db w1) = (contents (w_db w))\<lparr>tokens_tokens := tbl\<rparr>"
    by (rule session_token_pool [OF assms(1,2) inv(1) assms(4), folded tok_def])
  have ok1: "accounts_ok (contents (w_db w1))" using inv(2) w1(2) by (simp add: accounts_ok_def)
  note by_id = ByID_pool [OF w1(1) assms(2) ok1]
  have "fst (session_account a r tok w1) = Next (session_of a (req_ssn r) (now (w_db w)) (contents (w_db w)))"
  proof (cases tok)
    case None
    with tok_def have "session_of a (req_ssn r) (now (w_db w)) (contents (w_db w)) = ([], [], None)"
      by (auto simp: session_of_def split: option.splits if_splits)
    with None show ?thesis by (simp add: session_account_def)
  next
    case (Some x)
    with tok_def obtain t row where t: "req_ssn r = Some t" "live_row t (now (w_db w)) (tokens_tokens (contents (w_db w))) = Some row"
      "tr_type row = sessionTokenType a" "x = token_of_row row"
      by (auto split: option.splits if_splits)
    from live_rowD [OF t(2)] have "tr_token row = t" by simp
    with Some t by_id [of "tr_ref_id row"] tokens_DeleteByTypeRef_pool [OF w1(1) assms(2), of "sessionTokenType a" "tr_ref_id row"] w1(2)
    show ?thesis
      by (cases "find (\<lambda>x. ar_id x = tr_ref_id row) (accounts_accounts (contents (w_db w)))")
        (auto simp: session_account_def session_of_def token_of_row_def on_db_def)
  qed
  then obtain w2 where acc: "session_account a r tok w1 = (Next (session_of a (req_ssn r) (now (w_db w)) (contents (w_db w))), w2)"
    by (metis prod.collapse)
  obtain i data acct where s: "session_of a (req_ssn r) (now (w_db w)) (contents (w_db w)) = (i, data, acct)"
    using prod_cases3 by blast
  have "session_load a r w = (Next (fst (session_request r (i, data, acct) w2)), snd (session_request r (i, data, acct) w2))"
    by (simp add: session_load_def tok acc s split: prod.splits)
  with s assms(5) session_request_ctx [of r i data acct w2] show ?thesis by (auto split: option.splits)
qed

text \<open>
  C13. On a working database the session middleware always goes on, and decides the session by the
  cookie alone: there is an account exactly when the cookie is a live session token of an account
  that exists, an anonymous session when it is a live session token of nobody, and an unsaved
  empty session otherwise. Tokens of other types and of deleted accounts give no session.
\<close>

theorem Session_exact:
  assumes "faults (w_db w) = []" "getCtxTx (req_ctx r) = None" "db_ok (contents (w_db w))"
    and "am_runtime a = engine_runtime rnd waited" "ctx_Account (req_ctx r) = None"
  shows "\<exists>r' w'. session_load a r w = (Next r', w') \<and>
    (case session_of a (req_ssn r) (now (w_db w)) (contents (w_db w)) of (i, data, acct) \<Rightarrow>
       ctx_Account (req_ctx r') = acct \<and> ctx_Session (req_ctx r') (w_sessions w') = (i, or_null data, False))"
  using assms by (rule session_load_exact)

text \<open>
  Modified data of an unsaved session is saved under a new anonymous session after the wrapped
  handler has returned. Its cookie is then added to the header map, so it reaches the client only
  if the handler has not written the header: after a handler that has, as most do, the cookies
  sent are those sent before, and the new session is lost.
\<close>

theorem lazy_session_cookie:
  assumes "ctx_Session (req_ctx r) (w_sessions w) = ([], data, True)"
    and "generateNewAnonymousSession a r data w = (Next r', w')"
  shows "session_save a r w = (Ret (), w') \<and> sent_cookies (w_rw w') = (case rw_sent (w_rw w) of
      None \<Rightarrow> rw_cookies (w_rw w) @ [session_cookie (SessionID (req_ctx r') (w_sessions w')) 0]
    | Some (code, cks) \<Rightarrow> cks)"
proof -
  from assms(2) obtain ssn data' e1 where
    new: "r' = r\<lparr>req_ctx := fst (WithSession (req_ctx r) ssn data' (w_sessions w))\<rparr>"
      "w' = set_cookie (session_cookie ssn 0)
        (w\<lparr>w_draws := Suc (w_draws w), w_db := e1, w_sessions := snd (WithSession (req_ctx r) ssn data' (w_sessions w))\<rparr>)"
    by (auto simp: generateNewAnonymousSession_def draw_def on_db_def stop_error_def WithSession_def
        split: prod.splits sum.splits)
  have "SessionID (fst (WithSession (req_ctx r) ssn data' (w_sessions w))) (snd (WithSession (req_ctx r) ssn data' (w_sessions w))) = ssn"
    by (simp add: SessionID_def WithSession_def session_addr_def)
  with new assms show ?thesis
    by (auto simp: session_save_def sent_cookies_def set_cookie_def SetCookie_def split: option.splits)
qed

section \<open>Registration\<close>

lemma validateEmail_None:
  "validateEmail email act = None \<Longrightarrow> \<exists>before after. email = before @ CHR ''@'' # after \<and> before \<noteq> [] \<and> after \<noteq> []"
proof -
  assume v: "validateEmail email act = None"
  obtain b c f where cut: "go_Cut email (CHR ''@'') = (b, c, f)" by (cases "go_Cut email (CHR ''@'')") auto
  with v have "b \<noteq> []" "c \<noteq> []" by (auto simp: validateEmail_def split: if_splits)
  with cut go_Cut_found [of email "CHR ''@''" b c] go_Cut_not_found [of email "CHR ''@''" b c] show ?thesis by (cases f) auto
qed

lemma register_flow_Next:
  assumes "register_flow a r w = (Next r', w')"
  obtains input where "req_register r = Inr input" "registerInput_Validate input = None" "r' = r"
    "case am_PasswordValidator a of None \<Rightarrow> True | Some f \<Rightarrow> f (ri_Password input) = None"
    "register a (req_ctx r) (ri_Email input) (ri_Password input) w = (None, w')"
proof -
  from assms obtain input where dec: "req_register r = Inr input" "registerInput_Validate input = None"
    by (auto simp: register_flow_def decode_validate_def stop_error_def split: sum.splits prod.splits option.splits)
  obtain x w1 where reg: "register a (req_ctx r) (ri_Email input) (ri_Password input) w = (x, w1)" by fastforce
  from assms dec reg that show thesis
    by (auto simp: register_flow_def decode_validate_def stop_error_def split: prod.splits option.splits)
qed

text \<open>
  A registration that goes on to the wrapped handler had an email with text on both sides of
  an at sign and a password, given twice alike, that the validator accepted; it stored one new
  account, unverified, with that email and with a hash of the password made with the configured
  parameters, and nothing else.
\<close>

theorem Register_creates_account:
  assumes "faults (w_db w) = []" "getCtxTx (req_ctx r) = None" "accounts_ok (contents (w_db w))"
    and "am_uuidv7 a (Suc (w_draws w)) \<notin> ar_id ` set (accounts_accounts (contents (w_db w)))"
    and "register_flow a r w = (Next r', w')"
  shows "\<exists>input hash before after. req_register r = Inr input \<and> ri_Email input = before @ CHR ''@'' # after
    \<and> before \<noteq> [] \<and> after \<noteq> [] \<and> ri_Password input \<noteq> [] \<and> ri_Password2 input = ri_Password input
    \<and> (case am_PasswordValidator a of None \<Rightarrow> True | Some f \<Rightarrow> f (ri_Password input) = None)
    \<and> am_CreateHash a (w_rnd w (w_draws w)) (ri_Password input) (argon2Params a) = Inr hash
    \<and> contents (w_db w') = (contents (w_db w))\<lparr>accounts_accounts := accounts_accounts (contents (w_db w)) @
        [\<lparr>ar_id = am_uuidv7 a (Suc (w_draws w)), ar_email = ri_Email input, ar_password = hash,
          ar_verified = None, ar_created = now (w_db w)\<rparr>]\<rparr>"
proof -
  obtain input where input: "req_register r = Inr input" "registerInput_Validate input = None"
    and pv: "case am_PasswordValidator a of None \<Rightarrow> True | Some f \<Rightarrow> f (ri_Password input) = None"
    and reg: "register a (req_ctx r) (ri_Email input) (ri_Password input) w = (None, w')"
    by (rule register_flow_Next [OF assms(5)])
  from input(2) have v: "validateEmail (ri_Email input) ActionRegister = None" "ri_Password input \<noteq> []"
    "ri_Password2 input = ri_Password input"
    by (auto simp: registerInput_Validate_def validatePassword_def split: option.splits if_splits)
  let ?id = "am_uuidv7 a (Suc (w_draws w))"
  have wkv: "WithKeyValue (Some err) k t = None \<longleftrightarrow> False" for err k t by (simp split: option.splits)
  from reg obtain hash acct e1 where hash: "am_CreateHash a (w_rnd w (w_draws w)) (ri_Password input) (argon2Params a) = Inr hash"
    and cr: "Create ?id (req_ctx r) QConn (ri_Email input) hash (w_db w) = (Inr acct, e1)" and w': "w_db w' = e1"
    by (auto simp: register_def draw_def on_db_def wkv simp del: WithKeyValue.simps split: sum.splits prod.splits if_splits)
  have ok: "chk_email_length (ri_Email input)" "chk_password_length hash" "ri_Email input \<notin> ar_email ` set (accounts_accounts (contents (w_db w)))"
    using cr assms(1,2,4) by (auto simp: Create_def EnsureQueryer_def QueryOne_QConn_no_fault insertAccount_sql_def split: if_splits)
  from Create_pool_ok [OF assms(1-4) ok] cr w' have "contents (w_db w') = (contents (w_db w))\<lparr>accounts_accounts := accounts_accounts (contents (w_db w)) @
        [\<lparr>ar_id = ?id, ar_email = ri_Email input, ar_password = hash, ar_verified = None, ar_created = now (w_db w)\<rparr>]\<rparr>" by simp
  with input(1) pv v hash validateEmail_None [OF v(1)] show ?thesis by metis
qed

section \<open>Sample requests\<close>

text \<open>
  An application whose error handler answers with the code of the error and whose hash is the
  password itself, and a request with an unsaved session on the sample database of accounts.
\<close>

definition sample_app :: "unit Accounts" where
  "sample_app = \<lparr>am_RawTokenSize = 9, am_PasswordValidator = None, am_AllowRememberMe = True,
     am_ErrorHandler = (\<lambda>r err w. (Ret (), w\<lparr>w_rw := WriteHeader (Code (Some err)) (w_rw w)\<rparr>)),
     am_Argon2Params = None, am_SessionTokenType = [], am_DefaultParams = 1,
     am_CreateHash = (\<lambda>rnd p n. Inr p), am_ComparePasswordAndHash = (\<lambda>p h. Inr (p = h)),
     am_runtime = engine_runtime (\<lambda>_. 0) None, am_uuidv7 = (\<lambda>n. 100 + of_nat n)\<rparr>"

definition sample_world :: "string \<Rightarrow> bool \<Rightarrow> unit world" where
  "sample_world ssn dirty = \<lparr>w_db = sample_accounts,
     w_sessions = [\<lparr>ssn_id = ssn, ssn_data = ''null'', ssn_dirty = dirty\<rparr>],
     w_rw = \<lparr>rw_cookies = [], rw_sent = None\<rparr>, w_rnd = (\<lambda>_. sample_rnd), w_draws = 0\<rparr>"

definition sample_account :: Account where
  "sample_account = account_of (contents sample_accounts) (hd (accounts_accounts (contents sample_accounts)))"

definition sample_ctx :: "Account option \<Rightarrow> actx" where
  "sample_ctx acct = WithAccount (fst (WithSession [] [] [] [])) acct"

definition sample_request :: "Account option \<Rightarrow> request" where
  "sample_request acct = \<lparr>req_ctx = sample_ctx acct, req_ssn = None,
     req_login = Inr \<lparr>li_Email = ''a@b.c'', li_Password = ''hash'', li_RememberMe = False\<rparr>,
     req_register = Inr \<lparr>ri_Email = ''d@e.f'', ri_Password = ''hash2'', ri_Password2 = ''hash2''\<rparr>,
     req_delete = Inr \<lparr>di_Password = ''hash''\<rparr>, req_none = Inr ()\<rparr>"

lemma sample_ctx_simps [simp]:
  "getCtxTx (sample_ctx acct) = None" "ctx_Account (sample_ctx acct) = acct"
  "ctx_queryer (sample_ctx acct) = QConn"
  "SessionID (sample_ctx acct) (w_sessions (sample_world ssn dirty)) = ssn"
  "ctx_Session (sample_ctx acct) (w_sessions (sample_world ssn dirty)) = (ssn, ''null'', dirty)"
  by (simp_all add: sample_ctx_def sample_world_def ctx_queryer_def SessionID_def ctx_Session_def session_addr_def
      getCtxTx_def WithSession_def WithAccount_def ctx_Account_def ctx_Value_def WithValue_def)

lemma sample_world_simps [simp]:
  "w_db (sample_world ssn dirty) = sample_accounts" "req_ctx (sample_request acct) = sample_ctx acct"
  "req_ssn (sample_request acct) = None"
  "rw_cookies (w_rw (sample_world ssn dirty)) = []" "rw_sent (w_rw (sample_world ssn dirty)) = None"
  by (simp_all add: sample_world_def sample_request_def)

lemma sample_app_simps [simp]:
  "am_ComparePasswordAndHash sample_app p h = Inr (p = h)" "am_runtime sample_app = engine_runtime (\<lambda>_. 0) None"
  "sessionTokenType sample_app = ''session''"
  by (simp_all add: sample_app_def sessionTokenType_def)

lemma sample_db_simps [simp]:
  "faults sample_accounts = []" "db_ok (contents sample_accounts)" "accounts_ok (contents sample_accounts)"
  by code_simp+

text \<open>The same with two saved sessions: an anonymous one, which is that of the request, and one of the account.\<close>

definition saved_session :: "string \<Rightarrow> uuid \<Rightarrow> token_row" where
  "saved_session token ref = \<lparr>tr_token = token, tr_type = ''session'', tr_single_use = False, tr_ref_id = ref,
     tr_expiry = 1000, tr_idle = None, tr_idle_duration = None, tr_data = ''null''\<rparr>"

definition sample_saved :: "accounts_db engine" where
  "sample_saved = sample_accounts\<lparr>contents := (contents sample_accounts)
     \<lparr>tokens_tokens := [saved_session ''anon-session'' uuid_Nil, saved_session ''acct-session'' 1]\<rparr>\<rparr>"

definition saved_world :: "unit world" where
  "saved_world = (sample_world ''anon-session'' False)\<lparr>w_db := sample_saved\<rparr>"

lemma saved_world_simps [simp]:
  "w_db saved_world = sample_saved" "faults sample_saved = []"
  "SessionID (sample_ctx acct) (w_sessions saved_world) = ''anon-session''"
  by (simp_all add: saved_world_def sample_saved_def)

lemma saved_db_ok [simp]: "db_ok (contents sample_saved)"
  by code_simp

text \<open>A run is its result and its final world.\<close>

fun goes_on :: "'r flow \<times> 'z world \<Rightarrow> bool" where
  "goes_on (Next r, w) = True"
| "goes_on (Stop out, w) = False"

lemma goes_on_obtain:
  assumes "goes_on p"
  obtains r w where "p = (Next r, w)"
  using assms by (cases p rule: goes_on.cases) auto

lemma sample_flows:
  "goes_on (login_flow sample_app (sample_request None) (sample_world [] False))"
  "goes_on (login_flow sample_app (sample_request None) saved_world)"
  "goes_on (logout_flow sample_app (sample_request (Some sample_account)) (sample_world ''old'' False))"
  "goes_on (register_flow sample_app (sample_request None) (sample_world [] False))"
  "goes_on (delete_flow sample_app (sample_request (Some sample_account)) (sample_world ''old'' False))"
  "goes_on (generateNewAnonymousSession sample_app (sample_request None) ''null'' (sample_world [] True))"
  by code_simp+

section \<open>Witnesses\<close>

theorem special_groups_not_joinable_witness:
  "\<not> allowed [AccessVerified] (Some sample_account)"
proof -
  have "acct_Verified sample_account = None" "AccessAuthenticated \<noteq> AccessVerified" by code_simp+
  with special_groups_not_joinable [of "contents sample_accounts" sample_account
      "hd (accounts_accounts (contents sample_accounts))" "[AccessVerified]"]
  show ?thesis by (simp add: sample_account_def)
qed

theorem login_exact_witness:
  "login sample_app (sample_ctx None) ''nobody@b.c'' ''hash'' (sample_world [] False) = (Inl invalid_login, sample_world [] False)
   \<and> login sample_app (sample_ctx None) ''a@b.c'' ''guess'' (sample_world [] False) = (Inl invalid_login, sample_world [] False)"
proof -
  have "find (\<lambda>x. ar_email x = ''nobody@b.c'') (accounts_accounts (contents sample_accounts)) = None"
    "map_option ar_password (find (\<lambda>x. ar_email x = ''a@b.c'') (accounts_accounts (contents sample_accounts))) = Some ''hash''"
    by code_simp+
  with login_exact [of "sample_world [] False" "sample_ctx None" sample_app] show ?thesis by auto
qed

theorem delete_validation_reports_login_witness:
  "\<exists>err. deleteInput_Validate \<lparr>di_Password = []\<rparr> = Some err
     \<and> KeyValue (Some (decode_error err ActionDelete)) ''action'' = ''login''"
proof -
  obtain err where "deleteInput_Validate \<lparr>di_Password = []\<rparr> = Some err"
    by (simp add: deleteInput_Validate_def validatePassword_def)
  with delete_validation_reports_login [OF this] show ?thesis by simp
qed

theorem Login_establishes_session_witness:
  "\<exists>r' w'. login_flow sample_app (sample_request None) saved_world = (Next r', w')
     \<and> (\<exists>acct. ctx_Account (req_ctx r') = Some acct \<and> acct_Email acct = ''a@b.c'')
     \<and> absent ''anon-session'' (contents (w_db w'))"
proof -
  obtain r' w' where run: "login_flow sample_app (sample_request None) saved_world = (Next r', w')"
    by (rule goes_on_obtain [OF sample_flows(2)])
  have "generateNewToken (am_RawTokenSize sample_app) (w_rnd saved_world (w_draws saved_world)) \<noteq> ''anon-session''"
    by code_simp
  moreover have "\<exists>row \<in> set (tokens_tokens (contents sample_saved)). tr_token row = ''anon-session''
      \<and> \<not> tr_single_use row \<and> tr_type row = ''session''"
    by code_simp
  ultimately show ?thesis using Login_establishes_session [OF _ _ _ _ _ run] run by (auto simp: sample_request_def)
qed

theorem Logout_ends_session_witness:
  "\<exists>r' w'. logout_flow sample_app (sample_request (Some sample_account)) (sample_world ''old'' False) = (Next r', w')
     \<and> ctx_Account (req_ctx r') = None \<and> rw_cookies (w_rw w') = [cleared_cookie]"
proof -
  obtain r' w' where run: "logout_flow sample_app (sample_request (Some sample_account)) (sample_world ''old'' False) = (Next r', w')"
    by (rule goes_on_obtain [OF sample_flows(3)])
  with Logout_ends_session [OF run] show ?thesis by simp
qed

theorem DeleteAccount_all_or_nothing_witness:
  "\<exists>r' w' d. delete_flow sample_app (sample_request (Some sample_account)) (sample_world ''old'' False) = (Next r', w')
     \<and> visible QConn (w_db w') = Some d \<and> account_gone ''session'' (acct_ID sample_account) d"
proof -
  obtain r' w' where run: "delete_flow sample_app (sample_request (Some sample_account)) (sample_world ''old'' False) = (Next r', w')"
    by (rule goes_on_obtain [OF sample_flows(5)])
  with DeleteAccount_all_or_nothing [of sample_app "\<lambda>_. 0" None "sample_request (Some sample_account)"
      "sample_world ''old'' False" r' w' "[]" 0 "[]" "[]" undefined] show ?thesis by auto
qed

theorem Session_exact_witness:
  "\<exists>r' w'. session_load sample_app ((sample_request None)\<lparr>req_ssn := Some ''acct-session''\<rparr>) saved_world = (Next r', w')
     \<and> ctx_Account (req_ctx r') = Some sample_account"
proof -
  have "session_of sample_app (Some ''acct-session'') (now sample_saved) (contents sample_saved)
      = (''acct-session'', ''null'', Some sample_account)" by code_simp
  then show ?thesis
    using Session_exact [of saved_world "(sample_request None)\<lparr>req_ssn := Some ''acct-session''\<rparr>" sample_app "\<lambda>_. 0" None]
    by auto
qed

theorem lazy_session_cookie_witness:
  "\<exists>w'. session_save sample_app (sample_request None) (sample_world [] True) = (Ret (), w') \<and> length (sent_cookies (w_rw w')) = 1"
proof -
  obtain r' w' where run: "generateNewAnonymousSession sample_app (sample_request None) ''null'' (sample_world [] True) = (Next r', w')"
    by (rule goes_on_obtain [OF sample_flows(6)])
  with lazy_session_cookie [OF _ run] show ?thesis by auto
qed

theorem Register_creates_account_witness:
  "\<exists>r' w'. register_flow sample_app (sample_request None) (sample_world [] False) = (Next r', w')
     \<and> length (accounts_accounts (contents (w_db w'))) = 2"
proof -
  obtain r' w' where run: "register_flow sample_app (sample_request None) (sample_world [] False) = (Next r', w')"
    by (rule goes_on_obtain [OF sample_flows(4)])
  have "am_uuidv7 sample_app (Suc (w_draws (sample_world [] False)))
      \<notin> ar_id ` set (accounts_accounts (contents (w_db (sample_world [] False))))" by code_simp
  moreover have "length (accounts_accounts (contents sample_accounts)) = 1" by code_simp
  ultimately show ?thesis using Register_creates_account [OF _ _ _ _ run] run by auto
qed

end
