(* ===== verification/Acctstack.thy ===== *)
theory Acctstack
  imports Acctmw
begin

text \<open>
  The middleware of \<^verbatim>\<open>src/accounts/acctmw\<close> as a stack: whatever handlers are wrapped in whatever
  order, the tables stay consistent, provided the innermost handler and the error handler keep
  them. The proof is compositional: one rule for a call followed by a continuation, and one fact
  for every call on the database. Then a handler behind the session middleware and access rules: which requests reach it, and with what account. The last section is about two requests: a login and the next one.
\<close>

section \<open>Consistency of the world\<close>

definition consistent :: "'z world \<Rightarrow> bool" where
  "consistent w \<longleftrightarrow> engine_inv db_ok (w_db w)"

text \<open>A handler that keeps the database consistent, and what it takes of the configuration.\<close>

definition handler_keeps :: "'z handler \<Rightarrow> bool" where
  "handler_keeps h \<longleftrightarrow> (\<forall>r w. consistent w \<longrightarrow> consistent (snd (h r w)))"

definition config_keeps :: "'z Accounts \<Rightarrow> bool" where
  "config_keeps a \<longleftrightarrow> (\<forall>err. handler_keeps (\<lambda>r. am_ErrorHandler a r err)) \<and> (\<exists>rnd waited. am_runtime a = engine_runtime rnd waited)"

lemma consistent_update [simp]:
  "consistent (w\<lparr>w_sessions := ss\<rparr>) = consistent w"
  "consistent (w\<lparr>w_rw := rw\<rparr>) = consistent w"
  "consistent (w\<lparr>w_draws := n\<rparr>) = consistent w"
  "consistent (w\<lparr>w_db := e\<rparr>) = engine_inv db_ok e"
  "consistent (set_cookie ck w) = consistent w"
  by (simp_all add: consistent_def set_cookie_def)

lemma consistent_step:
  "consistent (snd p) \<Longrightarrow> (\<And>x w. consistent w \<Longrightarrow> consistent (snd (f x w))) \<Longrightarrow>
     consistent (snd (case p of (x, w) \<Rightarrow> f x w))"
  by (cases p) simp

lemma consistent_on_db:
  "(\<And>e. engine_inv db_ok e \<Longrightarrow> engine_inv db_ok (snd (f e))) \<Longrightarrow> consistent w \<Longrightarrow> consistent (snd (on_db f w))"
  by (simp add: consistent_def on_db_def split_def)

lemma consistent_local:
  "consistent w \<Longrightarrow> consistent (snd (draw w))"
  "consistent w \<Longrightarrow> consistent (snd (reset_session c i d w))"
  "consistent w \<Longrightarrow> consistent (snd (session_request r s w))"
  by (simp_all add: draw_def reset_session_def session_request_def split_def Let_def)

lemma consistent_ops:
  assumes "consistent w"
  shows "consistent (snd (on_db (tokens_Verify (engine_runtime rnd waited) c t v) w))"
    "consistent (snd (on_db (ByID c q aid) w))"
    "consistent (snd (on_db (ByEmail c q email) w))"
    "consistent (snd (on_db (tokens_DeleteByTypeRef c typ refid) w))"
    "consistent (snd (on_db (tokens_Delete c t) w))"
    "consistent (snd (on_db (tokens_UpdateData c t data) w))"
    "consistent (snd (on_db (tokens_New n rn c args) w))"
    "consistent (snd (on_db (tokens_Rotate n rn c t args) w))"
    "consistent (snd (on_db (Create newid c q email pwd) w))"
  by (rule consistent_on_db [OF _ assms],
      (erule db.Verify_inv | erule db.simple_accounts_inv | erule db.simple_ops_inv | erule db.generating_ops_inv [OF _ TrueI]
        | erule db.Create_inv))+

lemma delete_tx_keeps: "fn_keeps (engine_inv db_ok) (delete_tx a aid)"
  unfolding fn_keeps_def
proof (intro allI impI)
  fix c :: actx and tx and e :: "'a accounts_db_scheme engine"
  assume inv: "engine_inv db_ok e"
  obtain s e1 where s: "Delete c QConn aid e = (s, e1)" by fastforce
  with db.simple_accounts_inv(3) [OF inv, of c QConn aid] have i1: "engine_inv db_ok e1" by simp
  with s db.simple_ops_inv(4) [OF i1, of c "sessionTokenType a" aid] show "engine_inv db_ok (snd (delete_tx a aid c tx e))"
    by (auto simp: delete_tx_def split: prod.splits sum.splits)
qed

lemma consistent_delete_tx:
  "consistent w \<Longrightarrow> consistent (snd (on_db (EnsureTx engine_driver (engine_runtime rnd waited) c (delete_tx a aid)) w))"
  by (rule consistent_on_db) (auto intro: everywhere.EnsureTx_inv [OF delete_tx_keeps])

section \<open>The steps of each middleware\<close>

lemma keeps_error_handler: "config_keeps a \<Longrightarrow> consistent w \<Longrightarrow> consistent (snd (am_ErrorHandler a r err w))"
  by (simp add: config_keeps_def handler_keeps_def)

lemma keeps_stop_error: "config_keeps a \<Longrightarrow> consistent w \<Longrightarrow> consistent (snd (stop_error a r err w))"
  by (simp add: stop_error_def split_def keeps_error_handler)

lemma config_runtime: "config_keeps a \<Longrightarrow> \<exists>rnd waited. am_runtime a = engine_runtime rnd waited"
  by (simp add: config_keeps_def)

lemmas keeps = consistent_step consistent_local consistent_ops consistent_delete_tx keeps_stop_error keeps_error_handler

lemma keeps_session_token: "config_keeps a \<Longrightarrow> consistent w \<Longrightarrow> consistent (snd (session_token a r w))"
  using config_runtime [of a]
  by (auto simp: session_token_def intro!: keeps split: sum.split option.split outcome.split)

lemma keeps_session_account: "config_keeps a \<Longrightarrow> consistent w \<Longrightarrow> consistent (snd (session_account a r tok w))"
  by (auto simp: session_account_def intro!: keeps split: sum.split option.split)

lemma keeps_session_load: "config_keeps a \<Longrightarrow> consistent w \<Longrightarrow> consistent (snd (session_load a r w))"
  by (auto simp: session_load_def intro!: keeps keeps_session_token keeps_session_account split: flow.split)

lemma keeps_generateNewAnonymousSession:
  "config_keeps a \<Longrightarrow> consistent w \<Longrightarrow> consistent (snd (generateNewAnonymousSession a r data w))"
  by (auto simp: generateNewAnonymousSession_def WithSession_def intro!: keeps split: sum.split)

lemma keeps_session_save: "config_keeps a \<Longrightarrow> consistent w \<Longrightarrow> consistent (snd (session_save a r w))"
  by (cases "ctx_Session (req_ctx r) (w_sessions w)")
    (auto simp: session_save_def intro!: keeps keeps_generateNewAnonymousSession split: flow.split sum.split)

lemma keeps_login: "consistent w \<Longrightarrow> consistent (snd (login a c email pwd w))"
  by (auto simp: login_def intro!: keeps split: sum.split)

lemma keeps_login_previous: "config_keeps a \<Longrightarrow> consistent w \<Longrightarrow> consistent (snd (login_previous a r w))"
  by (cases "ctx_Session (req_ctx r) (w_sessions w)")
    (auto simp: login_previous_def Let_def intro!: keeps split: sum.split option.split)

lemma keeps_login_session:
  "config_keeps a \<Longrightarrow> consistent w \<Longrightarrow> consistent (snd (login_session a r acct expiry new data w))"
  by (auto simp: login_session_def intro!: keeps split: sum.split)

lemma keeps_login_finish: "consistent w \<Longrightarrow> consistent (snd (login_finish r acct maxAge ssn data w))"
  by (auto simp: login_finish_def intro!: keeps split: outcome.split)

lemma keeps_login_flow: "config_keeps a \<Longrightarrow> consistent w \<Longrightarrow> consistent (snd (login_flow a r w))"
  by (auto simp: login_flow_def authenticatedSessionDurations_def
      intro!: keeps keeps_login keeps_login_previous keeps_login_session keeps_login_finish
      split: sum.split flow.split)

lemma keeps_logout_flow: "config_keeps a \<Longrightarrow> consistent w \<Longrightarrow> consistent (snd (logout_flow a r w))"
  by (auto simp: logout_flow_def logout_def Let_def intro!: keeps split: sum.split outcome.split)

lemma keeps_register: "consistent w \<Longrightarrow> consistent (snd (register a c email pwd w))"
  by (auto simp: register_def simp del: WithKeyValue.simps intro!: keeps split: sum.split)

lemma keeps_register_flow: "config_keeps a \<Longrightarrow> consistent w \<Longrightarrow> consistent (snd (register_flow a r w))"
  by (auto simp: register_flow_def intro!: keeps keeps_register split: sum.split option.split)

lemma keeps_delete_account:
  "config_keeps a \<Longrightarrow> consistent w \<Longrightarrow> consistent (snd (delete_account a c aid pwd hash w))"
  using config_runtime [of a] by (auto simp: delete_account_def intro!: keeps split: sum.split)

lemma keeps_delete_flow: "config_keeps a \<Longrightarrow> consistent w \<Longrightarrow> consistent (snd (delete_flow a r w))"
  by (auto simp: delete_flow_def intro!: keeps keeps_delete_account split: sum.split option.split outcome.split)

lemma keeps_serve: "handler_keeps h \<Longrightarrow> consistent (snd fw) \<Longrightarrow> consistent (snd (serve fw h))"
  by (cases fw) (auto simp: serve_def handler_keeps_def split: flow.split)

section \<open>Stacks\<close>

text \<open>A middleware of the package, as an application mounts it on a route.\<close>

datatype mount = MSession | MAuthorize "string list" | MDeny "string list" | MLogin | MLogout | MRegister | MDelete

fun mounted :: "'z Accounts \<Rightarrow> mount \<Rightarrow> 'z handler \<Rightarrow> 'z handler" where
  "mounted a MSession h = Session a h"
| "mounted a (MAuthorize groups) h = Authorize a groups h"
| "mounted a (MDeny groups) h = Deny a groups h"
| "mounted a MLogin h = Login a h"
| "mounted a MLogout h = Logout a h"
| "mounted a MRegister h = Register a h"
| "mounted a MDelete h = DeleteAccount a h"

lemma mounted_keeps: "config_keeps a \<Longrightarrow> handler_keeps h \<Longrightarrow> handler_keeps (mounted a m h)"
proof (cases m)
  case MSession
  assume "config_keeps a" "handler_keeps h"
  with MSession show ?thesis
    by (auto simp: handler_keeps_def Session_def intro!: consistent_step keeps_session_load keeps_session_save
        split: flow.split outcome.split)
qed (auto simp: handler_keeps_def Authorize_def Deny_def authorize_def Let_def Login_def Logout_def Register_def
    DeleteAccount_def keeps_error_handler keeps_serve keeps_login_flow keeps_logout_flow keeps_register_flow
    keeps_delete_flow split: option.split)

text \<open>
  For every stack of middleware around a handler that
  keeps the tables well formed, and every request, the tables and every open transaction are well
  formed after the request, on every branch, also with a database that fails.
\<close>

theorem middleware_stack_consistent:
  assumes "config_keeps a" "handler_keeps h" "consistent w"
  shows "consistent (snd (foldr (mounted a) ms h r w))"
proof -
  from assms(1,2) have "handler_keeps (foldr (mounted a) ms h)"
    by (induction ms) (auto intro: mounted_keeps)
  with assms(3) show ?thesis by (simp add: handler_keeps_def)
qed

theorem middleware_stack_consistent_witness:
  "consistent (snd (foldr (mounted sample_app) [MSession, MAuthorize [''*''], MLogout] (\<lambda>r w. (Ret (), w))
     (sample_request None) (sample_world [] False)))"
proof -
  have "config_keeps sample_app" by (auto simp: config_keeps_def handler_keeps_def sample_app_def)
  moreover have "handler_keeps (\<lambda>r w. (Ret (), w))" by (simp add: handler_keeps_def)
  moreover have "consistent (sample_world [] False)" by (simp add: consistent_def engine_inv_def)
  ultimately show ?thesis by (rule middleware_stack_consistent)
qed

section \<open>Protected handlers\<close>

text \<open>Rules of access, and the first of them that refuses an account.\<close>

fun is_guard :: "mount \<Rightarrow> bool" where
  "is_guard (MAuthorize groups) = True"
| "is_guard (MDeny groups) = True"
| "is_guard _ = False"

fun refused_by :: "Account option \<Rightarrow> mount \<Rightarrow> Action option" where
  "refused_by acct (MAuthorize groups) = (if allowed groups acct then None else Some ActionAuthorize)"
| "refused_by acct (MDeny groups) = (if allowed groups acct then Some ActionDeny else None)"
| "refused_by acct _ = None"

lemma guards_exact:
  "list_all is_guard gs \<Longrightarrow> foldr (mounted a) gs h r w =
     (case find_map (refused_by (ctx_Account (req_ctx r))) gs of
        None \<Rightarrow> h r w
      | Some act \<Rightarrow> am_ErrorHandler a r (permission_denied act) w)"
proof (induction gs)
  case (Cons g gs)
  then show ?case
    by (cases g) (simp_all add: authorize_rule)
qed simp

text \<open>
  C2. A handler behind the session middleware and any list of access rules is protected. On a working database with
  consistent tables, for a request whose context has no account or transaction yet, it runs exactly for the requests whose session cookie stands for an account, or none, that every rule
  lets pass; it runs with that account and that session, and unless it panics, the modified session data is saved after it
  returned. A request that a rule refuses does not reach it: the error handler answers with a forbidden error
  of the first rule that refuses, and the session is saved in the same way.
\<close>

theorem protected_handler:
  assumes "faults (w_db w) = []" "getCtxTx (req_ctx r) = None" "db_ok (contents (w_db w))"
    and "am_runtime a = engine_runtime rnd waited" "ctx_Account (req_ctx r) = None" "list_all is_guard gs"
  shows "case session_of a (req_ssn r) (now (w_db w)) (contents (w_db w)) of (ssnID, data, acct) \<Rightarrow>
    \<exists>r' w'. session_load a r w = (Next r', w')
      \<and> ctx_Account (req_ctx r') = acct \<and> ctx_Session (req_ctx r') (w_sessions w') = (ssnID, or_null data, False)
      \<and> foldr (mounted a) (MSession # gs) h r w =
          (case (case find_map (refused_by acct) gs of
                   None \<Rightarrow> h r' w'
                 | Some act \<Rightarrow> am_ErrorHandler a r' (permission_denied act) w') of
             (Panic p, w2) \<Rightarrow> (Panic p, w2)
           | (Ret _, w2) \<Rightarrow> session_save a r' w2)"
proof -
  obtain ssnID data acct where s: "session_of a (req_ssn r) (now (w_db w)) (contents (w_db w)) = (ssnID, data, acct)"
    using prod_cases3 by blast
  from session_load_exact [OF assms(1-5)] s obtain r' w' where
    load: "session_load a r w = (Next r', w')" "ctx_Account (req_ctx r') = acct"
      "ctx_Session (req_ctx r') (w_sessions w') = (ssnID, or_null data, False)" by auto
  from guards_exact [OF assms(6), of a h r' w'] load show ?thesis
    by (simp add: s Session_def)
qed

text \<open>The administrators of the sample database are let in, and the same request without its cookie is not.\<close>

theorem protected_handler_witness:
  "fst (foldr (mounted sample_app) [MSession, MAuthorize [''admins''], MDeny [''users'']] (\<lambda>r w. (Panic ''served'', w))
      ((sample_request None)\<lparr>req_ssn := Some ''acct-session''\<rparr>) saved_world) = Panic ''served''
   \<and> fst (foldr (mounted sample_app) [MSession, MAuthorize [''admins''], MDeny [''users'']] (\<lambda>r w. (Panic ''served'', w))
      (sample_request None) saved_world) = Ret ()"
proof
  let ?gs = "[MAuthorize [''admins''], MDeny [''users'']]"
  note protected = protected_handler [of saved_world _ sample_app "\<lambda>_. 0" None ?gs "\<lambda>r w. (Panic ''served'', w)"]
  have s: "session_of sample_app (Some ''acct-session'') (now sample_saved) (contents sample_saved)
      = (''acct-session'', ''null'', Some sample_account)" by code_simp
  have "acct_Groups sample_account = [''admins'']" "acct_Verified sample_account = None" by code_simp+
  then have "find_map (refused_by (Some sample_account)) ?gs = None"
    by (simp add: allowed_def AccessAnyone_def AccessAuthenticated_def AccessVerified_def)
  with protected [of "(sample_request None)\<lparr>req_ssn := Some ''acct-session''\<rparr>"] s
  show "fst (foldr (mounted sample_app) (MSession # ?gs) (\<lambda>r w. (Panic ''served'', w))
      ((sample_request None)\<lparr>req_ssn := Some ''acct-session''\<rparr>) saved_world) = Panic ''served''" by auto
  have "session_of sample_app None (now sample_saved) (contents sample_saved) = ([], [], None)"
    "find_map (refused_by None) ?gs = Some ActionAuthorize"
    by (simp_all add: session_of_def allowed_def AccessAnyone_def)
  with protected [of "sample_request None"]
  show "fst (foldr (mounted sample_app) (MSession # ?gs) (\<lambda>r w. (Panic ''served'', w)) (sample_request None) saved_world) = Ret ()"
    by (auto simp: sample_app_def session_save_def)
qed

section \<open>Across requests\<close>

text \<open>The steps of a login change no table but the tokens, and its account is one that is stored.\<close>

lemma login_flow_tables:
  assumes "faults (w_db w) = []" "getCtxTx (req_ctx r) = None" "db_ok (contents (w_db w))"
    and "login_flow a r w = (Next r', w')"
  shows "(\<exists>tbl. contents (w_db w') = (contents (w_db w))\<lparr>tokens_tokens := tbl\<rparr>)
    \<and> (\<exists>y\<in>set (accounts_accounts (contents (w_db w))). ctx_Account (req_ctx r') = Some (account_of (contents (w_db w)) y))"
proof -
  obtain input acct w1 new data w2 ssn data' w3 where
    dec: "decode_validate loginInput_Validate (req_login r) = Inr input"
    and log: "login a (req_ctx r) (li_Email input) (li_Password input) w = (Inr acct, w1)"
    and prev: "login_previous a r w1 = (Next (new, data), w2)"
    and ssn: "login_session a r acct (fst (authenticatedSessionDurations (li_RememberMe input))) new data w2 = (Next (ssn, data'), w3)"
    and fin: "login_finish r acct (snd (authenticatedSessionDurations (li_RememberMe input))) ssn data' w3 = (Next r', w')"
    by (rule login_flow_Next [OF assms(4)])
  from assms(3) have "accounts_ok (contents (w_db w))" by (simp add: db_ok_def)
  from login_Inr [OF assms(1,2) this log] have w1: "w1 = w"
    and acct: "acct \<in> account_of (contents (w_db w)) ` set (accounts_accounts (contents (w_db w)))" by simp_all
  from login_previous_pool [OF assms(1-3) prev [unfolded w1]] have w2: "faults (w_db w2) = []"
    by (simp add: same_request_def)
  have 2: "\<exists>tbl. contents (w_db w2) = (contents (w_db w))\<lparr>tokens_tokens := tbl\<rparr>"
    using prev w1 tokens_Delete_pool [OF assms(1,2)]
    by (auto simp: login_previous_def on_db_def stop_error_def Let_def
        split: option.splits if_splits sum.splits prod.splits intro: exI [of _ "tokens_tokens (contents (w_db w))"])
  have 3: "\<exists>tbl. contents (w_db w3) = (contents (w_db w2))\<lparr>tokens_tokens := tbl\<rparr>"
  proof (cases new)
    case True
    with ssn obtain e args n rnd d where "tokens_New n rnd (req_ctx r) args (w_db w2) = (Inr (ssn, d), e)" "contents (w_db w3) = contents e"
      by (auto simp: login_session_def draw_def on_db_def stop_error_def split: sum.splits prod.splits)
    with tokens_New_pool [OF w2 assms(2)] show ?thesis by (fastforce simp: insertToken_sql_def on_tokens_Inr)
  next
    case False
    with ssn obtain e args n rnd old where rot: "tokens_Rotate n rnd (req_ctx r) old args (w_db w2) = (Inr ssn, e)" "contents (w_db w3) = contents e"
      by (auto simp: login_session_def draw_def on_db_def stop_error_def split: sum.splits prod.splits)
    from tokens_Rotate_pool [OF w2 assms(2) rot(1)] obtain as ids nd where
      "updateToken_sql ssn (ta_RefID args) as ids nd old (now (w_db w2)) (contents (w_db w2)) = Inr ((), contents e)" by blast
    with rot(2) show ?thesis by (auto simp: updateToken_sql_def on_tokens_Inr)
  qed
  from fin have "w_db w' = w_db w3" "ctx_Account (req_ctx r') = Some acct"
    by (auto simp: login_finish_def set_cookie_def split: prod.splits outcome.splits dest!: reset_session_ok)
  with 2 3 acct show ?thesis by auto
qed

lemma SessionID_ctx_Session: "ctx_Session c ss = (i, d, b) \<Longrightarrow> SessionID c ss = i"
  by (auto simp: ctx_Session_def SessionID_def split: option.splits)

text \<open>What the cookie of a live session of an account gives.\<close>

lemma session_of_live:
  assumes "db_ok d" "x \<in> set (tokens_tokens d)" "tr_type x = sessionTokenType a" "row_live t x"
    and "y \<in> set (accounts_accounts d)" "ar_id y = tr_ref_id x" "ar_id y \<noteq> uuid_Nil"
  shows "session_of a (Some (tr_token x)) t d = (tr_token x, tr_data x, Some (account_of d y))"
proof -
  from assms(1) have "table_ok (tokens_tokens d)" "distinct (map ar_id (accounts_accounts d))"
    by (auto simp: db_ok_def tokens_inv_def accounts_ok_def)
  from live_rowI [OF this(1) assms(2,4)] have "live_row (tr_token x) t (tokens_tokens d) = Some x" .
  moreover have "find (\<lambda>z. ar_id z = tr_ref_id x) (accounts_accounts d) = Some y"
  proof (cases "find (\<lambda>z. ar_id z = tr_ref_id x) (accounts_accounts d)")
    case None
    with assms(5,6) show ?thesis by (auto simp: find_None_iff)
  next
    case (Some z)
    then have "z \<in> set (accounts_accounts d)" "ar_id z = ar_id y" using assms(6) by (auto simp: find_Some_iff)
    with \<open>distinct (map ar_id (accounts_accounts d))\<close> assms(5) Some show ?thesis by (metis distinct_map_eq)
  qed
  ultimately show ?thesis using assms(3,6,7) by (simp add: session_of_def)
qed

text \<open>
  C33. A login is the session of the next request: after a login that succeeded, a request that brings the session
  cookie it was given, on the tables that the login left and less than twelve hours later, gets
  through the session middleware exactly the account and the session that the login gave.
\<close>

theorem session_after_login:
  assumes "config_keeps a" "consistent w" "faults (w_db w) = []" "getCtxTx (req_ctx r) = None"
    and ids: "\<forall>y\<in>set (accounts_accounts (contents (w_db w))). ar_id y \<noteq> uuid_Nil"
    and saved: "SessionID (req_ctx r) (w_sessions w) \<noteq> [] \<longrightarrow> (\<exists>row \<in> set (tokens_tokens (contents (w_db w))).
      tr_token row = SessionID (req_ctx r) (w_sessions w) \<and> \<not> tr_single_use row \<and> tr_type row = sessionTokenType a)"
    and fresh: "generateNewToken (am_RawTokenSize a) (w_rnd w (w_draws w)) \<noteq> SessionID (req_ctx r) (w_sessions w)"
    and run: "login_flow a r w = (Next r', w')"
    and next_req: "req_ssn r2 = Some (SessionID (req_ctx r') (w_sessions w'))" "getCtxTx (req_ctx r2) = None"
      "ctx_Account (req_ctx r2) = None"
    and next_db: "contents (w_db w2) = contents (w_db w')" "faults (w_db w2) = []"
      "now (w_db w2) < now (w_db w) + 12 * 3600 * pg_second"
  shows "\<exists>r3 w3. session_load a r2 w2 = (Next r3, w3) \<and> ctx_Account (req_ctx r') \<noteq> None
    \<and> ctx_Account (req_ctx r3) = ctx_Account (req_ctx r')
    \<and> SessionID (req_ctx r3) (w_sessions w3) = SessionID (req_ctx r') (w_sessions w')"
proof -
  let ?d = "contents (w_db w)" and ?d' = "contents (w_db w')"
  from assms(2) have ok: "db_ok ?d" by (simp add: consistent_def engine_inv_def)
  from keeps_login_flow [OF assms(1,2), of r] run have ok': "db_ok ?d'"
    by (simp add: consistent_def engine_inv_def)
  from login_establishes [OF assms(3,4) ok saved fresh run] obtain input acct x where
    "req_login r = Inr input" and acct: "ctx_Account (req_ctx r') = Some acct"
    and x: "x \<in> set (tokens_tokens ?d')" "tr_token x = SessionID (req_ctx r') (w_sessions w')" "tr_type x = sessionTokenType a"
      "tr_ref_id x = acct_ID acct" "tr_idle x = None"
      "tr_expiry x = now (w_db w) + (if li_RememberMe input then 30 * 24 else 12) * 3600 * pg_second"
    by blast
  from login_flow_tables [OF assms(3,4) ok run] acct obtain tbl y where d': "?d' = ?d\<lparr>tokens_tokens := tbl\<rparr>"
    and y: "y \<in> set (accounts_accounts ?d)" "acct = account_of ?d y" by auto
  have "now (w_db w2) < tr_expiry x" using x(6) next_db(3) by (auto simp: pg_second_def)
  with x(5) have live: "row_live (now (w_db w2)) x" by (simp add: row_live_def)
  have id: "ar_id y = acct_ID acct" using y(2) by (simp add: account_of_def)
  from ids y(1) have "ar_id y \<noteq> uuid_Nil" by blast
  from session_of_live [OF ok' x(1,3) live _ _ this] d' y id x(4)
  have ssn: "session_of a (req_ssn r2) (now (w_db w2)) (contents (w_db w2)) = (tr_token x, tr_data x, Some acct)"
    using next_req(1) next_db(1) x(2) by simp
  obtain rnd waited where rt: "am_runtime a = engine_runtime rnd waited" using config_runtime [OF assms(1)] by blast
  from session_load_exact [OF next_db(2) next_req(2) _ rt next_req(3)] ok' next_db(1) ssn
  obtain r3 w3 where "session_load a r2 w2 = (Next r3, w3)" "ctx_Account (req_ctx r3) = Some acct"
    and ctx: "ctx_Session (req_ctx r3) (w_sessions w3) = (tr_token x, or_null (tr_data x), False)" by auto
  with SessionID_ctx_Session [OF ctx] acct x(2) show ?thesis by auto
qed

theorem session_after_login_witness:
  "\<exists>r' w' r3 w3. login_flow sample_app (sample_request None) (sample_world [] False) = (Next r', w')
     \<and> session_load sample_app ((sample_request None)\<lparr>req_ssn := Some (SessionID (req_ctx r') (w_sessions w'))\<rparr>)
         ((sample_world [] False)\<lparr>w_db := sample_accounts\<lparr>contents := contents (w_db w')\<rparr>\<rparr>) = (Next r3, w3)
     \<and> ctx_Account (req_ctx r3) \<noteq> None"
proof -
  obtain r' w' where run: "login_flow sample_app (sample_request None) (sample_world [] False) = (Next r', w')"
    by (rule goes_on_obtain [OF sample_flows(1)])
  have keeps: "config_keeps sample_app" "consistent (sample_world [] False)"
    by (auto simp: config_keeps_def handler_keeps_def sample_app_def consistent_def engine_inv_def)
  have ids: "\<forall>y\<in>set (accounts_accounts (contents (w_db (sample_world [] False)))). ar_id y \<noteq> uuid_Nil"
    by code_simp
  have fresh: "generateNewToken (am_RawTokenSize sample_app) (w_rnd (sample_world [] False) (w_draws (sample_world [] False))) \<noteq> []"
    by code_simp
  show ?thesis
    using session_after_login [OF keeps _ _ ids _ _ run,
        of "(sample_request None)\<lparr>req_ssn := Some (SessionID (req_ctx r') (w_sessions w'))\<rparr>"
          "(sample_world [] False)\<lparr>w_db := sample_accounts\<lparr>contents := contents (w_db w')\<rparr>\<rparr>"] fresh run
    by (force simp: pg_second_def)
qed

end
