(* ===== verification/Migrate.thy ===== *)
theory Migrate
  imports Sqltx "HOL-Library.Sublist"
begin

text \<open>
  Package \<^verbatim>\<open>migrate\<close> (\<^verbatim>\<open>src/pgdb/migrate/migrate.go\<close>): registration of migration groups, their order,
  and the transaction that applies the migrations that are missing. Three parts are not code of
  the repository and hence parameters: the topological sort of \<^verbatim>\<open>go-toposort\<close>, what PostgreSQL does
  with the text of a migration, and what \<^verbatim>\<open>text/template\<close> makes of a template. The file system of a
  group is the result of parsing its \<^verbatim>\<open>*.tpl\<close> files. Logging is left out. The
  advisory lock is taken by a statement that does nothing, as the engine has one client at a time; that two migrators exclude each
  other is not modelled.
\<close>

section \<open>State\<close>

record 'conf template =
  tpl_Name :: string
  tpl_Execute :: "(string, 'conf) gomap \<Rightarrow> string res"

text \<open>What \<^verbatim>\<open>ParseFS\<close> returns for a file system: its templates, in no particular order.\<close>

type_synonym 'conf migfs = "'conf template list res"

record 'conf Migrator =
  mg_AdvisoryLockID :: int
  mg_execData :: "(string, 'conf) gomap"
  mg_groupMigs :: "(string, 'conf migfs) gomap"
  mg_groupDeps :: "(string, (string, bool) gomap) gomap"

definition ErrCycle :: goerr where "ErrCycle = ConstError ''cycle detected in migration groups''"
definition ErrMissingGroup :: goerr where "ErrMissingGroup = ConstError ''migration group(s) not registered''"
definition ErrGroupRegistered :: goerr where "ErrGroupRegistered = ConstError ''group already registered''"

definition migrate_New :: "int option \<Rightarrow> 'conf Migrator" where
  "migrate_New conf = \<lparr>mg_AdvisoryLockID = (case conf of None \<Rightarrow> 0 | Some lock \<Rightarrow> lock),
     mg_execData = [], mg_groupMigs = [], mg_groupDeps = []\<rparr>"

section \<open>Registration and order\<close>

definition Register_group :: "string \<Rightarrow> 'conf \<Rightarrow> 'conf migfs \<Rightarrow> string list \<Rightarrow> 'conf Migrator
    \<Rightarrow> goerr option \<times> 'conf Migrator" where
  "Register_group grp conf migrations after m =
     (case map_of (mg_groupMigs m) grp of
        Some _ \<Rightarrow> (Some (Errorf_w (''migrate: group '' @ grp @ '': '') ErrGroupRegistered), m)
      | None \<Rightarrow>
          let deps = (case map_of (mg_groupDeps m) grp of None \<Rightarrow> [] | Some ds \<Rightarrow> ds);
              deps' = fold (\<lambda>dep. gomap_set dep True) after deps
          in (None, m\<lparr>mg_groupMigs := gomap_set grp migrations (mg_groupMigs m),
                mg_execData := gomap_set grp conf (mg_execData m),
                mg_groupDeps := gomap_set grp deps' (mg_groupDeps m)\<rparr>))"

text \<open>A sort gets the nodes and the edges, from a dependency to its dependent; none is a cycle.\<close>

type_synonym toposort = "string list \<Rightarrow> (string \<times> string) list \<Rightarrow> string list option"

definition dep_edges :: "(string, (string, bool) gomap) gomap \<Rightarrow> (string \<times> string) list" where
  "dep_edges groupDeps = concat (map (\<lambda>(to, deps). map (\<lambda>(dep, _). (dep, to)) deps) groupDeps)"

definition missing_groups :: "(string, (string, bool) gomap) gomap \<Rightarrow> string list" where
  "missing_groups groupDeps =
     sort (remdups (filter (\<lambda>g. map_of groupDeps g = None)
       (concat (map (\<lambda>(to, deps). to # map fst deps) groupDeps))))"

text \<open>The text of a list of strings for \<^verbatim>\<open>%v\<close>.\<close>

fun words_text :: "string list \<Rightarrow> string" where
  "words_text [] = []"
| "words_text [s] = s"
| "words_text (s # ss) = s @ '' '' @ words_text ss"

definition orderMigrationGroups :: "toposort \<Rightarrow> 'conf Migrator \<Rightarrow> string list res" where
  "orderMigrationGroups toposort m =
     (case toposort (map fst (mg_groupDeps m)) (dep_edges (mg_groupDeps m)) of
        None \<Rightarrow> Inl (Errorf_w ''migrate: '' ErrCycle)
      | Some order \<Rightarrow>
          let missing = missing_groups (mg_groupDeps m)
          in if missing \<noteq> []
             then Inl (Errorf_w (''migrate: groups ['' @ words_text missing @ '']: '') ErrMissingGroup)
             else Inr order)"

section \<open>Preparation\<close>

fun go_Contains :: "string \<Rightarrow> string \<Rightarrow> bool" where
  "go_Contains [] sub = (sub = [])"
| "go_Contains (c # s) sub = (go_HasPrefix (c # s) sub \<or> go_Contains s sub)"

fun execute_templates :: "(string, 'conf) gomap \<Rightarrow> 'conf template list \<Rightarrow> (string list \<times> string list) res" where
  "execute_templates data [] = Inr ([], [])"
| "execute_templates data (t # ts) =
     (case tpl_Execute t data of
        Inl err \<Rightarrow> Inl err
      | Inr s \<Rightarrow>
          (case execute_templates data ts of
             Inl err \<Rightarrow> Inl err
           | Inr (stmts, names) \<Rightarrow> Inr (s # stmts, tpl_Name t # names)))"

definition prepareMigrationsFS :: "'conf Migrator \<Rightarrow> 'conf migfs \<Rightarrow> (string list \<times> string list) res" where
  "prepareMigrationsFS m fs =
     (case fs of
        Inl err \<Rightarrow> if go_Contains (err_text err) ''pattern matches no files'' then Inr ([], []) else Inl err
      | Inr tpls \<Rightarrow> execute_templates (mg_execData m) (sort_key tpl_Name tpls))"

text \<open>The loop over the groups, in the order the map yields them.\<close>

fun prepare_groups :: "'conf Migrator \<Rightarrow> (string, 'conf migfs) gomap
    \<Rightarrow> (string, string list) gomap \<Rightarrow> (string, string list) gomap
    \<Rightarrow> ((string, string list) gomap \<times> (string, string list) gomap) res" where
  "prepare_groups m [] groupStmts groupNames = Inr (groupStmts, groupNames)"
| "prepare_groups m ((grp, fs) # rest) groupStmts groupNames =
     (case prepareMigrationsFS m fs of
        Inl err \<Rightarrow> Inl err
      | Inr (stmts, names) \<Rightarrow>
          prepare_groups m rest (gomap_set grp stmts groupStmts) (gomap_set grp names groupNames))"

definition prepareGroupMigrations :: "'conf Migrator
    \<Rightarrow> ((string, string list) gomap \<times> (string, string list) gomap) res" where
  "prepareGroupMigrations m = prepare_groups m (mg_groupMigs m) [] []"

section \<open>The table of versions\<close>

text \<open>
  The database: the table \<^verbatim>\<open>migrate_versions\<close>, none when it was not created yet, and whatever the
  migrations create, as an extension of the record.
\<close>

record migrate_db =
  migrate_versions :: "(string \<times> int) list option"

type_synonym 'z mig_sql = "string \<Rightarrow> ('z migrate_db_scheme, unit) stmt"

definition UndefinedTable :: string where "UndefinedTable = ''42P01''"

definition acquireLock_sql :: "int \<Rightarrow> ('z migrate_db_scheme, unit) stmt" where
  "acquireLock_sql lock t d = Inr ((), d)"

definition createVersions_sql :: "('z migrate_db_scheme, unit) stmt" where
  "createVersions_sql t d =
     (case migrate_versions d of
        None \<Rightarrow> Inr ((), d\<lparr>migrate_versions := Some []\<rparr>)
      | Some _ \<Rightarrow> Inr ((), d))"

definition groupLastVersion_sql :: "string \<Rightarrow> ('z migrate_db_scheme, int list) stmt" where
  "groupLastVersion_sql grp t d =
     (case migrate_versions d of
        None \<Rightarrow> Inl (pg_fail UndefinedTable ''migrate_versions'' [])
      | Some vs \<Rightarrow> Inr (map snd (filter (\<lambda>(g, v). g = grp) vs), d))"

definition chk_group_length :: "string \<Rightarrow> bool" where
  "chk_group_length grp \<longleftrightarrow> 1 \<le> pg_length grp \<and> pg_length grp \<le> 100"

definition setGroupVersion_sql :: "string \<Rightarrow> int \<Rightarrow> ('z migrate_db_scheme, unit) stmt" where
  "setGroupVersion_sql grp version t d =
     (case migrate_versions d of
        None \<Rightarrow> Inl (pg_fail UndefinedTable ''migrate_versions'' [])
      | Some vs \<Rightarrow>
          if version \<ge> 2 ^ 31 then Inl (pg_fail NumericValueOutOfRange ''migrate_versions'' [])
          else if \<not> chk_group_length grp then Inl (pg_fail CheckViolation ''migrate_versions'' ''chk_group_length'')
          else if version < 0 then Inl (pg_fail CheckViolation ''migrate_versions'' ''migrate_versions_version_check'')
          else Inr ((), d\<lparr>migrate_versions := Some (gomap_set grp version vs)\<rparr>))"

text \<open>The migrator's own migration, a file without template directives.\<close>

definition create_versions_text :: string where
  "create_versions_text = concat (map (\<lambda>l. l @ [CHR 0x0A])
     [''CREATE TABLE IF NOT EXISTS \"migrate_versions\" ('',
      ''  \"group\"   TEXT NOT NULL,'',
      ''  \"version\" INTEGER      NOT NULL CHECK (\"version\" >= 0),'',
      ''  \"created\" TIMESTAMPTZ  NOT NULL DEFAULT current_timestamp,'',
      [],
      ''  PRIMARY KEY (\"group\"),'',
      CHR 0x09 # ''CONSTRAINT chk_group_length CHECK (length(\"group\") >= 1 AND length(\"group\") <= 100)'',
      '')''])"

definition root_fs :: "'conf migfs" where
  "root_fs = Inr [\<lparr>tpl_Name = ''001_create_table_migrate_versions.sql.tpl'', tpl_Execute = (\<lambda>_. Inr create_versions_text)\<rparr>]"

section \<open>Migrate\<close>

definition groupLastVersion :: "queryer \<Rightarrow> string \<Rightarrow> 'z migrate_db_scheme engine \<Rightarrow> int res \<times> 'z migrate_db_scheme engine" where
  "groupLastVersion q grp e =
     (case QueryOne q (groupLastVersion_sql grp) e of
        (Inl err, e1) \<Rightarrow> if Is (Some err) (SentinelTarget ErrNoRows) then (Inr (- 1), e1) else (Inl err, e1)
      | (Inr v, e1) \<Rightarrow> (Inr v, e1))"

definition setGroupLastVersion :: "queryer \<Rightarrow> string \<Rightarrow> int \<Rightarrow> 'z migrate_db_scheme engine
    \<Rightarrow> unit res \<times> 'z migrate_db_scheme engine" where
  "setGroupLastVersion q grp version e = Exec q (setGroupVersion_sql grp version) e"

fun applyMigrations :: "'z mig_sql \<Rightarrow> queryer \<Rightarrow> string list \<Rightarrow> string list \<Rightarrow> 'z migrate_db_scheme engine
    \<Rightarrow> unit res outcome \<times> 'z migrate_db_scheme engine" where
  "applyMigrations sql q [] names e = (Ret (Inr ()), e)"
| "applyMigrations sql q (mig # migs) [] e = (Panic ''index out of range'', e)"
| "applyMigrations sql q (mig # migs) (name # names) e =
     (case Exec q (sql mig) e of
        (Inl err, e1) \<Rightarrow> (Ret (Inl (Errorf_w (''migrate: '' @ name @ '': '') err)), e1)
      | (Inr _, e1) \<Rightarrow> applyMigrations sql q migs names e1)"

text \<open>The body of the loop over the groups; a map without the key yields the empty list.\<close>

definition gomap_list :: "('k, 'v list) gomap \<Rightarrow> 'k \<Rightarrow> 'v list" where
  "gomap_list m k = (case map_of m k of None \<Rightarrow> [] | Some xs \<Rightarrow> xs)"

definition migrate_group :: "'z mig_sql \<Rightarrow> queryer \<Rightarrow> (string, string list) gomap \<Rightarrow> (string, string list) gomap
    \<Rightarrow> string \<Rightarrow> 'z migrate_db_scheme engine \<Rightarrow> unit res outcome \<times> 'z migrate_db_scheme engine" where
  "migrate_group sql q groupStmts groupNames grp e =
     (case groupLastVersion q grp e of
        (Inl err, e1) \<Rightarrow> (Ret (Inl err), e1)
      | (Inr lastv, e1) \<Rightarrow>
          let stmts = gomap_list groupStmts grp; names = gomap_list groupNames grp in
          if int (length stmts) > lastv + 1 then
            if lastv + 1 < 0 \<or> int (length names) < lastv + 1 then (Panic ''slice bounds out of range'', e1)
            else
              (case applyMigrations sql q (drop (nat (lastv + 1)) stmts) (drop (nat (lastv + 1)) names) e1 of
                 (Panic p, e2) \<Rightarrow> (Panic p, e2)
               | (Ret (Inl err), e2) \<Rightarrow> (Ret (Inl err), e2)
               | (Ret (Inr _), e2) \<Rightarrow>
                   (case setGroupLastVersion q grp (int (length stmts) - 1) e2 of (r, e3) \<Rightarrow> (Ret r, e3)))
          else (Ret (Inr ()), e1))"

fun migrate_groups :: "'z mig_sql \<Rightarrow> queryer \<Rightarrow> (string, string list) gomap \<Rightarrow> (string, string list) gomap
    \<Rightarrow> string list \<Rightarrow> 'z migrate_db_scheme engine \<Rightarrow> unit res outcome \<times> 'z migrate_db_scheme engine" where
  "migrate_groups sql q groupStmts groupNames [] e = (Ret (Inr ()), e)"
| "migrate_groups sql q groupStmts groupNames (grp # order) e =
     (case migrate_group sql q groupStmts groupNames grp e of
        (Ret (Inr _), e1) \<Rightarrow> migrate_groups sql q groupStmts groupNames order e1
      | (r, e1) \<Rightarrow> (r, e1))"

definition migrate_tx :: "'z mig_sql \<Rightarrow> int \<Rightarrow> string list \<Rightarrow> string list \<Rightarrow> (string, string list) gomap
    \<Rightarrow> (string, string list) gomap \<Rightarrow> string list \<Rightarrow> ('a, 'z migrate_db_scheme engine, unit) tx_fn" where
  "migrate_tx sql lock rootStmts rootNames groupStmts groupNames order c tx e =
     (case Exec (QTx tx) (acquireLock_sql lock) e of
        (Inl err, e1) \<Rightarrow> (Ret (Inl err), e1)
      | (Inr _, e1) \<Rightarrow>
          (case applyMigrations sql (QTx tx) rootStmts rootNames e1 of
             (Ret (Inr _), e2) \<Rightarrow> migrate_groups sql (QTx tx) groupStmts groupNames order e2
           | (r, e2) \<Rightarrow> (r, e2)))"

definition Migrate :: "toposort \<Rightarrow> 'z mig_sql \<Rightarrow> 'z migrate_db_scheme engine runtime \<Rightarrow> 'conf Migrator \<Rightarrow> 'a ctx
    \<Rightarrow> 'z migrate_db_scheme engine \<Rightarrow> unit res outcome \<times> 'z migrate_db_scheme engine" where
  "Migrate toposort sql rt m c e =
     (case orderMigrationGroups toposort m of
        Inl err \<Rightarrow> (Ret (Inl err), e)
      | Inr order \<Rightarrow>
          (case prepareGroupMigrations m of
             Inl err \<Rightarrow> (Ret (Inl err), e)
           | Inr (groupStmts, groupNames) \<Rightarrow>
               (case prepareMigrationsFS m root_fs of
                  Inl err \<Rightarrow> (Ret (Inl err), e)
                | Inr (rootStmts, rootNames) \<Rightarrow>
                    Tx engine_driver rt c None
                      (migrate_tx sql (mg_AdvisoryLockID m) rootStmts rootNames groupStmts groupNames order) e)))"

section \<open>What a migration does to the contents\<close>

text \<open>The reference: the statements one after the other on the contents, none when one fails.\<close>

fun apply_all :: "'z mig_sql \<Rightarrow> string list \<Rightarrow> int \<Rightarrow> 'z migrate_db_scheme \<Rightarrow> 'z migrate_db_scheme option" where
  "apply_all sql [] t d = Some d"
| "apply_all sql (mig # migs) t d = (case sql mig t d of Inl _ \<Rightarrow> None | Inr (_, d') \<Rightarrow> apply_all sql migs t d')"

definition last_version :: "string \<Rightarrow> 'z migrate_db_scheme \<Rightarrow> int" where
  "last_version g d = (case migrate_versions d of None \<Rightarrow> - 1 | Some vs \<Rightarrow>
     (case map_of vs g of None \<Rightarrow> - 1 | Some v \<Rightarrow> v))"

definition pending :: "(string, string list) gomap \<Rightarrow> 'z migrate_db_scheme \<Rightarrow> string \<Rightarrow> string list" where
  "pending groupStmts d g = drop (nat (last_version g d + 1)) (gomap_list groupStmts g)"

definition migrated_group :: "'z mig_sql \<Rightarrow> (string, string list) gomap \<Rightarrow> int \<Rightarrow> string \<Rightarrow> 'z migrate_db_scheme
    \<Rightarrow> 'z migrate_db_scheme option" where
  "migrated_group sql groupStmts t g d =
     (if pending groupStmts d g = [] then Some d
      else case apply_all sql (pending groupStmts d g) t d of
             None \<Rightarrow> None
           | Some d1 \<Rightarrow>
               (case setGroupVersion_sql g (int (length (gomap_list groupStmts g)) - 1) t d1 of
                  Inl _ \<Rightarrow> None | Inr (_, d2) \<Rightarrow> Some d2))"

fun migrated_groups :: "'z mig_sql \<Rightarrow> (string, string list) gomap \<Rightarrow> int \<Rightarrow> string list \<Rightarrow> 'z migrate_db_scheme
    \<Rightarrow> 'z migrate_db_scheme option" where
  "migrated_groups sql groupStmts t [] d = Some d"
| "migrated_groups sql groupStmts t (g # gs) d =
     (case migrated_group sql groupStmts t g d of None \<Rightarrow> None | Some d' \<Rightarrow> migrated_groups sql groupStmts t gs d')"

definition with_versions :: "'z migrate_db_scheme \<Rightarrow> 'z migrate_db_scheme" where
  "with_versions d = d\<lparr>migrate_versions := Some (case migrate_versions d of None \<Rightarrow> [] | Some vs \<Rightarrow> vs)\<rparr>"

text \<open>The table of versions as the database keeps it: one row for a group, no negative version.\<close>

definition versions_ok :: "'z migrate_db_scheme \<Rightarrow> bool" where
  "versions_ok d \<longleftrightarrow> (\<forall>vs. migrate_versions d = Some vs \<longrightarrow> gomap_wf vs \<and> (\<forall>(g, v) \<in> set vs. 0 \<le> v))"

text \<open>What PostgreSQL does with the texts, as far as the migrator relies on it.\<close>

definition sql_ok :: "'z mig_sql \<Rightarrow> bool" where
  "sql_ok sql \<longleftrightarrow> sql create_versions_text = createVersions_sql
     \<and> (\<forall>s t d d'. sql s t d = Inr ((), d') \<longrightarrow> migrate_versions d \<noteq> None \<longrightarrow> migrate_versions d' = migrate_versions d)"

section \<open>The transaction\<close>

text \<open>A step that touches only its transaction, and does not revive it when it is aborted.\<close>

definition tx_frame :: "nat \<Rightarrow> 'd engine \<Rightarrow> 'd engine \<Rightarrow> bool" where
  "tx_frame tx e e' \<longleftrightarrow> contents e' = contents e \<and> now e' = now e \<and> (\<forall>u. u \<noteq> tx \<longrightarrow> tx_lookup e' u = tx_lookup e u)
     \<and> (\<forall>d'. tx_lookup e' tx = Some (Active d') \<longrightarrow> (\<exists>d. tx_lookup e tx = Some (Active d)))"

lemma tx_frame_refl [simp]: "tx_frame tx e e"
  by (simp add: tx_frame_def)

lemma tx_frame_trans: "tx_frame tx e e1 \<Longrightarrow> tx_frame tx e1 e2 \<Longrightarrow> tx_frame tx e e2"
  by (auto simp: tx_frame_def)

lemma run_stmt_frame: "run_stmt (QTx tx) st e = (r, e') \<Longrightarrow> tx_frame tx e e'"
  unfolding tx_frame_def using run_stmt_QTx_confined [of tx st e r e']
  by (auto simp: run_stmt_def split: option.splits tx_state.splits)

lemma Exec_frame: "Exec (QTx tx) st e = (r, e') \<Longrightarrow> tx_frame tx e e'"
  by (auto simp: Exec_def intro: run_stmt_frame)

lemma Exec_tx_ok:
  "Exec (QTx tx) st e = (Inr r, e') \<Longrightarrow> tx_lookup e tx = Some (Active d) \<Longrightarrow>
     \<exists>d'. st (now e) d = Inr (r, d') \<and> tx_lookup e' tx = Some (Active d')"
  using run_stmt_QTx_ok [of tx st e r e'] by (auto simp: Exec_def)

lemma applyMigrations_tx:
  "applyMigrations sql (QTx tx) migs names e = (r, e') \<Longrightarrow> tx_frame tx e e' \<and>
     (\<forall>d u. r = Ret (Inr u) \<longrightarrow> tx_lookup e tx = Some (Active d) \<longrightarrow>
        (\<exists>d'. tx_lookup e' tx = Some (Active d') \<and> apply_all sql migs (now e) d = Some d'))"
proof (induction sql "QTx tx" migs names e arbitrary: r e' rule: applyMigrations.induct)
  case (3 sql mig migs name names e)
  obtain y e1 where y: "Exec (QTx tx) (sql mig) e = (y, e1)" by fastforce
  note frame = Exec_frame [OF y]
  show ?case
  proof (cases y)
    case (Inl err)
    with 3(2) y frame show ?thesis by auto
  next
    case (Inr u)
    with 3(2) y have rest: "applyMigrations sql (QTx tx) migs names e1 = (r, e')" by simp
    from 3(1) [OF y [symmetric] Inr rest] frame have f: "tx_frame tx e e'" "now e1 = now e"
      by (auto intro: tx_frame_trans simp: tx_frame_def)
    with 3(1) [OF y [symmetric] Inr rest] Exec_tx_ok [OF y [unfolded Inr]] show ?thesis by fastforce
  qed
qed auto

lemma select_version:
  "gomap_wf vs \<Longrightarrow> map snd (filter (\<lambda>(g', v). g' = g) vs) = (case map_of vs g of None \<Rightarrow> [] | Some v \<Rightarrow> [v])"
proof (induction vs)
  case (Cons p vs)
  have none: "map_of vs g = None \<Longrightarrow> filter (\<lambda>(g', v). g' = g) vs = []"
    by (auto simp: filter_empty_conv map_of_eq_None_iff rev_image_eqI)
  from Cons.prems have "fst p \<notin> fst ` set vs" by simp
  then have "fst p = g \<Longrightarrow> map_of vs g = None" by (simp add: map_of_eq_None_iff)
  with Cons none show ?case by (cases p) auto
qed simp

lemma groupLastVersion_tx:
  assumes "groupLastVersion (QTx tx) g e = (r, e')"
  shows "tx_frame tx e e' \<and> (\<forall>v d d'. r = Inr v \<longrightarrow> tx_lookup e tx = Some (Active d) \<longrightarrow> tx_lookup e' tx = Some (Active d') \<longrightarrow>
     versions_ok d \<longrightarrow> d' = d \<and> migrate_versions d \<noteq> None \<and> v = last_version g d)"
proof -
  obtain y where q: "run_stmt (QTx tx) (groupLastVersion_sql g) e = (y, e')"
    using assms QueryOne_run [of "QTx tx" "groupLastVersion_sql g" e]
    by (fastforce simp: groupLastVersion_def split: prod.splits sum.splits if_splits)
  show ?thesis
  proof (cases y)
    case (Inl err)
    have "tx_lookup e' tx \<noteq> Some (Active d')" for d'
      using q Inl by (auto simp: run_stmt_def tx_lookup_put pop_fault_lookup
          split: option.splits prod.splits tx_state.splits sum.splits)
    with run_stmt_frame [OF q] show ?thesis by simp
  next
    case (Inr rows)
    from run_stmt_QTx_ok [OF q [unfolded Inr]] obtain d where d: "tx_lookup e tx = Some (Active d)"
      "tx_lookup e' tx = Some (Active d)" "migrate_versions d \<noteq> None"
      "\<And>vs. migrate_versions d = Some vs \<Longrightarrow> rows = map snd (filter (\<lambda>(g', v). g' = g) vs)"
      by (auto simp: groupLastVersion_sql_def split: option.splits)
    then obtain vs where vs: "migrate_versions d = Some vs" by blast
    have "v = last_version g d" if "r = Inr v" "versions_ok d" for v
    proof -
      have "rows = (case map_of vs g of None \<Rightarrow> [] | Some v \<Rightarrow> [v])"
        using d(4) [OF vs] select_version [of vs g] that(2) vs by (simp add: versions_ok_def)
      with assms q Inr that(1) vs show ?thesis
        by (auto simp: groupLastVersion_def QueryOne_def last_version_def split: option.splits)
    qed
    with d run_stmt_frame [OF q] show ?thesis by simp
  qed
qed

lemma apply_all_versions:
  assumes "sql_ok sql"
  shows "apply_all sql migs t d = Some d' \<Longrightarrow> migrate_versions d \<noteq> None \<Longrightarrow> migrate_versions d' = migrate_versions d"
proof (induction migs arbitrary: d)
  case (Cons s migs)
  then obtain d1 where "sql s t d = Inr ((), d1)" "apply_all sql migs t d1 = Some d'" by (auto split: sum.splits)
  moreover from this(1) Cons.prems assms have "migrate_versions d1 = migrate_versions d" by (auto simp: sql_ok_def)
  ultimately show ?case using Cons by simp
qed simp

lemma versions_ok_set:
  assumes "versions_ok d" "setGroupVersion_sql g v t d = Inr (u, d')"
  shows "versions_ok d' \<and> migrate_versions d' \<noteq> None"
proof -
  from assms(2) obtain vs where vs: "migrate_versions d = Some vs" "0 \<le> v" "d' = d\<lparr>migrate_versions := Some (gomap_set g v vs)\<rparr>"
    by (auto simp: setGroupVersion_sql_def split: option.splits if_splits)
  with assms(1) have wf: "gomap_wf vs" "\<forall>(g, v) \<in> set vs. 0 \<le> v" by (auto simp: versions_ok_def)
  have "0 \<le> w" if "(k, w) \<in> set (gomap_set g v vs)" for k w
  proof -
    from map_of_is_SomeI [OF gomap_wf_set [OF wf(1)] that] have "map_of (gomap_set g v vs) k = Some w" .
    with wf vs(2) show ?thesis by (auto split: if_splits dest!: map_of_SomeD)
  qed
  with wf(1) vs(3) show ?thesis by (auto simp: versions_ok_def gomap_wf_set)
qed

lemma migrated_group_versions:
  assumes "sql_ok sql" "versions_ok d" "migrate_versions d \<noteq> None" "migrated_group sql groupStmts t g d = Some d'"
  shows "versions_ok d' \<and> migrate_versions d' \<noteq> None"
proof (cases "pending groupStmts d g = []")
  case False
  with assms(4) obtain d1 u where d1: "apply_all sql (pending groupStmts d g) t d = Some d1"
    "setGroupVersion_sql g (int (length (gomap_list groupStmts g)) - 1) t d1 = Inr (u, d')"
    by (auto simp: migrated_group_def split: option.splits sum.splits)
  from apply_all_versions [OF assms(1) d1(1) assms(3)] assms(2) have "versions_ok d1" by (simp add: versions_ok_def)
  with versions_ok_set d1(2) show ?thesis by blast
qed (use assms in \<open>simp add: migrated_group_def\<close>)

lemma last_version_ge: "versions_ok d \<Longrightarrow> - 1 \<le> last_version g d"
  by (force simp: versions_ok_def last_version_def split: option.splits dest: map_of_SomeD)

lemma migrate_group_tx:
  assumes "migrate_group sql (QTx tx) groupStmts groupNames g e = (r, e')"
  shows "tx_frame tx e e' \<and> (\<forall>u d d'. r = Ret (Inr u) \<longrightarrow> tx_lookup e tx = Some (Active d) \<longrightarrow>
    tx_lookup e' tx = Some (Active d') \<longrightarrow> versions_ok d \<longrightarrow> migrated_group sql groupStmts (now e) g d = Some d')"
proof -
  obtain y e1 where y: "groupLastVersion (QTx tx) g e = (y, e1)" by fastforce
  note gl = groupLastVersion_tx [OF y]
  show ?thesis
  proof (cases y)
    case (Inl err)
    with assms y gl show ?thesis by (auto simp: migrate_group_def)
  next
    case (Inr v)
    let ?stmts = "gomap_list groupStmts g" and ?names = "gomap_list groupNames g"
    let ?rest = "drop (nat (v + 1)) ?stmts"
    show ?thesis
    proof (cases "int (length ?stmts) > v + 1 \<and> \<not> (v + 1 < 0 \<or> int (length ?names) < v + 1)")
      case False
      have "pending groupStmts d g = []" if "versions_ok d" "v = last_version g d" "r = Ret (Inr u)" for d u
        using that False assms y Inr last_version_ge [of d g] by (auto simp: migrate_group_def pending_def Let_def split: if_splits)
      with False assms y Inr gl show ?thesis
        by (auto simp: migrate_group_def migrated_group_def Let_def split: if_splits)
    next
      case True
      obtain z e2 where z: "applyMigrations sql (QTx tx) ?rest (drop (nat (v + 1)) ?names) e1 = (z, e2)" by fastforce
      note am = applyMigrations_tx [OF z]
      obtain s e3 where s: "setGroupLastVersion (QTx tx) g (int (length ?stmts) - 1) e2 = (s, e3)" by fastforce
      note sv = Exec_frame [of tx _ e2 s e3, OF s [unfolded setGroupLastVersion_def]]
      have e': "(\<forall>u. z \<noteq> Ret (Inr u)) \<and> r = z \<and> e' = e2 \<or> z = Ret (Inr ()) \<and> r = Ret s \<and> e' = e3"
        using assms y Inr True z s by (auto simp: migrate_group_def Let_def split: outcome.splits sum.splits)
      have fr: "tx_frame tx e e'" using e' gl am sv by (auto intro: tx_frame_trans)
      have "migrated_group sql groupStmts (now e) g d = Some d'"
        if r: "r = Ret (Inr u)" and d: "tx_lookup e tx = Some (Active d)" "tx_lookup e' tx = Some (Active d')" "versions_ok d" for u d d'
      proof -
        from e' r have ok: "z = Ret (Inr ())" "s = Inr u" "e' = e3" by auto
        from am sv d(2) ok(3) obtain d1 where "tx_lookup e1 tx = Some (Active d1)" by (auto simp: tx_frame_def)
        with gl Inr d have l: "tx_lookup e1 tx = Some (Active d)" "v = last_version g d" "now e1 = now e" by (auto simp: tx_frame_def)
        with am ok obtain d2 where d2: "tx_lookup e2 tx = Some (Active d2)" "apply_all sql ?rest (now e) d = Some d2" by auto
        from am l have "now e2 = now e" by (simp add: tx_frame_def)
        with Exec_tx_ok [OF s [unfolded setGroupLastVersion_def ok(2)] d2(1)] d(2) ok(3)
        have "setGroupVersion_sql g (int (length ?stmts) - 1) (now e) d2 = Inr (u, d')" by auto
        moreover have "pending groupStmts d g = ?rest" "?rest \<noteq> []" using l True by (auto simp: pending_def)
        ultimately show ?thesis using d2 by (simp add: migrated_group_def)
      qed
      with fr show ?thesis by blast
    qed
  qed
qed

lemma migrate_groups_tx:
  assumes "sql_ok sql"
  shows "migrate_groups sql (QTx tx) groupStmts groupNames order e = (r, e') \<Longrightarrow> tx_frame tx e e' \<and>
    (\<forall>u d d'. r = Ret (Inr u) \<longrightarrow> tx_lookup e tx = Some (Active d) \<longrightarrow> tx_lookup e' tx = Some (Active d') \<longrightarrow>
      versions_ok d \<longrightarrow> migrate_versions d \<noteq> None \<longrightarrow> migrated_groups sql groupStmts (now e) order d = Some d')"
proof (induction order arbitrary: e)
  case (Cons g order)
  obtain y e1 where y: "migrate_group sql (QTx tx) groupStmts groupNames g e = (y, e1)" by fastforce
  note gt = migrate_group_tx [OF y]
  show ?case
  proof (cases "\<exists>u. y = Ret (Inr u)")
    case False
    with Cons.prems y gt show ?thesis by (auto split: outcome.splits sum.splits)
  next
    case True
    with Cons.prems y have rest: "migrate_groups sql (QTx tx) groupStmts groupNames order e1 = (r, e')" by auto
    note ih = Cons.IH [OF rest]
    have "migrated_groups sql groupStmts (now e) (g # order) d = Some d'"
      if r: "r = Ret (Inr u)" "tx_lookup e tx = Some (Active d)" "tx_lookup e' tx = Some (Active d')" "versions_ok d"
        "migrate_versions d \<noteq> None" for u d d'
    proof -
      from ih r(3) obtain d1 where d1: "tx_lookup e1 tx = Some (Active d1)" by (auto simp: tx_frame_def)
      with gt True r have "migrated_group sql groupStmts (now e) g d = Some d1" by blast
      with ih r d1 migrated_group_versions [OF assms r(4,5) this] gt show ?thesis by (auto simp: tx_frame_def)
    qed
    with gt ih show ?thesis by (blast intro: tx_frame_trans)
  qed
qed simp

lemma with_versions_simps [simp]:
  "migrate_versions (with_versions d) \<noteq> None" "last_version g (with_versions d) = last_version g d"
  "pending groupStmts (with_versions d) = pending groupStmts d" "versions_ok d \<Longrightarrow> versions_ok (with_versions d)"
  by (auto simp: with_versions_def last_version_def pending_def versions_ok_def fun_eq_iff split: option.splits)

lemma migrate_tx_post:
  assumes "sql_ok sql"
  shows "tx_post (migrate_tx sql lock [create_versions_text] names groupStmts groupNames order)
    (\<lambda>t d u d'. versions_ok d \<longrightarrow> migrated_groups sql groupStmts t order (with_versions d) = Some d')"
  unfolding tx_post_def
proof (intro allI impI)
  fix c tx e r e'
  assume run: "migrate_tx sql lock [create_versions_text] names groupStmts groupNames order c tx e = (r, e')"
  obtain y e1 where y: "Exec (QTx tx) (acquireLock_sql lock) e = (y, e1)" by fastforce
  obtain z e2 where z: "applyMigrations sql (QTx tx) [create_versions_text] names e1 = (z, e2)" by fastforce
  obtain s e3 where s: "migrate_groups sql (QTx tx) groupStmts groupNames order e2 = (s, e3)" by fastforce
  note f1 = Exec_frame [OF y] and f2 = applyMigrations_tx [OF z] and f3 = migrate_groups_tx [OF assms s]
  have cases: "(\<exists>err. y = Inl err \<and> r = Ret (Inl err) \<and> e' = e1) \<or> (y = Inr () \<and> (\<forall>u. z \<noteq> Ret (Inr u)) \<and> r = z \<and> e' = e2)
      \<or> (y = Inr () \<and> z = Ret (Inr ()) \<and> r = s \<and> e' = e3)"
    using run y z s by (cases z; cases y) (auto simp: migrate_tx_def split: sum.splits)
  have fr: "tx_frame tx e e'" using cases f1 f2 f3 by (auto intro: tx_frame_trans)
  have "migrated_groups sql groupStmts (now e) order (with_versions d) = Some d'"
    if "r = Ret (Inr x)" "tx_lookup e tx = Some (Active d)" "tx_lookup e' tx = Some (Active d')" "versions_ok d" for x d d'
  proof -
    from cases that(1) have ok: "y = Inr ()" "z = Ret (Inr ())" "r = s" "e' = e3" by auto
    from Exec_tx_ok [OF y [unfolded ok(1)] that(2)] have e1: "tx_lookup e1 tx = Some (Active d)" "now e1 = now e"
      using f1 by (auto simp: acquireLock_sql_def tx_frame_def)
    with f2 ok(2) assms have "tx_lookup e2 tx = Some (Active (with_versions d))" "now e2 = now e"
      by (auto simp: sql_ok_def createVersions_sql_def with_versions_def tx_frame_def split: option.splits)
    with f3 ok that show ?thesis by auto
  qed
  with fr show "contents e' = contents e \<and> now e' = now e \<and> (\<forall>u. u \<noteq> tx \<longrightarrow> tx_lookup e' u = tx_lookup e u) \<and>
    (\<forall>x d d'. r = Ret (Inr x) \<longrightarrow> tx_lookup e tx = Some (Active d) \<longrightarrow> tx_lookup e' tx = Some (Active d') \<longrightarrow>
       versions_ok d \<longrightarrow> migrated_groups sql groupStmts (now e) order (with_versions d) = Some d')"
    by (auto simp: tx_frame_def)
qed

section \<open>Registration and order\<close>

text \<open>The three maps of a migrator have the same keys, and dependencies are sets.\<close>

definition migrator_ok :: "'conf Migrator \<Rightarrow> bool" where
  "migrator_ok m \<longleftrightarrow> gomap_wf (mg_groupMigs m) \<and> gomap_wf (mg_groupDeps m) \<and> gomap_wf (mg_execData m)
     \<and> fst ` set (mg_groupDeps m) = fst ` set (mg_groupMigs m) \<and> fst ` set (mg_execData m) = fst ` set (mg_groupMigs m)"

lemma fold_deps: "map_of (fold (\<lambda>dep. gomap_set dep True) after ds) g =
    (if g \<in> set after then Some True else map_of ds g)"
  by (induction after arbitrary: ds) auto

text \<open>
  Registration keeps the migrator consistent. A group that is new is stored with its
  migrations, its configuration and exactly the dependencies given, and nothing else changes; a
  group that is already registered is refused, and the migrator stays as it was.
\<close>

theorem Register_exact:
  assumes "migrator_ok m" "Register_group g conf fs after m = (err, m')"
  shows "migrator_ok m' \<and> (case map_of (mg_groupMigs m) g of
      Some _ \<Rightarrow> m' = m \<and> err = Some (Errorf_w (''migrate: group '' @ g @ '': '') ErrGroupRegistered)
    | None \<Rightarrow> err = None \<and> map_of (mg_groupMigs m') = (map_of (mg_groupMigs m))(g \<mapsto> fs)
        \<and> map_of (mg_execData m') = (map_of (mg_execData m))(g \<mapsto> conf)
        \<and> (\<exists>ds. map_of (mg_groupDeps m') = (map_of (mg_groupDeps m))(g \<mapsto> ds) \<and> fst ` set ds = set after))"
proof (cases "map_of (mg_groupMigs m) g")
  case (Some x)
  with assms show ?thesis by (auto simp: Register_group_def)
next
  case None
  with assms(1) have "map_of (mg_groupDeps m) g = None" by (auto simp: migrator_ok_def map_of_eq_None_iff)
  moreover have "fst ` set (fold (\<lambda>dep. gomap_set dep True) after ds) = set after \<union> fst ` set ds" for ds
    by (induction after arbitrary: ds) auto
  ultimately have m': "m' = m\<lparr>mg_groupMigs := gomap_set g fs (mg_groupMigs m), mg_execData := gomap_set g conf (mg_execData m),
      mg_groupDeps := gomap_set g (fold (\<lambda>dep. gomap_set dep True) after []) (mg_groupDeps m)\<rparr>" "err = None"
    and ds: "fst ` set (fold (\<lambda>dep. gomap_set dep True) after []) = set after"
    using None assms(2) by (auto simp: Register_group_def)
  have "migrator_ok m'" using assms(1) unfolding migrator_ok_def m' by simp
  with None m' ds show ?thesis by (auto intro!: exI [of _ "fold (\<lambda>dep. gomap_set dep True) after []"])
qed

definition precedes :: "'a \<Rightarrow> 'a \<Rightarrow> 'a list \<Rightarrow> bool" where
  "precedes x y xs \<longleftrightarrow> (\<exists>us vs. xs = us @ y # vs \<and> x \<in> set us)"

text \<open>
  What a topological sort promises: an order of exactly the nodes in which every edge between
  nodes goes forward, or none, which means that the edges between nodes have a cycle.
\<close>

definition toposort_ok :: "toposort \<Rightarrow> bool" where
  "toposort_ok ts \<longleftrightarrow> (\<forall>nodes edges. distinct nodes \<longrightarrow>
     (case ts nodes edges of
        None \<Rightarrow> \<not> acyclic (set edges \<inter> set nodes \<times> set nodes)
      | Some order \<Rightarrow> distinct order \<and> set order = set nodes
          \<and> (\<forall>(x, y) \<in> set edges. x \<in> set nodes \<longrightarrow> y \<in> set nodes \<longrightarrow> precedes x y order)))"

text \<open>Who depends directly on whom.\<close>

definition depends :: "'conf Migrator \<Rightarrow> string \<Rightarrow> string \<Rightarrow> bool" where
  "depends m g dep \<longleftrightarrow> (\<exists>ds. map_of (mg_groupDeps m) g = Some ds \<and> dep \<in> fst ` set ds)"

lemma dep_edges_set: "gomap_wf (mg_groupDeps m) \<Longrightarrow> set (dep_edges (mg_groupDeps m)) = {(dep, g). depends m g dep}"
  by (force simp: dep_edges_def depends_def dest: map_of_SomeD)

lemma missing_groups_set:
  "gomap_wf (mg_groupDeps m) \<Longrightarrow> set (missing_groups (mg_groupDeps m)) =
     {dep. \<exists>g. depends m g dep \<and> dep \<notin> fst ` set (mg_groupDeps m)}"
  unfolding depends_def
  by (auto simp: missing_groups_def map_of_eq_None_iff map_of_eq_Some_iff rev_image_eqI)

lemma Is_Errorf_ConstError [simp]: "Is (Some (Errorf_w p (ConstError s))) (ConstTarget s') = (s = s')"
  by (auto simp: Errorf_w_def Is.simps(2) AsType.simps [of _ "ConstError _"] AsType.simps [of _ "WrapErr _ _"])

lemma orderMigrationGroups_cases:
  assumes "toposort_ok ts" "migrator_ok m"
  shows "case orderMigrationGroups ts m of
      Inr order \<Rightarrow> distinct order \<and> set order = fst ` set (mg_groupMigs m)
        \<and> (\<forall>g dep. depends m g dep \<longrightarrow> precedes dep g order)
    | Inl err \<Rightarrow> (Is (Some err) (ConstTarget ''cycle detected in migration groups'')
          \<and> \<not> acyclic {(dep, g). depends m g dep})
        \<or> (Is (Some err) (ConstTarget ''migration group(s) not registered'')
          \<and> (\<exists>g dep. depends m g dep \<and> dep \<notin> fst ` set (mg_groupMigs m)))"
proof -
  let ?nodes = "map fst (mg_groupDeps m)" and ?edges = "dep_edges (mg_groupDeps m)"
  from assms(2) have wf: "gomap_wf (mg_groupDeps m)" "set ?nodes = fst ` set (mg_groupMigs m)"
    by (simp_all add: migrator_ok_def)
  note edges = dep_edges_set [OF wf(1)] and missing = missing_groups_set [OF wf(1)]
  from assms(1) wf(1) have ts: "case ts ?nodes ?edges of
      None \<Rightarrow> \<not> acyclic (set ?edges \<inter> set ?nodes \<times> set ?nodes)
    | Some order \<Rightarrow> distinct order \<and> set order = set ?nodes
        \<and> (\<forall>(x, y) \<in> set ?edges. x \<in> set ?nodes \<longrightarrow> y \<in> set ?nodes \<longrightarrow> precedes x y order)"
    unfolding toposort_ok_def by blast
  have node: "depends m g dep \<Longrightarrow> g \<in> set ?nodes" for g dep
    by (auto simp: depends_def dest: map_of_SomeD intro: rev_image_eqI)
  show ?thesis
  proof (cases "ts ?nodes ?edges")
    case None
    with ts edges have "\<not> acyclic {(dep, g). depends m g dep}"
      using acyclic_subset [of "{(dep, g). depends m g dep}"] by fastforce
    with None show ?thesis by (simp add: orderMigrationGroups_def ErrCycle_def)
  next
    case (Some order)
    show ?thesis
    proof (cases "missing_groups (mg_groupDeps m) = []")
      case True
      with missing have "depends m g dep \<Longrightarrow> dep \<in> set ?nodes" for g dep by auto
      with True Some ts edges node wf(2) show ?thesis by (auto simp: orderMigrationGroups_def)
    next
      case False
      then obtain dep where "dep \<in> set (missing_groups (mg_groupDeps m))" using hd_in_set by blast
      with missing wf(2) have "\<exists>g dep. depends m g dep \<and> dep \<notin> fst ` set (mg_groupMigs m)" by auto
      with False Some show ?thesis by (simp add: orderMigrationGroups_def Let_def ErrMissingGroup_def)
    qed
  qed
qed

lemma orderMigrationGroups_result:
  assumes "toposort_ok ts" "migrator_ok m" "orderMigrationGroups ts m = Inr order"
  shows "distinct order \<and> set order = fst ` set (mg_groupMigs m) \<and> (\<forall>g dep. depends m g dep \<longrightarrow> precedes dep g order)"
  using orderMigrationGroups_cases [OF assms(1,2)] assms(3) by simp

text \<open>
  C20. The order of the groups: all registered groups, each once and after all groups it depends
  on. It is refused exactly when it cannot exist or when a dependency is not registered: with the
  cycle error only for a cycle among registered groups, and otherwise with the error for missing
  groups.
\<close>

theorem orderMigrationGroups_exact:
  assumes "toposort_ok ts" "migrator_ok m"
  shows "case orderMigrationGroups ts m of
      Inr order \<Rightarrow> distinct order \<and> set order = fst ` set (mg_groupMigs m)
        \<and> (\<forall>g dep. depends m g dep \<longrightarrow> precedes dep g order)
    | Inl err \<Rightarrow> (Is (Some err) (ConstTarget ''cycle detected in migration groups'')
          \<and> \<not> acyclic {(dep, g). depends m g dep})
        \<or> (Is (Some err) (ConstTarget ''migration group(s) not registered'')
          \<and> (\<exists>g dep. depends m g dep \<and> dep \<notin> fst ` set (mg_groupMigs m)))"
  using assms by (rule orderMigrationGroups_cases)

section \<open>What a run of the migrator does\<close>

lemma prepareMigrationsFS_root [simp]:
  "prepareMigrationsFS m root_fs = Inr ([create_versions_text], [''001_create_table_migrate_versions.sql.tpl''])"
  by (simp add: prepareMigrationsFS_def root_fs_def)

text \<open>
  A run that got as far as the transaction: whatever fails, the contents are as before or as the
  reference says.
\<close>

lemma Migrate_run:
  assumes "sql_ok sql" "versions_ok (contents e)"
    and "orderMigrationGroups ts m = Inr order" "prepareGroupMigrations m = Inr (groupStmts, groupNames)"
    and "Migrate ts sql (engine_runtime rnd waited) m c e = (r, e')"
  shows "tx_lookup e' = tx_lookup e \<and> now e' = now e \<and> tx_outcome_ok (contents e' = contents e)
    (\<lambda>_. migrated_groups sql groupStmts (now e) order (with_versions (contents e)) = Some (contents e')) r"
proof -
  from assms(3-5) have "Tx engine_driver (engine_runtime rnd waited) c None
      (migrate_tx sql (mg_AdvisoryLockID m) [create_versions_text] [''001_create_table_migrate_versions.sql.tpl'']
        groupStmts groupNames order) e = (r, e')"
    by (simp add: Migrate_def)
  from Tx_own [OF migrate_tx_post [OF assms(1)] this] assms(2) show ?thesis by simp
qed

lemma Migrate_refused:
  assumes "\<nexists>order. orderMigrationGroups ts m = Inr order" "Migrate ts sql rt m c e = (r, e')"
  shows "e' = e \<and> (\<exists>err. r = Ret (Inl err))"
  using assms by (auto simp: Migrate_def split: sum.splits)

lemma last_version_set:
  "setGroupVersion_sql g v t d = Inr (u, d') \<Longrightarrow> last_version g' d' = (if g' = g then v else last_version g' d)"
  by (auto simp: setGroupVersion_sql_def last_version_def split: option.splits if_splits)

lemma apply_all_last_version:
  "sql_ok sql \<Longrightarrow> apply_all sql migs t d = Some d' \<Longrightarrow> migrate_versions d \<noteq> None \<Longrightarrow> last_version g d' = last_version g d"
  using apply_all_versions [of sql migs t d d'] by (simp add: last_version_def)

lemma migrated_group_last_version:
  assumes "sql_ok sql" "migrate_versions d \<noteq> None" "migrated_group sql groupStmts t g d = Some d'"
  shows "last_version g' d' = (if g' = g \<and> pending groupStmts d g \<noteq> [] then int (length (gomap_list groupStmts g)) - 1
    else last_version g' d)"
  using assms by (auto simp: migrated_group_def last_version_set apply_all_last_version split: if_splits option.splits sum.splits)

lemma migrated_groups_last_version:
  assumes "sql_ok sql"
  shows "migrated_groups sql groupStmts t gs d = Some d' \<Longrightarrow> versions_ok d \<Longrightarrow> migrate_versions d \<noteq> None \<Longrightarrow> distinct gs \<Longrightarrow>
    last_version g d' = (if g \<in> set gs then max (last_version g d) (int (length (gomap_list groupStmts g)) - 1)
      else last_version g d) \<and> versions_ok d' \<and> migrate_versions d' \<noteq> None"
proof (induction gs arbitrary: d)
  case (Cons g1 gs)
  then obtain d1 where d1: "migrated_group sql groupStmts t g1 d = Some d1" "migrated_groups sql groupStmts t gs d1 = Some d'"
    by (auto split: option.splits)
  note v1 = migrated_group_versions [OF assms Cons.prems(2,3) d1(1)]
  have "last_version g d1 = (if g = g1 then max (last_version g d) (int (length (gomap_list groupStmts g)) - 1) else last_version g d)"
    using migrated_group_last_version [OF assms Cons.prems(3) d1(1), of g] last_version_ge [OF Cons.prems(2), of g1]
    by (auto simp: pending_def)
  with Cons.IH [OF d1(2)] v1 Cons.prems(4) show ?case by auto
qed simp

text \<open>The log of an observer: it sees the texts that succeed, and the table of versions is not in it.\<close>

definition observes :: "'z mig_sql \<Rightarrow> ('z migrate_db_scheme \<Rightarrow> string list) \<Rightarrow> bool" where
  "observes sql log \<longleftrightarrow> (\<forall>d vs. log (d\<lparr>migrate_versions := vs\<rparr>) = log d)
     \<and> (\<forall>s t d d'. sql s t d = Inr ((), d') \<longrightarrow> s \<noteq> create_versions_text \<longrightarrow> log d' = log d @ [s])"

lemma apply_all_log:
  "observes sql log \<Longrightarrow> apply_all sql migs t d = Some d' \<Longrightarrow> create_versions_text \<notin> set migs \<Longrightarrow> log d' = log d @ migs"
  by (induction migs arbitrary: d) (auto simp: observes_def split: sum.splits)

lemma migrated_group_log:
  assumes "observes sql log" "migrated_group sql groupStmts t g d = Some d'" "create_versions_text \<notin> set (gomap_list groupStmts g)"
  shows "log d' = log d @ pending groupStmts d g"
proof -
  have no: "create_versions_text \<notin> set (pending groupStmts d g)"
    using assms(3) in_set_dropD by (fastforce simp: pending_def)
  show ?thesis
  proof (cases "pending groupStmts d g = []")
    case True
    with assms(2) show ?thesis by (simp add: migrated_group_def)
  next
    case False
    with assms(2) obtain d1 u where d1: "apply_all sql (pending groupStmts d g) t d = Some d1"
      "setGroupVersion_sql g (int (length (gomap_list groupStmts g)) - 1) t d1 = Inr (u, d')"
      by (auto simp: migrated_group_def split: option.splits sum.splits)
    from d1(2) assms(1) have "log d' = log d1"
      by (auto simp: setGroupVersion_sql_def observes_def split: option.splits if_splits)
    with apply_all_log [OF assms(1) d1(1) no] show ?thesis by simp
  qed
qed

lemma migrated_groups_log:
  assumes "sql_ok sql" "observes sql log"
  shows "migrated_groups sql groupStmts t gs d = Some d' \<Longrightarrow> versions_ok d \<Longrightarrow> migrate_versions d \<noteq> None \<Longrightarrow> distinct gs \<Longrightarrow>
    (\<And>g. g \<in> set gs \<Longrightarrow> create_versions_text \<notin> set (gomap_list groupStmts g)) \<Longrightarrow>
    log d' = log d @ concat (map (pending groupStmts d) gs)"
proof (induction gs arbitrary: d)
  case (Cons g gs)
  then obtain d1 where d1: "migrated_group sql groupStmts t g d = Some d1" "migrated_groups sql groupStmts t gs d1 = Some d'"
    by (auto split: option.splits)
  have "pending groupStmts d1 g' = pending groupStmts d g'" if "g' \<in> set gs" for g'
    using migrated_group_last_version [OF assms(1) Cons.prems(3) d1(1), of g'] that Cons.prems(4) by (auto simp: pending_def)
  then have "map (pending groupStmts d1) gs = map (pending groupStmts d) gs" by simp
  with Cons.IH [OF d1(2)] migrated_group_versions [OF assms(1) Cons.prems(2,3) d1(1)]
    migrated_group_log [OF assms(2) d1(1)] Cons.prems show ?case by simp
qed simp

lemma Migrate_outcome:
  assumes "toposort_ok ts" "migrator_ok m" "sql_ok sql" "observes sql log" "versions_ok (contents e)"
    and "prepareGroupMigrations m = Inr (groupStmts, groupNames)"
    and "\<And>g. create_versions_text \<notin> set (gomap_list groupStmts g)"
    and "Migrate ts sql (engine_runtime rnd waited) m c e = (r, e')"
  shows "tx_outcome_ok (contents e' = contents e) (\<lambda>_. \<exists>order. distinct order \<and> set order = fst ` set (mg_groupMigs m)
      \<and> (\<forall>g dep. depends m g dep \<longrightarrow> precedes dep g order)
      \<and> log (contents e') = log (contents e) @ concat (map (pending groupStmts (contents e)) order)
      \<and> (\<forall>g \<in> set order. last_version g (contents e') =
          max (last_version g (contents e)) (int (length (gomap_list groupStmts g)) - 1))) r"
proof (cases "orderMigrationGroups ts m")
  case (Inl err)
  with Migrate_refused [OF _ assms(8)] show ?thesis by auto
next
  case (Inr order)
  have ord: "distinct order" "set order = fst ` set (mg_groupMigs m)" "\<forall>g dep. depends m g dep \<longrightarrow> precedes dep g order"
    using orderMigrationGroups_result [OF assms(1,2) Inr] by auto
  let ?d = "with_versions (contents e)"
  have log: "log ?d = log (contents e)" using assms(4) by (simp add: with_versions_def observes_def)
  have "\<exists>order. distinct order \<and> set order = fst ` set (mg_groupMigs m) \<and> (\<forall>g dep. depends m g dep \<longrightarrow> precedes dep g order)
      \<and> log (contents e') = log (contents e) @ concat (map (pending groupStmts (contents e)) order)
      \<and> (\<forall>g \<in> set order. last_version g (contents e') =
          max (last_version g (contents e)) (int (length (gomap_list groupStmts g)) - 1))"
    if run: "migrated_groups sql groupStmts (now e) order ?d = Some (contents e')"
    using migrated_groups_log [OF assms(3,4) run] migrated_groups_last_version [OF assms(3) run] assms(5,7) ord log by auto
  with Migrate_run [OF assms(3,5) Inr assms(6,8)] show ?thesis
    by (cases "(contents e' = contents e, \<lambda>x::unit. True, r)" rule: tx_outcome_ok.cases) auto
qed

text \<open>
  C5. A run of the migrator that succeeds executed exactly the migrations that were missing: for
  every registered group, in an order that respects the dependencies, the statements after the
  recorded version, each once and in the order of their files, and it recorded the new versions.
  A run that fails or panics left the contents as they were, unless only the answer to the commit
  was lost; then they are those of a complete run.
\<close>

theorem Migrate_applies_pending:
  assumes "toposort_ok ts" "migrator_ok m" "sql_ok sql" "observes sql log" "versions_ok (contents e)"
    and "prepareGroupMigrations m = Inr (groupStmts, groupNames)"
    and "\<And>g. create_versions_text \<notin> set (gomap_list groupStmts g)"
    and "Migrate ts sql (engine_runtime rnd waited) m c e = (r, e')"
  shows "tx_outcome_ok (contents e' = contents e) (\<lambda>_. \<exists>order. distinct order \<and> set order = fst ` set (mg_groupMigs m)
      \<and> (\<forall>g dep. depends m g dep \<longrightarrow> precedes dep g order)
      \<and> log (contents e') = log (contents e) @ concat (map (pending groupStmts (contents e)) order)
      \<and> (\<forall>g \<in> set order. last_version g (contents e') =
          max (last_version g (contents e)) (int (length (gomap_list groupStmts g)) - 1))) r"
  by (rule Migrate_outcome [OF assms])

text \<open>
  C19. Migrations are idempotent: after a run that succeeded, another run of the same migrator
  changes nothing, whether it succeeds or fails.
\<close>

theorem Migrate_idempotent:
  assumes "toposort_ok ts" "migrator_ok m" "sql_ok sql" "versions_ok (contents e)"
    and "Migrate ts sql (engine_runtime rnd waited) m c e = (Ret (Inr ()), e1)"
    and "contents e2 = contents e1"
    and "Migrate ts sql (engine_runtime rnd' waited') m c' e2 = (r, e3)"
  shows "contents e3 = contents e1"
proof -
  from assms(5) obtain order groupStmts groupNames where
    prep: "orderMigrationGroups ts m = Inr order" "prepareGroupMigrations m = Inr (groupStmts, groupNames)"
    by (auto simp: Migrate_def split: sum.splits)
  from orderMigrationGroups_result [OF assms(1,2) prep(1)] have ord: "distinct order" by simp
  from Migrate_run [OF assms(3,4) prep assms(5)]
  have run: "migrated_groups sql groupStmts (now e) order (with_versions (contents e)) = Some (contents e1)" by simp
  have v1: "versions_ok (contents e1)" "migrate_versions (contents e1) \<noteq> None"
    using migrated_groups_last_version [OF assms(3) run _ _ ord] assms(4) by auto
  have "pending groupStmts (contents e1) g = []" if "g \<in> set order" for g
    using migrated_groups_last_version [OF assms(3) run _ _ ord, of g] assms(4) that by (simp add: pending_def)
  then have "migrated_groups sql groupStmts t gs (contents e1) = Some (contents e1)" if "set gs \<subseteq> set order" for t gs
    using that by (induction gs) (auto simp: migrated_group_def)
  moreover have "with_versions (contents e1) = contents e1" using v1(2) by (auto simp: with_versions_def)
  ultimately show ?thesis using Migrate_run [OF assms(3) _ prep assms(7)] v1(1) assms(6)
    by (cases "(contents e3 = contents e2, \<lambda>x::unit. True, r)" rule: tx_outcome_ok.cases) auto
qed

section \<open>A sample migrator\<close>

text \<open>A topological sort that keeps the contract: it takes the first node without a predecessor left.\<close>

definition no_pred :: "string list \<Rightarrow> (string \<times> string) list \<Rightarrow> string \<Rightarrow> bool" where
  "no_pred nodes edges n \<longleftrightarrow> \<not> list_ex (\<lambda>(x, y). y = n \<and> x \<in> set nodes) edges"

function sample_sort :: toposort where
  "sample_sort nodes edges =
     (case find (no_pred nodes edges) nodes of
        None \<Rightarrow> if nodes = [] then Some [] else None
      | Some n \<Rightarrow> map_option (Cons n) (sample_sort (remove1 n nodes) edges))"
  by pat_completeness auto
termination
proof (relation "measure (\<lambda>(nodes, edges). length nodes)")
  fix nodes edges n
  assume "find (no_pred nodes edges) nodes = Some n"
  then have "n \<in> set nodes" by (auto simp: find_Some_iff in_set_conv_nth)
  then have "0 < length nodes" by (cases nodes) auto
  with \<open>n \<in> set nodes\<close> show "((remove1 n nodes, edges), nodes, edges) \<in> measure (\<lambda>(nodes, edges). length nodes)"
    by (simp add: length_remove1)
qed simp

declare sample_sort.simps [simp del]

lemma no_pred_exists:
  assumes "acyclic (set edges \<inter> set nodes \<times> set nodes)" "nodes \<noteq> []"
  shows "\<exists>n \<in> set nodes. no_pred nodes edges n"
proof -
  have "wf (set edges \<inter> set nodes \<times> set nodes)"
    using assms(1) by (intro finite_acyclic_wf) simp_all
  then have "\<exists>n \<in> set nodes. \<forall>x. (x, n) \<in> set edges \<inter> set nodes \<times> set nodes \<longrightarrow> x \<notin> set nodes"
    unfolding wf_eq_minimal using hd_in_set [OF assms(2)] by (elim allE [of _ "set nodes"]) blast
  then show ?thesis by (auto simp: no_pred_def list_ex_iff)
qed

lemma sample_sort_spec:
  "distinct nodes \<Longrightarrow> (case sample_sort nodes edges of
      None \<Rightarrow> \<not> acyclic (set edges \<inter> set nodes \<times> set nodes)
    | Some order \<Rightarrow> distinct order \<and> set order = set nodes
        \<and> (\<forall>(x, y) \<in> set edges. x \<in> set nodes \<longrightarrow> y \<in> set nodes \<longrightarrow> precedes x y order))"
proof (induction nodes edges rule: sample_sort.induct)
  case (1 nodes edges)
  show ?case
  proof (cases "find (no_pred nodes edges) nodes")
    case None
    have "sample_sort nodes edges = (if nodes = [] then Some [] else None)"
      by (subst sample_sort.simps) (simp add: None)
    with None no_pred_exists [of edges nodes] show ?thesis by (auto simp: find_None_iff)
  next
    case (Some n)
    then have n: "n \<in> set nodes" "no_pred nodes edges n" by (auto simp: find_Some_iff in_set_conv_nth)
    from 1(2) have rm: "set (remove1 n nodes) = set nodes - {n}" "distinct (remove1 n nodes)" by simp_all
    note ih = 1(1) [OF Some rm(2)]
    show ?thesis
    proof (cases "sample_sort (remove1 n nodes) edges")
      case None
      with ih rm(1) acyclic_subset [of "set edges \<inter> set nodes \<times> set nodes" "set edges \<inter> set (remove1 n nodes) \<times> set (remove1 n nodes)"]
      show ?thesis by (subst sample_sort.simps) (auto simp: Some)
    next
      case (Some order)
      with ih rm(1) have o: "distinct order" "set order = set nodes - {n}"
        "\<And>x y. (x, y) \<in> set edges \<Longrightarrow> x \<in> set nodes - {n} \<Longrightarrow> y \<in> set nodes - {n} \<Longrightarrow> precedes x y order" by auto
      have "precedes x y (n # order)" if xy: "(x, y) \<in> set edges" "x \<in> set nodes" "y \<in> set nodes" for x y
      proof -
        from n(2) xy have yn: "y \<noteq> n" by (auto simp: no_pred_def list_ex_iff)
        with xy o(2) obtain us vs where y: "order = us @ y # vs" by (metis DiffI in_set_conv_decomp singletonD)
        show ?thesis
        proof (cases "x = n")
          case True
          have "n # order = (n # us) @ y # vs" by (simp add: y)
          with True show ?thesis unfolding precedes_def by (metis list.set_intros(1))
        next
          case False
          with o(3) [OF xy(1)] xy yn obtain us vs where "order = us @ y # vs" "x \<in> set us" by (auto simp: precedes_def)
          then have "n # order = (n # us) @ y # vs \<and> x \<in> set (n # us)" by simp
          then show ?thesis unfolding precedes_def by blast
        qed
      qed
      with o n(1) Some show ?thesis
        by (subst sample_sort.simps) (auto simp: \<open>find (no_pred nodes edges) nodes = Some n\<close>)
    qed
  qed
qed

lemma sample_sort_ok: "toposort_ok sample_sort"
  unfolding toposort_ok_def using sample_sort_spec by blast

text \<open>A database that keeps the texts it executed, and two groups, of which one depends on the other.\<close>

record sample_mig_db = migrate_db +
  executed :: "string list"

definition sample_sql :: "string \<Rightarrow> (sample_mig_db, unit) stmt" where
  "sample_sql s t d = (if s = create_versions_text then createVersions_sql t d else Inr ((), d\<lparr>executed := executed d @ [s]\<rparr>))"

definition sample_tpl :: "string \<Rightarrow> string \<Rightarrow> unit template" where
  "sample_tpl name text = \<lparr>tpl_Name = name, tpl_Execute = (\<lambda>_. Inr text)\<rparr>"

definition sample_migrator :: "unit Migrator" where
  "sample_migrator = snd (Register_group ''tokens'' () (Inr [sample_tpl ''002'' ''t2'', sample_tpl ''001'' ''t1'']) []
     (snd (Register_group ''accounts'' () (Inr [sample_tpl ''001'' ''a1'']) [''tokens''] (migrate_New None))))"

definition sample_mig_engine :: "sample_mig_db engine" where
  "sample_mig_engine = \<lparr>contents = \<lparr>migrate_versions = Some [(''tokens'', 0)], executed = [''t1'']\<rparr>, txs = [], now = 5,
     faults = [], lost_commit = False\<rparr>"

abbreviation sample_migrate where
  "sample_migrate \<equiv> Migrate sample_sort sample_sql (engine_runtime (\<lambda>_. 0) None) sample_migrator ([] :: unit ctx)"

lemma sample_sql_ok: "sql_ok sample_sql"
  by (auto simp: sql_ok_def sample_sql_def createVersions_sql_def fun_eq_iff split: if_splits option.splits)

lemma sample_observes: "observes sample_sql executed"
  by (auto simp: observes_def sample_sql_def)

lemma sample_migrator_facts [simp]:
  "migrator_ok sample_migrator" "versions_ok (contents sample_mig_engine)"
  "prepareGroupMigrations sample_migrator = Inr ([(''accounts'', [''a1'']), (''tokens'', [''t1'', ''t2''])],
     [(''accounts'', [''001'']), (''tokens'', [''001'', ''002''])])"
proof -
  show "migrator_ok sample_migrator" unfolding migrator_ok_def by code_simp
  show "versions_ok (contents sample_mig_engine)" by (auto simp: versions_ok_def sample_mig_engine_def)
  show "prepareGroupMigrations sample_migrator = Inr ([(''accounts'', [''a1'']), (''tokens'', [''t1'', ''t2''])],
     [(''accounts'', [''001'']), (''tokens'', [''001'', ''002''])])" by code_simp
qed

lemma sample_migrate_run: "fst (sample_migrate sample_mig_engine) = Ret (Inr ())"
  by code_simp

theorem Register_exact_witness:
  "migrator_ok (snd (Register_group ''tokens'' () (Inr []) [''x''] sample_migrator))
   \<and> snd (Register_group ''tokens'' () (Inr []) [''x''] sample_migrator) = sample_migrator"
proof -
  obtain x where "map_of (mg_groupMigs sample_migrator) ''tokens'' = Some x"
    by (simp add: sample_migrator_def Register_group_def migrate_New_def)
  with Register_exact [OF sample_migrator_facts(1) prod.collapse [symmetric], of "''tokens''" "()" "Inr []" "[''x'']"]
  show ?thesis by simp
qed

theorem orderMigrationGroups_exact_witness:
  "\<exists>order. orderMigrationGroups sample_sort sample_migrator = Inr order \<and> precedes ''tokens'' ''accounts'' order"
proof -
  have "orderMigrationGroups sample_sort sample_migrator = Inr [''tokens'', ''accounts'']" by code_simp
  moreover have "depends sample_migrator ''accounts'' ''tokens''"
    by (simp add: depends_def sample_migrator_def Register_group_def migrate_New_def)
  ultimately show ?thesis using orderMigrationGroups_exact [OF sample_sort_ok sample_migrator_facts(1)] by simp
qed

theorem Migrate_applies_pending_witness:
  "last_version ''accounts'' (contents (snd (sample_migrate sample_mig_engine))) = 0
   \<and> last_version ''tokens'' (contents (snd (sample_migrate sample_mig_engine))) = 1"
proof -
  let ?stmts = "[(''accounts'', [''a1'']), (''tokens'', [''t1'', ''t2''])]" and ?e = "snd (sample_migrate sample_mig_engine)"
  have no: "create_versions_text \<notin> set (gomap_list ?stmts g)" for g
    by (auto simp: gomap_list_def create_versions_text_def split: option.splits if_splits)
  have run: "sample_migrate sample_mig_engine = (Ret (Inr ()), ?e)" using sample_migrate_run by (simp add: prod_eq_iff)
  obtain order where o: "set order = fst ` set (mg_groupMigs sample_migrator)" "\<forall>g \<in> set order. last_version g (contents ?e) =
      max (last_version g (contents sample_mig_engine)) (int (length (gomap_list ?stmts g)) - 1)"
    using Migrate_applies_pending [OF sample_sort_ok sample_migrator_facts(1) sample_sql_ok sample_observes
        sample_migrator_facts(2,3) no run] by auto
  have "fst ` set (mg_groupMigs sample_migrator) = {''accounts'', ''tokens''}" by code_simp
  with o have "last_version ''accounts'' (contents ?e) = max (last_version ''accounts'' (contents sample_mig_engine)) (int (length (gomap_list ?stmts ''accounts'')) - 1)"
    "last_version ''tokens'' (contents ?e) = max (last_version ''tokens'' (contents sample_mig_engine)) (int (length (gomap_list ?stmts ''tokens'')) - 1)"
    by auto
  moreover have "max (last_version ''accounts'' (contents sample_mig_engine)) (int (length (gomap_list ?stmts ''accounts'')) - 1) = 0"
    "max (last_version ''tokens'' (contents sample_mig_engine)) (int (length (gomap_list ?stmts ''tokens'')) - 1) = 1" by code_simp+
  ultimately show ?thesis by simp
qed

theorem Migrate_idempotent_witness:
  "contents (snd (sample_migrate (snd (sample_migrate sample_mig_engine)))) = contents (snd (sample_migrate sample_mig_engine))"
proof -
  have run: "sample_migrate sample_mig_engine = (Ret (Inr ()), snd (sample_migrate sample_mig_engine))"
    using sample_migrate_run by (simp add: prod_eq_iff)
  show ?thesis
    using Migrate_idempotent [OF sample_sort_ok sample_migrator_facts(1) sample_sql_ok sample_migrator_facts(2) run refl
        prod.collapse [symmetric]] .
qed

section \<open>Export\<close>

text \<open>
  The disk: its directories and files by path, and what the system refuses. Joining two paths is
  the argument \<open>join\<close>.
\<close>

record disk =
  dk_dirs :: "string list"
  dk_files :: "(string, string) gomap"
  dk_refuses :: "string \<Rightarrow> goerr option"

definition os_MkdirAll :: "string \<Rightarrow> disk \<Rightarrow> goerr option \<times> disk" where
  "os_MkdirAll path d = (case dk_refuses d path of Some err \<Rightarrow> (Some err, d) | None \<Rightarrow> (None, d\<lparr>dk_dirs := path # dk_dirs d\<rparr>))"

definition os_WriteFile :: "string \<Rightarrow> string \<Rightarrow> disk \<Rightarrow> goerr option \<times> disk" where
  "os_WriteFile path content d =
     (case dk_refuses d path of Some err \<Rightarrow> (Some err, d) | None \<Rightarrow> (None, d\<lparr>dk_files := gomap_set path content (dk_files d)\<rparr>))"

fun export_group :: "(string \<Rightarrow> string \<Rightarrow> string) \<Rightarrow> string \<Rightarrow> string list \<Rightarrow> string list \<Rightarrow> disk \<Rightarrow> goerr option outcome \<times> disk" where
  "export_group join gdir [] names d = (Ret None, d)"
| "export_group join gdir (stmt # stmts) [] d = (Panic ''index out of range'', d)"
| "export_group join gdir (stmt # stmts) (file # names) d =
     (case os_WriteFile (join gdir file) stmt d of
        (Some err, d1) \<Rightarrow> (Ret (Some err), d1)
      | (None, d1) \<Rightarrow> export_group join gdir stmts names d1)"

fun export_groups :: "(string \<Rightarrow> string \<Rightarrow> string) \<Rightarrow> string \<Rightarrow> (string, string list) gomap \<Rightarrow> (string, string list) gomap \<Rightarrow> disk
    \<Rightarrow> goerr option outcome \<times> disk" where
  "export_groups join dir [] groupNames d = (Ret None, d)"
| "export_groups join dir ((grp, stmts) # groupStmts) groupNames d =
     (case os_MkdirAll (join dir grp) d of
        (Some err, d1) \<Rightarrow> (Ret (Some err), d1)
      | (None, d1) \<Rightarrow>
          (case export_group join (join dir grp) stmts (gomap_list groupNames grp) d1 of
             (Ret None, d2) \<Rightarrow> export_groups join dir groupStmts groupNames d2
           | (r, d2) \<Rightarrow> (r, d2)))"

definition Export :: "toposort \<Rightarrow> (string \<Rightarrow> string \<Rightarrow> string) \<Rightarrow> 'conf Migrator \<Rightarrow> string \<Rightarrow> disk \<Rightarrow> goerr option outcome \<times> disk" where
  "Export toposort join m dir d =
     (case orderMigrationGroups toposort m of
        Inl err \<Rightarrow> (Ret (Some err), d)
      | Inr _ \<Rightarrow>
          (case prepareGroupMigrations m of
             Inl err \<Rightarrow> (Ret (Some err), d)
           | Inr (groupStmts, groupNames) \<Rightarrow> export_groups join dir groupStmts groupNames d))"

text \<open>The files that an export consists of.\<close>

definition exported :: "(string \<Rightarrow> string \<Rightarrow> string) \<Rightarrow> string \<Rightarrow> (string, string list) gomap \<Rightarrow> (string, string list) gomap
    \<Rightarrow> (string \<times> string) list" where
  "exported join dir groupStmts groupNames =
     concat (map (\<lambda>(grp, stmts). zip (map (join (join dir grp)) (gomap_list groupNames grp)) stmts) groupStmts)"

text \<open>A part of an export: everything is written and nothing else, or it stops at a refusal.\<close>

definition wrote :: "(string \<times> string) list \<Rightarrow> disk \<Rightarrow> goerr option outcome \<Rightarrow> disk \<Rightarrow> bool" where
  "wrote fs d r d' \<longleftrightarrow> (\<exists>written. prefix written fs \<and> map_of (dk_files d') = map_of (dk_files d) ++ map_of (rev written)
     \<and> dk_refuses d' = dk_refuses d \<and> (r = Ret None \<and> written = fs \<or> (\<exists>path err. r = Ret (Some err) \<and> dk_refuses d path = Some err)))"

lemma wrote_Nil: "wrote [] d (Ret None) d"
  by (auto simp: wrote_def)

lemma wroteI:
  "prefix written fs \<Longrightarrow> map_of (dk_files d') = map_of (dk_files d) ++ map_of (rev written) \<Longrightarrow> dk_refuses d' = dk_refuses d
     \<Longrightarrow> r = Ret None \<and> written = fs \<or> (\<exists>path err. r = Ret (Some err) \<and> dk_refuses d path = Some err) \<Longrightarrow> wrote fs d r d'"
  unfolding wrote_def by blast

lemma wrote_append:
  assumes "wrote fs d (Ret None) d1" "wrote gs d1 r d2"
  shows "wrote (fs @ gs) d r d2"
proof -
  from assms(1) have f: "map_of (dk_files d1) = map_of (dk_files d) ++ map_of (rev fs)" "dk_refuses d1 = dk_refuses d"
    by (auto simp: wrote_def)
  from assms(2) obtain w where w: "prefix w gs" "map_of (dk_files d2) = map_of (dk_files d1) ++ map_of (rev w)"
    "dk_refuses d2 = dk_refuses d1" "r = Ret None \<and> w = gs \<or> (\<exists>path err. r = Ret (Some err) \<and> dk_refuses d1 path = Some err)"
    unfolding wrote_def by blast
  show ?thesis using f w by (intro wroteI [of "fs @ w"]) auto
qed

lemma wrote_stop:
  assumes "wrote fs d (Ret (Some err)) d1"
  shows "wrote (fs @ gs) d (Ret (Some err)) d1"
proof -
  from assms obtain w where "prefix w fs" "map_of (dk_files d1) = map_of (dk_files d) ++ map_of (rev w)"
    "dk_refuses d1 = dk_refuses d" "\<exists>path. dk_refuses d path = Some err" unfolding wrote_def by auto
  then show ?thesis by (intro wroteI [of w]) (auto intro: prefix_prefix)
qed

lemma wrote_refused: "dk_refuses d path = Some err \<Longrightarrow> wrote fs d (Ret (Some err)) d"
  by (rule wroteI [of "[]"]) auto

lemma export_group_wrote:
  "length names = length stmts \<Longrightarrow> export_group join gdir stmts names d = (r, d') \<Longrightarrow>
     wrote (zip (map (join gdir) names) stmts) d r d'"
proof (induction join gdir stmts names d rule: export_group.induct)
  case (1 join gdir names d)
  then show ?case using wrote_Nil [of d] by auto
next
  case (3 join gdir stmt stmts name names d)
  show ?case
  proof (cases "dk_refuses d (join gdir name)")
    case None
    let ?d1 = "d\<lparr>dk_files := gomap_set (join gdir name) stmt (dk_files d)\<rparr>"
    have "wrote [(join gdir name, stmt)] d (Ret None) ?d1" by (auto simp: wrote_def)
    moreover have "wrote (zip (map (join gdir) names) stmts) ?d1 r d'"
      using 3 None by (simp add: os_WriteFile_def)
    ultimately show ?thesis using wrote_append by fastforce
  next
    case (Some err)
    with 3 have "r = Ret (Some err)" "d' = d" by (simp_all add: os_WriteFile_def)
    with Some show ?thesis by (simp add: wrote_refused)
  qed
qed simp

lemma export_groups_wrote:
  "(\<And>g stmts. (g, stmts) \<in> set groupStmts \<Longrightarrow> length (gomap_list groupNames g) = length stmts) \<Longrightarrow>
     export_groups join dir groupStmts groupNames d = (r, d') \<Longrightarrow> wrote (exported join dir groupStmts groupNames) d r d'"
proof (induction join dir groupStmts groupNames d rule: export_groups.induct)
  case (1 join dir groupNames d)
  then show ?case using wrote_Nil [of d] by (auto simp: exported_def)
next
  case (2 join dir grp stmts groupStmts groupNames d)
  let ?fs = "zip (map (join (join dir grp)) (gomap_list groupNames grp)) stmts"
  have fs: "exported join dir ((grp, stmts) # groupStmts) groupNames = ?fs @ exported join dir groupStmts groupNames"
    by (simp add: exported_def)
  show ?case
  proof (cases "dk_refuses d (join dir grp)")
    case (Some err)
    with 2 have "r = Ret (Some err)" "d' = d" by (simp_all add: os_MkdirAll_def)
    with Some show ?thesis by (simp add: wrote_refused)
  next
    case None
    let ?d1 = "d\<lparr>dk_dirs := join dir grp # dk_dirs d\<rparr>"
    obtain r1 d2 where run: "export_group join (join dir grp) stmts (gomap_list groupNames grp) ?d1 = (r1, d2)" by fastforce
    have "wrote ?fs ?d1 r1 d2" by (rule export_group_wrote [OF _ run]) (use 2(2) in simp)
    then have w: "wrote ?fs d r1 d2" by (simp add: wrote_def)
    show ?thesis
    proof (cases "r1 = Ret None")
      case True
      with 2(3) None run have "export_groups join dir groupStmts groupNames d2 = (r, d')" by (simp add: os_MkdirAll_def)
      with 2(1,2) None run True have "wrote (exported join dir groupStmts groupNames) d2 r d'" by (simp add: os_MkdirAll_def)
      with w True show ?thesis unfolding fs by (blast intro: wrote_append)
    next
      case False
      with w obtain err where e: "r1 = Ret (Some err)" by (auto simp: wrote_def)
      with 2(3) None run have "r = r1" "d' = d2" by (simp_all add: os_MkdirAll_def)
      with w e show ?thesis unfolding fs by (simp add: wrote_stop)
    qed
  qed
qed

lemma execute_templates_length:
  "execute_templates data ts = Inr (stmts, names) \<Longrightarrow> length names = length stmts"
  by (induction data ts arbitrary: stmts names rule: execute_templates.induct) (auto split: sum.splits)

lemma prepareMigrationsFS_length: "prepareMigrationsFS m fs = Inr (stmts, names) \<Longrightarrow> length names = length stmts"
  by (auto simp: prepareMigrationsFS_def split: sum.splits if_splits dest: execute_templates_length)

text \<open>Statements and names of a group have one length.\<close>

definition same_lengths :: "(string, string list) gomap \<Rightarrow> (string, string list) gomap \<Rightarrow> bool" where
  "same_lengths groupStmts groupNames \<longleftrightarrow> gomap_wf groupStmts \<and>
     (\<forall>g. length (gomap_list groupNames g) = length (gomap_list groupStmts g))"

lemma prepare_groups_lengths:
  "prepare_groups m gs groupStmts groupNames = Inr (groupStmts', groupNames') \<Longrightarrow> same_lengths groupStmts groupNames \<Longrightarrow>
     same_lengths groupStmts' groupNames'"
proof (induction m gs groupStmts groupNames rule: prepare_groups.induct)
  case (2 m grp fs rest groupStmts groupNames)
  from 2(2) obtain stmts names where p: "prepareMigrationsFS m fs = Inr (stmts, names)"
    "prepare_groups m rest (gomap_set grp stmts groupStmts) (gomap_set grp names groupNames) = Inr (groupStmts', groupNames')"
    by (auto split: sum.splits)
  from 2(3) prepareMigrationsFS_length [OF p(1)]
  have "same_lengths (gomap_set grp stmts groupStmts) (gomap_set grp names groupNames)"
    by (simp add: same_lengths_def gomap_list_def)
  with 2(1) p show ?case by simp
qed simp

lemma prepareGroupMigrations_lengths:
  assumes "prepareGroupMigrations m = Inr (groupStmts, groupNames)" "(g, stmts) \<in> set groupStmts"
  shows "length (gomap_list groupNames g) = length stmts"
proof -
  from prepare_groups_lengths [OF assms(1) [unfolded prepareGroupMigrations_def]]
  have s: "same_lengths groupStmts groupNames" by (simp add: same_lengths_def gomap_list_def)
  then have "gomap_list groupStmts g = stmts" using assms(2) by (simp add: same_lengths_def gomap_list_def)
  with s show ?thesis by (auto simp: same_lengths_def)
qed

text \<open>
  An export never panics. Without an order of the groups, or when a template fails, it fails
  and writes nothing. Otherwise, it succeeds with every migration of every group, as rendered,
  under its name in the directory of its group and all other files as they were, or the
  disk refuses a path, and a prefix of these files was written.
\<close>

theorem Export_exact:
  assumes "Export toposort join m dir d = (r, d')"
  shows "\<exists>err. r = Ret err \<and>
    (case (orderMigrationGroups toposort m, prepareGroupMigrations m) of
       (Inr order, Inr (groupStmts, groupNames)) \<Rightarrow>
         (\<exists>written. prefix written (exported join dir groupStmts groupNames)
            \<and> map_of (dk_files d') = map_of (dk_files d) ++ map_of (rev written)
            \<and> (if err = None then written = exported join dir groupStmts groupNames else \<exists>path. dk_refuses d path = err))
     | _ \<Rightarrow> err \<noteq> None \<and> d' = d)"
proof (cases "\<exists>order groupStmts groupNames.
    orderMigrationGroups toposort m = Inr order \<and> prepareGroupMigrations m = Inr (groupStmts, groupNames)")
  case False
  with assms show ?thesis by (auto simp: Export_def split: sum.splits)
next
  case True
  then obtain order groupStmts groupNames where p: "orderMigrationGroups toposort m = Inr order"
    "prepareGroupMigrations m = Inr (groupStmts, groupNames)" by blast
  with assms have "export_groups join dir groupStmts groupNames d = (r, d')" by (simp add: Export_def)
  from export_groups_wrote [OF prepareGroupMigrations_lengths [OF p(2)] this] p show ?thesis
    unfolding wrote_def by auto
qed

definition sample_join :: "string \<Rightarrow> string \<Rightarrow> string" where
  "sample_join dir name = dir @ ''/'' @ name"

theorem Export_exact_witness:
  "\<exists>d'. Export sample_sort sample_join sample_migrator ''out'' \<lparr>dk_dirs = [], dk_files = [(''x'', ''y'')], dk_refuses = \<lambda>_. None\<rparr>
      = (Ret None, d')
    \<and> map_of (dk_files d') ''out/tokens/002'' = Some ''t2'' \<and> map_of (dk_files d') ''x'' = Some ''y''"
proof -
  let ?d = "\<lparr>dk_dirs = [], dk_files = [(''x'', ''y'')], dk_refuses = \<lambda>_. None\<rparr>"
  let ?fs = "exported sample_join ''out'' [(''accounts'', [''a1'']), (''tokens'', [''t1'', ''t2''])]
     [(''accounts'', [''001'']), (''tokens'', [''001'', ''002''])]"
  obtain d' where run: "Export sample_sort sample_join sample_migrator ''out'' ?d = (Ret None, d')"
  proof -
    have "fst (Export sample_sort sample_join sample_migrator ''out'' ?d) = Ret None" by code_simp
    then show ?thesis using that by (metis prod.collapse)
  qed
  have "orderMigrationGroups sample_sort sample_migrator = Inr [''tokens'', ''accounts'']" by code_simp
  with Export_exact [OF run] have files: "map_of (dk_files d') = map_of (dk_files ?d) ++ map_of (rev ?fs)" by simp
  have "?fs = [(''out/accounts/001'', ''a1''), (''out/tokens/001'', ''t1''), (''out/tokens/002'', ''t2'')]" by code_simp
  with files run show ?thesis by simp
qed

end
