(* ===== verification/Server.thy ===== *)
theory Server
  imports Errors
begin

text \<open>
  Package \<^verbatim>\<open>server\<close> (\<^verbatim>\<open>src/server/server.go\<close>): the construction of the HTTP server, and
  \<^verbatim>\<open>ListenAndServe\<close> as the interleaving of its two goroutines. Values that the package only passes on
  (handlers, hooks, loggers, protocol settings) have the opaque type \<open>'o\<close>. What is read from
  certificate files is a parameter. The HTTP server of the standard library serves until it fails
  or is told to stop; after that it returns \<^verbatim>\<open>http.ErrServerClosed\<close>, also when it was told before it
  started.
\<close>

section \<open>Construction\<close>

record Certs =
  AutoCert :: bool
  AutoCertCacheDir :: string
  AutoCertExactHosts :: "string list"
  AutoCertContactEmail :: string
  CertFile :: string
  KeyFile :: string

record 'o GracefulShutdownConfig =
  gs_Timeout :: int
  gs_ShutdownContext :: "'o option"
  gs_Signals :: "'o list"

datatype 'cert tls_Config = AutoTLS string "string list" string | CertTLS 'cert

record ('o, 'cert) http_Server =
  hs_Addr :: string
  hs_Handler :: 'o
  hs_TLSConfig :: "'cert tls_Config option"
  hs_ReadTimeout :: int
  hs_ReadHeaderTimeout :: int
  hs_WriteTimeout :: int
  hs_IdleTimeout :: int
  hs_MaxHeaderBytes :: int
  hs_ConnState :: 'o
  hs_ErrorLog :: 'o
  hs_BaseContext :: 'o
  hs_ConnContext :: 'o
  hs_HTTP2 :: 'o
  hs_Protocols :: 'o

datatype ServerState = StateNew | StateListening | StateShutdown | StateClosed

fun state_number :: "ServerState \<Rightarrow> int" where
  "state_number StateNew = 0"
| "state_number StateListening = 1"
| "state_number StateShutdown = 2"
| "state_number StateClosed = 3"

definition stringServerState :: "string list" where
  "stringServerState = [''StateNew'', ''StateListening'', ''StateShutdown'', ''StateClosed'']"

text \<open>The text of any 32-bit value of the state type.\<close>

definition ServerState_String :: "int \<Rightarrow> string" where
  "ServerState_String s =
     (if s < 0 \<or> s \<ge> int (length stringServerState) then ''<unknown:'' @ go_Sprint s @ ''>''
      else stringServerState ! nat s)"

record ('o, 'cert) Server =
  Addr :: string
  ReadTimeout :: int
  ReadHeaderTimeout :: int
  WriteTimeout :: int
  IdleTimeout :: int
  MaxHeaderBytes :: int
  Protocols :: 'o
  Handler :: 'o
  HTTP2Config :: 'o
  Server_Certs :: "Certs option"
  GracefulShutdown :: "'o GracefulShutdownConfig option"
  ConnStateHook :: 'o
  BaseContext :: 'o
  ConnContext :: 'o
  ErrorLog :: 'o
  Server_srv :: "('o, 'cert) http_Server option"
  built :: bool
  Server_state :: ServerState

definition configureTLSAutoCert :: "Certs \<Rightarrow> 'cert tls_Config" where
  "configureTLSAutoCert config = AutoTLS (AutoCertCacheDir config) (AutoCertExactHosts config) (AutoCertContactEmail config)"

definition configureTLSCertificate :: "(string \<Rightarrow> string \<Rightarrow> (goerr + 'cert)) \<Rightarrow> string \<Rightarrow> string \<Rightarrow> goerr + 'cert tls_Config" where
  "configureTLSCertificate LoadX509KeyPair certFile keyFile =
     (if certFile = [] \<or> keyFile = [] then Inl (ErrorString ''tls: certificate and key files must be set'')
      else (case LoadX509KeyPair certFile keyFile of Inl err \<Rightarrow> Inl err | Inr cert \<Rightarrow> Inr (CertTLS cert)))"

definition buildTLS :: "(string \<Rightarrow> string \<Rightarrow> (goerr + 'cert)) \<Rightarrow> ('o, 'cert) Server \<Rightarrow> goerr + 'cert tls_Config option" where
  "buildTLS LoadX509KeyPair s =
     (case Server_Certs s of
        None \<Rightarrow> Inr None
      | Some c \<Rightarrow>
          if AutoCert c then Inr (Some (configureTLSAutoCert c))
          else (case configureTLSCertificate LoadX509KeyPair (CertFile c) (KeyFile c) of
                  Inl err \<Rightarrow> Inl err
                | Inr tc \<Rightarrow> Inr (Some tc)))"

definition buildHTTPServer :: "('o, 'cert) Server \<Rightarrow> 'cert tls_Config option \<Rightarrow> goerr + ('o, 'cert) http_Server" where
  "buildHTTPServer s tc = Inr \<lparr>hs_Addr = Addr s, hs_Handler = Handler s, hs_TLSConfig = tc, hs_ReadTimeout = ReadTimeout s,
     hs_ReadHeaderTimeout = ReadHeaderTimeout s, hs_WriteTimeout = WriteTimeout s, hs_IdleTimeout = IdleTimeout s,
     hs_MaxHeaderBytes = MaxHeaderBytes s, hs_ConnState = ConnStateHook s, hs_ErrorLog = ErrorLog s,
     hs_BaseContext = BaseContext s, hs_ConnContext = ConnContext s, hs_HTTP2 = HTTP2Config s, hs_Protocols = Protocols s\<rparr>"

definition build :: "(string \<Rightarrow> string \<Rightarrow> (goerr + 'cert)) \<Rightarrow> ('o, 'cert) Server \<Rightarrow> goerr option \<times> ('o, 'cert) Server" where
  "build LoadX509KeyPair s0 =
     (let s = s0\<lparr>built := True\<rparr> in
      case buildTLS LoadX509KeyPair s of
        Inl err \<Rightarrow> (Some err, s)
      | Inr tc \<Rightarrow>
          (case buildHTTPServer s tc of
             Inl err \<Rightarrow> (Some err, s)
           | Inr srv \<Rightarrow> (None, s\<lparr>Server_srv := Some srv\<rparr>)))"

definition Build :: "(string \<Rightarrow> string \<Rightarrow> (goerr + 'cert)) \<Rightarrow> ('o, 'cert) Server \<Rightarrow> goerr option \<times> ('o, 'cert) Server" where
  "Build load s = (if built s then (Some (ErrorString ''server already built''), s) else build load s)"

definition HTTPServer :: "(string \<Rightarrow> string \<Rightarrow> (goerr + 'cert)) \<Rightarrow> ('o, 'cert) Server
    \<Rightarrow> (goerr + ('o, 'cert) http_Server option) \<times> ('o, 'cert) Server" where
  "HTTPServer load s =
     (if \<not> built s then
        (case build load s of
           (Some err, s1) \<Rightarrow> (Inl err, s1)
         | (None, s1) \<Rightarrow> (Inr (Server_srv s1), s1))
      else (Inr (Server_srv s), s))"

section \<open>ListenAndServe\<close>

text \<open>The start of the call, up to the point where the goroutine is started.\<close>

datatype ('o, 'cert) started = Refused goerr | Started "('o, 'cert) http_Server option"

definition ListenAndServe_start :: "(string \<Rightarrow> string \<Rightarrow> (goerr + 'cert)) \<Rightarrow> ('o, 'cert) Server
    \<Rightarrow> ('o, 'cert) started \<times> ('o, 'cert) Server" where
  "ListenAndServe_start load s =
     (case (if \<not> built s then build load s else (None, s)) of
        (Some err, s1) \<Rightarrow> (Refused err, s1)
      | (None, s1) \<Rightarrow>
          if Server_state s1 = StateClosed then (Refused (Sentinel ErrServerClosed), s1)
          else (Started (Server_srv s1), s1))"

text \<open>
  From there on: the caller and the goroutine that serves. A transition of the state is a store
  followed by the call of the hook; the two goroutines interleave between them. \<open>hooks\<close> is the
  sequence of hook calls.
\<close>

datatype caller = CNew | CNewHook | CSpawn | CSelect | CStop | CStopHook | CShutdown | CWait | CJoin "goerr option"
  | CClose goerr | CCloseHook goerr | CReturned goerr

datatype server = SNone | SListen | SListenHook | SServe | SServing | SFinish | SDone

record run =
  caller :: caller
  serving :: server
  state :: ServerState
  hooks :: "ServerState list"
  ctx_err :: "goerr option" \<comment> \<open>the error of the context, once it is done\<close>
  stopping :: bool \<comment> \<open>\<^verbatim>\<open>Shutdown\<close> or \<^verbatim>\<open>Close\<close> of the HTTP server was called\<close>
  lasErr :: goerr

definition run0 :: run where
  "run0 = \<lparr>caller = CNew, serving = SNone, state = StateNew, hooks = [], ctx_err = None, stopping = False,
     lasErr = Sentinel ErrServerClosed\<rparr>"

text \<open>\<open>graceful\<close>: a configuration for the graceful shutdown is set.\<close>

inductive serve_step :: "bool \<Rightarrow> run \<Rightarrow> run \<Rightarrow> bool" for graceful where
  cancel: "ctx_err s = None \<Longrightarrow> serve_step graceful s (s\<lparr>ctx_err := Some err\<rparr>)"
| new: "caller s = CNew \<Longrightarrow> serve_step graceful s (s\<lparr>caller := CNewHook, state := StateNew\<rparr>)"
| new_hook: "caller s = CNewHook \<Longrightarrow> serve_step graceful s (s\<lparr>caller := CSpawn, hooks := hooks s @ [StateNew]\<rparr>)"
| spawn: "caller s = CSpawn \<Longrightarrow> serve_step graceful s (s\<lparr>caller := CSelect, serving := SListen\<rparr>)"
| listen: "serving s = SListen \<Longrightarrow> serve_step graceful s (s\<lparr>serving := SListenHook, state := StateListening\<rparr>)"
| listen_hook: "serving s = SListenHook \<Longrightarrow>
    serve_step graceful s (s\<lparr>serving := SServe, hooks := hooks s @ [StateListening]\<rparr>)"
| serve: "serving s = SServe \<Longrightarrow> \<not> stopping s \<Longrightarrow> serve_step graceful s (s\<lparr>serving := SServing\<rparr>)"
| serve_closed: "serving s = SServe \<Longrightarrow> stopping s \<Longrightarrow>
    serve_step graceful s (s\<lparr>serving := SFinish, lasErr := Sentinel ErrServerClosed\<rparr>)"
| fail: "serving s = SServing \<Longrightarrow> serve_step graceful s (s\<lparr>serving := SFinish, lasErr := err\<rparr>)"
| stopped: "serving s = SServing \<Longrightarrow> stopping s \<Longrightarrow>
    serve_step graceful s (s\<lparr>serving := SFinish, lasErr := Sentinel ErrServerClosed\<rparr>)"
| finish: "serving s = SFinish \<Longrightarrow> serve_step graceful s (s\<lparr>serving := SDone\<rparr>)"
| select_ctx: "caller s = CSelect \<Longrightarrow> ctx_err s \<noteq> None \<Longrightarrow>
    serve_step graceful s (s\<lparr>caller := if graceful then CStop else CShutdown\<rparr>)"
| select_ch: "caller s = CSelect \<Longrightarrow> serving s = SDone \<Longrightarrow> serve_step graceful s (s\<lparr>caller := CClose (lasErr s)\<rparr>)"
| stop: "caller s = CStop \<Longrightarrow> serve_step graceful s (s\<lparr>caller := CStopHook, state := StateShutdown\<rparr>)"
| stop_hook: "caller s = CStopHook \<Longrightarrow> serve_step graceful s (s\<lparr>caller := CShutdown, hooks := hooks s @ [StateShutdown]\<rparr>)"
| shutdown: "caller s = CShutdown \<Longrightarrow> serve_step graceful s (s\<lparr>caller := CWait, stopping := True\<rparr>)"
| shutdown_ret: "caller s = CWait \<Longrightarrow> serve_step graceful s (s\<lparr>caller := CJoin err\<rparr>)"
| join: "caller s = CJoin err \<Longrightarrow> serving s = SDone \<Longrightarrow> ctx_err s = Some cerr \<Longrightarrow>
    serve_step graceful s (s\<lparr>caller := CClose (case err of None \<Rightarrow> cerr | Some x \<Rightarrow> x)\<rparr>)"
| close: "caller s = CClose err \<Longrightarrow> serve_step graceful s (s\<lparr>caller := CCloseHook err, state := StateClosed\<rparr>)"
| close_hook: "caller s = CCloseHook err \<Longrightarrow>
    serve_step graceful s (s\<lparr>caller := CReturned err, hooks := hooks s @ [StateClosed]\<rparr>)"

inductive_cases serve_stepE: "serve_step graceful s s'"

inductive serve_run :: "bool \<Rightarrow> run \<Rightarrow> bool" for graceful where
  start: "serve_run graceful run0"
| more: "serve_run graceful s \<Longrightarrow> serve_step graceful s s' \<Longrightarrow> serve_run graceful s'"

section \<open>An executable scheduler\<close>

text \<open>The steps by name, the choices of the environment included.\<close>

datatype act = ACancel goerr | AFail goerr | ACaller "goerr option" | AServer | ACtx

fun do_act :: "bool \<Rightarrow> act \<Rightarrow> run \<Rightarrow> run option" where
  "do_act graceful (ACancel err) s = (if ctx_err s = None then Some (s\<lparr>ctx_err := Some err\<rparr>) else None)"
| "do_act graceful (AFail err) s = (if serving s = SServing then Some (s\<lparr>serving := SFinish, lasErr := err\<rparr>) else None)"
| "do_act graceful AServer s =
     (case serving s of
        SListen \<Rightarrow> Some (s\<lparr>serving := SListenHook, state := StateListening\<rparr>)
      | SListenHook \<Rightarrow> Some (s\<lparr>serving := SServe, hooks := hooks s @ [StateListening]\<rparr>)
      | SServe \<Rightarrow> if stopping s then Some (s\<lparr>serving := SFinish, lasErr := Sentinel ErrServerClosed\<rparr>)
                  else Some (s\<lparr>serving := SServing\<rparr>)
      | SServing \<Rightarrow> if stopping s then Some (s\<lparr>serving := SFinish, lasErr := Sentinel ErrServerClosed\<rparr>) else None
      | SFinish \<Rightarrow> Some (s\<lparr>serving := SDone\<rparr>)
      | _ \<Rightarrow> None)"
| "do_act graceful ACtx s =
     (if caller s = CSelect \<and> ctx_err s \<noteq> None then Some (s\<lparr>caller := if graceful then CStop else CShutdown\<rparr>) else None)"
| "do_act graceful (ACaller serr) s =
     (case caller s of
        CNew \<Rightarrow> Some (s\<lparr>caller := CNewHook, state := StateNew\<rparr>)
      | CNewHook \<Rightarrow> Some (s\<lparr>caller := CSpawn, hooks := hooks s @ [StateNew]\<rparr>)
      | CSpawn \<Rightarrow> Some (s\<lparr>caller := CSelect, serving := SListen\<rparr>)
      | CSelect \<Rightarrow> if serving s = SDone then Some (s\<lparr>caller := CClose (lasErr s)\<rparr>) else None
      | CStop \<Rightarrow> Some (s\<lparr>caller := CStopHook, state := StateShutdown\<rparr>)
      | CStopHook \<Rightarrow> Some (s\<lparr>caller := CShutdown, hooks := hooks s @ [StateShutdown]\<rparr>)
      | CShutdown \<Rightarrow> Some (s\<lparr>caller := CWait, stopping := True\<rparr>)
      | CWait \<Rightarrow> Some (s\<lparr>caller := CJoin serr\<rparr>)
      | CJoin err \<Rightarrow> if serving s = SDone then
            (case ctx_err s of None \<Rightarrow> None
             | Some cerr \<Rightarrow> Some (s\<lparr>caller := CClose (case err of None \<Rightarrow> cerr | Some x \<Rightarrow> x)\<rparr>))
          else None
      | CClose err \<Rightarrow> Some (s\<lparr>caller := CCloseHook err, state := StateClosed\<rparr>)
      | CCloseHook err \<Rightarrow> Some (s\<lparr>caller := CReturned err, hooks := hooks s @ [StateClosed]\<rparr>)
      | CReturned err \<Rightarrow> None)"

lemma select_ctx_cases:
  "caller s = CSelect \<Longrightarrow> ctx_err s = Some x \<Longrightarrow> serve_step True s (s\<lparr>caller := CStop\<rparr>)"
  "caller s = CSelect \<Longrightarrow> ctx_err s = Some x \<Longrightarrow> serve_step False s (s\<lparr>caller := CShutdown\<rparr>)"
  using select_ctx [of s True] select_ctx [of s False] by simp_all

lemma join_cases:
  "caller s = CJoin None \<Longrightarrow> serving s = SDone \<Longrightarrow> ctx_err s = Some x \<Longrightarrow> serve_step graceful s (s\<lparr>caller := CClose x\<rparr>)"
  "caller s = CJoin (Some y) \<Longrightarrow> serving s = SDone \<Longrightarrow> ctx_err s = Some x \<Longrightarrow> serve_step graceful s (s\<lparr>caller := CClose y\<rparr>)"
  using join [of s None x graceful] join [of s "Some y" x graceful] by simp_all

lemma do_act_step: "do_act graceful a s = Some s' \<Longrightarrow> serve_step graceful s s'"
  by (cases "(graceful, a, s)" rule: do_act.cases)
    (auto intro: serve_step.intros select_ctx_cases join_cases split: server.splits caller.splits if_splits option.splits)

fun do_acts :: "bool \<Rightarrow> act list \<Rightarrow> run \<Rightarrow> run option" where
  "do_acts graceful [] s = Some s"
| "do_acts graceful (a # as) s = (case do_act graceful a s of None \<Rightarrow> None | Some s' \<Rightarrow> do_acts graceful as s')"

lemma do_acts_run: "do_acts graceful as s = Some s' \<Longrightarrow> serve_run graceful s \<Longrightarrow> serve_run graceful s'"
proof (induction as arbitrary: s)
  case (Cons a as)
  then obtain s1 where "do_act graceful a s = Some s1" "do_acts graceful as s1 = Some s'" by (auto split: option.splits)
  with Cons serve_run.more [OF Cons.prems(2) do_act_step] show ?case by blast
qed simp

section \<open>States and hooks\<close>

definition listened :: "run \<Rightarrow> bool" where
  "listened s \<longleftrightarrow> serving s \<in> {SServe, SServing, SFinish, SDone}"

definition listen_part :: "run \<Rightarrow> ServerState list" where
  "listen_part s = (if listened s then [StateListening] else [])"

text \<open>The hook calls so far, by the point that the two goroutines have reached.\<close>

definition stopped_hooks :: "bool \<Rightarrow> run \<Rightarrow> ServerState list set" where
  "stopped_hooks graceful s =
     (if graceful then {StateNew # listen_part s @ [StateShutdown], StateNew # StateShutdown # listen_part s}
      else {StateNew # listen_part s})"

fun hooks_at :: "bool \<Rightarrow> run \<Rightarrow> caller \<Rightarrow> ServerState list set" where
  "hooks_at graceful s CNew = {[]}"
| "hooks_at graceful s CNewHook = {[]}"
| "hooks_at graceful s CSpawn = {[StateNew]}"
| "hooks_at graceful s CSelect = {StateNew # listen_part s}"
| "hooks_at graceful s CStop = {StateNew # listen_part s}"
| "hooks_at graceful s CStopHook = {StateNew # listen_part s}"
| "hooks_at graceful s CShutdown = stopped_hooks graceful s"
| "hooks_at graceful s CWait = stopped_hooks graceful s"
| "hooks_at graceful s (CJoin err) = stopped_hooks graceful s"
| "hooks_at graceful s (CClose err) = insert (StateNew # listen_part s) (stopped_hooks graceful s)"
| "hooks_at graceful s (CCloseHook err) = insert (StateNew # listen_part s) (stopped_hooks graceful s)"
| "hooks_at graceful s (CReturned err) =
     (\<lambda>h. h @ [StateClosed]) ` insert (StateNew # listen_part s) (stopped_hooks graceful s)"

fun phase_ok :: "caller \<Rightarrow> run \<Rightarrow> bool" where
  "phase_ok CNew s = (serving s = SNone)"
| "phase_ok CNewHook s = (serving s = SNone)"
| "phase_ok CSpawn s = (serving s = SNone)"
| "phase_ok CSelect s = (serving s \<noteq> SNone)"
| "phase_ok (CClose err) s = (serving s = SDone)"
| "phase_ok (CCloseHook err) s = (serving s = SDone \<and> state s = StateClosed)"
| "phase_ok (CReturned err) s = (serving s = SDone \<and> state s = StateClosed)"
| "phase_ok CWait s = (serving s \<noteq> SNone \<and> ctx_err s \<noteq> None \<and> stopping s)"
| "phase_ok (CJoin err) s = (serving s \<noteq> SNone \<and> ctx_err s \<noteq> None \<and> stopping s)"
| "phase_ok c s = (serving s \<noteq> SNone \<and> ctx_err s \<noteq> None)"

definition serve_inv :: "bool \<Rightarrow> run \<Rightarrow> bool" where
  "serve_inv graceful s \<longleftrightarrow> hooks s \<in> hooks_at graceful s (caller s) \<and> phase_ok (caller s) s
     \<and> (caller s \<in> {CStop, CStopHook} \<longrightarrow> graceful)"

lemma serve_inv_step: "serve_step graceful s s' \<Longrightarrow> serve_inv graceful s \<Longrightarrow> serve_inv graceful s'"
  by (erule serve_step.cases; cases "caller s")
    (auto simp: serve_inv_def listen_part_def listened_def stopped_hooks_def)

lemma serve_run_inv: "serve_run graceful s \<Longrightarrow> serve_inv graceful s"
proof (induction rule: serve_run.induct)
  case start
  show ?case by (simp add: run0_def serve_inv_def)
qed (rule serve_inv_step)

text \<open>
  C10. The states that the hook of the server sees during a call of \<open>ListenAndServe\<close> that returns
  are exactly these sequences: new, listening, closed; with a graceful shutdown also a shutdown,
  after or before listening. In the last sequence, which a context that is cancelled early gives,
  the server enters the listening state from the shutdown state.
\<close>

theorem server_hook_sequences:
  "{hooks s | s err. serve_run graceful s \<and> caller s = CReturned err} =
     {[StateNew, StateListening, StateClosed]} \<union>
     (if graceful then {[StateNew, StateListening, StateShutdown, StateClosed],
        [StateNew, StateShutdown, StateListening, StateClosed]} else {})"
  (is "?traces = ?expected")
proof
  show "?traces \<subseteq> ?expected"
    by (auto dest!: serve_run_inv simp: serve_inv_def stopped_hooks_def listen_part_def listened_def split: if_splits)
  let ?c = "ACaller None" and ?x = "Sentinel CtxCanceled"
  let ?fail = "[?c, ?c, ?c, AServer, AServer, AServer, AFail ?x, AServer, ?c, ?c, ?c]"
  let ?late = "[?c, ?c, ?c, AServer, AServer, AServer, ACancel ?x, ACtx, ?c, ?c, ?c, ?c, AServer, AServer, ?c, ?c, ?c]"
  let ?early = "[?c, ?c, ?c, ACancel ?x, ACtx, ?c, ?c, AServer, AServer, ?c, ?c, AServer, AServer, ?c, ?c, ?c]"
  have hit: "h \<in> ?traces" if "\<exists>s err. do_acts graceful as run0 = Some s \<and> caller s = CReturned err \<and> hooks s = h" for as h
    using that do_acts_run [OF _ start] by blast
  have "[StateNew, StateListening, StateClosed] \<in> ?traces"
    by (rule hit [of ?fail]) (simp add: run0_def)
  moreover have "graceful \<Longrightarrow> [StateNew, StateListening, StateShutdown, StateClosed] \<in> ?traces"
    by (rule hit [of ?late]) (simp add: run0_def)
  moreover have "graceful \<Longrightarrow> [StateNew, StateShutdown, StateListening, StateClosed] \<in> ?traces"
    by (rule hit [of ?early]) (simp add: run0_def)
  ultimately show "?expected \<subseteq> ?traces" by auto
qed

text \<open>How many steps are left at most.\<close>

fun caller_left :: "caller \<Rightarrow> nat" where
  "caller_left CNew = 11" | "caller_left CNewHook = 10" | "caller_left CSpawn = 9" | "caller_left CSelect = 8"
| "caller_left CStop = 7" | "caller_left CStopHook = 6" | "caller_left CShutdown = 5" | "caller_left CWait = 4"
| "caller_left (CJoin err) = 3" | "caller_left (CClose err) = 2" | "caller_left (CCloseHook err) = 1"
| "caller_left (CReturned err) = 0"

fun server_left :: "server \<Rightarrow> nat" where
  "server_left SNone = 6" | "server_left SListen = 5" | "server_left SListenHook = 4" | "server_left SServe = 3"
| "server_left SServing = 2" | "server_left SFinish = 1" | "server_left SDone = 0"

definition steps_left :: "run \<Rightarrow> nat" where
  "steps_left s = caller_left (caller s) + server_left (serving s) + (if ctx_err s = None then 1 else 0)"

text \<open>
  C11. \<open>ListenAndServe\<close> returns after its context is done: every step of the two goroutines and of
  the environment brings the call closer to its end, of which it is at most 18 steps away, and as
  long as it has not returned, one of the goroutines can go on without a failure of the server.
  When it has returned, the goroutine that serves has ended, the state is closed, and so it stays.
\<close>

theorem ListenAndServe_returns:
  assumes "serve_run graceful s"
  shows "steps_left s \<le> 18 \<and> (\<forall>s'. serve_step graceful s s' \<longrightarrow> steps_left s' < steps_left s)
    \<and> (ctx_err s \<noteq> None \<longrightarrow> (case caller s of
         CReturned err \<Rightarrow> serving s = SDone \<and> state s = StateClosed \<and> (\<nexists>s'. serve_step graceful s s')
       | _ \<Rightarrow> \<exists>a s'. (\<forall>err. a \<noteq> AFail err) \<and> do_act graceful a s = Some s'))"
proof (intro conjI allI impI)
  from serve_run_inv [OF assms] have inv: "phase_ok (caller s) s" by (simp add: serve_inv_def)
  show "steps_left s \<le> 18" by (cases "caller s"; cases "serving s") (simp_all add: steps_left_def)
  show "steps_left s' < steps_left s" if "serve_step graceful s s'" for s'
    using that inv by (cases rule: serve_step.cases) (auto simp: steps_left_def)
  assume ctx: "ctx_err s \<noteq> None"
  have no: "\<nexists>s'. serve_step graceful s s'" if "caller s = CReturned err" for err
    using that inv ctx by (auto elim!: serve_step.cases)
  have server: "\<exists>s'. do_act graceful AServer s = Some s'" if "serving s \<notin> {SNone, SDone}" "stopping s"
    using that by (cases "serving s") auto
  consider "\<exists>err. caller s = CReturned err" | "caller s = CSelect" | "\<exists>err. caller s = CJoin err"
    | "\<exists>s'. do_act graceful (ACaller None) s = Some s'" by (cases "caller s") auto
  then show "case caller s of
         CReturned err \<Rightarrow> serving s = SDone \<and> state s = StateClosed \<and> (\<nexists>s'. serve_step graceful s s')
       | _ \<Rightarrow> \<exists>a s'. (\<forall>err. a \<noteq> AFail err) \<and> do_act graceful a s = Some s'"
  proof cases
    case 1
    with inv no show ?thesis by auto
  next
    case 2
    with ctx have "do_act graceful ACtx s \<noteq> None" by simp
    with 2 show ?thesis by (auto intro!: exI [of _ ACtx])
  next
    case 3
    with inv server ctx have "\<exists>a s'. a \<in> {AServer, ACaller None} \<and> do_act graceful a s = Some s'"
      by (cases "serving s = SDone") auto
    with 3 show ?thesis by fastforce
  next
    case 4
    then show ?thesis by (cases "caller s") (auto intro!: exI [of _ "ACaller None"])
  qed
qed

section \<open>Construction and refusal\<close>

text \<open>
  A server whose construction failed forgets it: \<open>Build\<close> reports the error once, but from then
  on the server counts as built, so that \<open>HTTPServer\<close> returns no server and no error, and
  \<open>ListenAndServe\<close> goes on to serve with a nil server.
\<close>

theorem failed_build_is_forgotten:
  assumes "\<not> built s" "Server_srv s = None" "Server_state s \<noteq> StateClosed" "Build load s = (Some err, s')"
  shows "HTTPServer load s' = (Inr None, s') \<and> fst (ListenAndServe_start load s') = Started None"
proof -
  from assms(1,2,4) have "s' = s\<lparr>built := True\<rparr>"
    by (auto simp: Build_def build_def Let_def buildHTTPServer_def split: sum.splits)
  with assms(2,3) show ?thesis by (simp add: HTTPServer_def ListenAndServe_start_def)
qed

text \<open>
  A server that can be built is built once: \<open>HTTPServer\<close> returns the server that takes every
  setting of the configuration over, with TLS exactly when certificates are configured, again
  the same one on later calls, and \<open>Build\<close> after that is refused.
\<close>

theorem HTTPServer_exact:
  assumes "\<not> built s" "buildTLS load s = Inr tc" "HTTPServer load s = (r, s')"
  shows "\<exists>srv. r = Inr (Some srv) \<and> buildHTTPServer s tc = Inr srv \<and> (hs_TLSConfig srv = None \<longleftrightarrow> Server_Certs s = None)
    \<and> HTTPServer load s' = (Inr (Some srv), s') \<and> fst (Build load s') \<noteq> None \<and> snd (Build load s') = s'"
proof -
  have tls: "buildTLS load (s\<lparr>built := True\<rparr>) = Inr tc" using assms(2) by (simp add: buildTLS_def)
  have "tc = None \<longleftrightarrow> Server_Certs s = None" using assms(2) by (auto simp: buildTLS_def split: option.splits if_splits sum.splits)
  moreover obtain srv where srv: "buildHTTPServer s tc = Inr srv" "hs_TLSConfig srv = tc" by (simp add: buildHTTPServer_def)
  moreover have "s' = s\<lparr>built := True, Server_srv := Some srv\<rparr>" "r = Inr (Some srv)"
    using assms tls srv by (auto simp: HTTPServer_def build_def buildHTTPServer_def)
  ultimately show ?thesis by (auto simp: HTTPServer_def Build_def)
qed

text \<open>
  Once closed, a server cannot be restarted: after a call of \<open>ListenAndServe\<close> that returned, the
  next one is refused with the error of a closed server.
\<close>

theorem closed_server_refuses:
  assumes "serve_run graceful run" "caller run = CReturned err" "built s"
  shows "ListenAndServe_start load (s\<lparr>Server_state := state run\<rparr>) = (Refused (Sentinel ErrServerClosed), s\<lparr>Server_state := StateClosed\<rparr>)"
  using serve_run_inv [OF assms(1)] assms(2,3) by (simp add: serve_inv_def ListenAndServe_start_def)

section \<open>Witnesses\<close>

definition sample_server :: "Certs option \<Rightarrow> (unit, unit) Server" where
  "sample_server certs = \<lparr>Addr = '':443'', ReadTimeout = 1, ReadHeaderTimeout = 1, WriteTimeout = 1, IdleTimeout = 1,
     MaxHeaderBytes = 100, Protocols = (), Handler = (), HTTP2Config = (), Server_Certs = certs, GracefulShutdown = None,
     ConnStateHook = (), BaseContext = (), ConnContext = (), ErrorLog = (), Server_srv = None, built = False,
     Server_state = StateNew\<rparr>"

definition no_files :: Certs where
  "no_files = \<lparr>AutoCert = False, AutoCertCacheDir = [], AutoCertExactHosts = [], AutoCertContactEmail = [],
     CertFile = [], KeyFile = []\<rparr>"

definition sample_acts :: "act list" where
  "sample_acts = [ACaller None, ACaller None, ACaller None, ACancel (Sentinel CtxCanceled), ACtx, ACaller None, ACaller None,
     AServer, AServer, ACaller None, ACaller None, AServer, AServer, ACaller None, ACaller None, ACaller None]"

lemma sample_acts_run: "\<exists>s. do_acts True sample_acts run0 = Some s \<and> caller s = CReturned (Sentinel CtxCanceled) \<and> ctx_err s \<noteq> None"
  by (simp add: sample_acts_def run0_def)

theorem ListenAndServe_returns_witness:
  "\<exists>s. serve_run True s \<and> steps_left s \<le> 18 \<and> state s = StateClosed \<and> (\<nexists>s'. serve_step True s s')"
proof -
  obtain s where s: "do_acts True sample_acts run0 = Some s" "caller s = CReturned (Sentinel CtxCanceled)" "ctx_err s \<noteq> None"
    using sample_acts_run by blast
  from do_acts_run [OF s(1) start] have "serve_run True s" .
  with ListenAndServe_returns [OF this] s show ?thesis by auto
qed

theorem failed_build_is_forgotten_witness:
  "\<exists>err s'. Build (\<lambda>_ _. Inr ()) (sample_server (Some no_files)) = (Some err, s') \<and> fst (HTTPServer (\<lambda>_ _. Inr ()) s') = Inr None"
proof -
  obtain err s' where b: "Build (\<lambda>_ _. Inr ()) (sample_server (Some no_files)) = (Some err, s')"
    by (simp add: Build_def build_def buildTLS_def configureTLSCertificate_def sample_server_def no_files_def)
  with failed_build_is_forgotten [OF _ _ _ b] show ?thesis by (simp add: sample_server_def)
qed

theorem HTTPServer_exact_witness:
  "\<exists>srv. fst (HTTPServer (\<lambda>_ _. Inr ()) (sample_server None)) = Inr (Some srv) \<and> hs_TLSConfig srv = None"
proof -
  obtain r s' where h: "HTTPServer (\<lambda>_ _. Inr ()) (sample_server None) = (r, s')" by fastforce
  have "buildTLS (\<lambda>_ _. Inr ()) (sample_server None) = Inr None" by (simp add: buildTLS_def sample_server_def)
  with HTTPServer_exact [OF _ this h] h show ?thesis by (auto simp: sample_server_def)
qed

theorem closed_server_refuses_witness:
  "\<exists>run. serve_run True run \<and> fst (ListenAndServe_start (\<lambda>_ _. Inr ()) ((sample_server None)\<lparr>built := True, Server_state := state run\<rparr>))
     = Refused (Sentinel ErrServerClosed)"
proof -
  obtain s where s: "do_acts True sample_acts run0 = Some s" "caller s = CReturned (Sentinel CtxCanceled)"
    using sample_acts_run by blast
  from do_acts_run [OF s(1) start] have r: "serve_run True s" .
  from closed_server_refuses [OF r s(2), of "(sample_server None)\<lparr>built := True\<rparr>" "\<lambda>_ _. Inr ()"] r show ?thesis by auto
qed

end
