(* ===== verification/Negotiate.thy ===== *)
theory Negotiate
  imports Complex_Main Prelude
begin

text \<open>
  The negotiation of the content type (\<^verbatim>\<open>src/server/middleware/gddo_header.go\<close> and
  \<^verbatim>\<open>gddo_negotiate.go\<close>): the parser of Accept headers and the choice among the offers. Qualities are
  64-bit floating-point numbers: rational numbers with a significand of 53 bits, rounded to
  nearest even, infinities and the value that is not a number. The quotients computed here are
  zero or between \<open>2^-63\<close> and \<open>2^63\<close> in magnitude, so the limits of the exponent play no role.
\<close>

section \<open>Floating-point numbers\<close>

datatype float64 = Fin rat | PosInf | NegInf | NaN

fun pow2 :: "int \<Rightarrow> rat" where
  "pow2 k = (if 0 \<le> k then 2 ^ nat k else 1 / 2 ^ nat (- k))"

text \<open>The exponent of the last bit of the significand of a positive number.\<close>

definition last_bit :: "rat \<Rightarrow> int" where
  "last_bit x = (case find (\<lambda>k. x < 2 ^ 53 * pow2 k) [- 128 .. 128] of None \<Rightarrow> 128 | Some k \<Rightarrow> k)"

definition half_even :: "rat \<Rightarrow> int" where
  "half_even y = (let f = \<lfloor>y\<rfloor>; r = y - of_int f in
     if r < 1 / 2 then f else if r > 1 / 2 then f + 1 else if even f then f else f + 1)"

definition f64_round :: "rat \<Rightarrow> rat" where
  "f64_round x =
     (if x = 0 then 0
      else let k = last_bit \<bar>x\<bar>; m = of_int (half_even (\<bar>x\<bar> / pow2 k)) * pow2 k in if x < 0 then - m else m)"

definition f64_of_int :: "int \<Rightarrow> float64" where
  "f64_of_int n = Fin (f64_round (of_int n))"

fun f64_div :: "float64 \<Rightarrow> float64 \<Rightarrow> float64" where
  "f64_div (Fin x) (Fin y) =
     (if y = 0 then (if x = 0 then NaN else if x > 0 then PosInf else NegInf) else Fin (f64_round (x / y)))"
| "f64_div _ _ = NaN"

fun f64_add :: "float64 \<Rightarrow> float64 \<Rightarrow> float64" where
  "f64_add (Fin x) (Fin y) = Fin (f64_round (x + y))"
| "f64_add (Fin x) y = y"
| "f64_add x (Fin y) = x"
| "f64_add x y = (if x = y then x else NaN)"

text \<open>Comparisons: false as soon as one side is not a number.\<close>

fun f64_lt :: "float64 \<Rightarrow> float64 \<Rightarrow> bool" where
  "f64_lt (Fin x) (Fin y) = (x < y)"
| "f64_lt (Fin x) PosInf = True"
| "f64_lt NegInf (Fin y) = True"
| "f64_lt NegInf PosInf = True"
| "f64_lt _ _ = False"

fun f64_eq :: "float64 \<Rightarrow> float64 \<Rightarrow> bool" where
  "f64_eq NaN _ = False"
| "f64_eq _ NaN = False"
| "f64_eq x y = (x = y)"

section \<open>The parser\<close>

datatype octetType = Octet (isToken: bool) (isSpace: bool)

definition octetTypes :: "char \<Rightarrow> octetType" where
  "octetTypes b =
     (let c = (of_char b :: nat);
          isCtl = c \<le> 31 \<or> c = 127;
          isChar = c \<le> 127;
          isSeparator = (c < 128 \<and> b \<in> set ([CHR 0x20, CHR 0x09, CHR 0x22] @ ''(),/:;<=>?@['' @ [CHR 0x5D, CHR 0x5C] @ ''{}''))
      in Octet (isChar \<and> \<not> isCtl \<and> \<not> isSeparator) (b \<in> {CHR 0x20, CHR 0x09, CHR 0x0D, CHR 0x0A}))"

record acceptSpec =
  spec_Value :: string
  spec_Q :: float64

definition skipSpace :: "string \<Rightarrow> string" where
  "skipSpace s = dropWhile (\<lambda>b. isSpace (octetTypes b)) s"

definition token_slash :: "char \<Rightarrow> bool" where
  "token_slash b \<longleftrightarrow> isToken (octetTypes b) \<or> b = CHR ''/''"

definition expectTokenSlash :: "string \<Rightarrow> string \<times> string" where
  "expectTokenSlash s = (takeWhile token_slash s, dropWhile token_slash s)"

text \<open>The loop over the digits, with the 64-bit integers \<open>n\<close> and \<open>d\<close>.\<close>

fun quality_digits :: "int \<Rightarrow> int \<Rightarrow> string \<Rightarrow> int \<times> int \<times> string" where
  "quality_digits n d [] = (n, d, [])"
| "quality_digits n d (b # s) =
     (case char_digit b of
        None \<Rightarrow> (n, d, b # s)
      | Some v \<Rightarrow> quality_digits (wrap64 (wrap64 (n * 10) + int v)) (wrap64 (d * 10)) s)"

definition quality_fraction :: "rat \<Rightarrow> string \<Rightarrow> float64 \<times> string" where
  "quality_fraction q s =
     (if \<not> go_HasPrefix s ''.'' then (Fin q, s)
      else (case quality_digits 0 1 (tl s) of (n, d, rest) \<Rightarrow>
              (f64_add (Fin q) (f64_div (f64_of_int n) (f64_of_int d)), rest)))"

definition expectQuality :: "string \<Rightarrow> float64 \<times> string" where
  "expectQuality s =
     (case s of
        [] \<Rightarrow> (Fin (- 1), [])
      | b # s' \<Rightarrow>
          if b = CHR ''0'' then quality_fraction 0 s'
          else if b = CHR ''1'' then quality_fraction 1 s'
          else (Fin (- 1), []))"

text \<open>
  One turn of the inner loop of \<open>parseAccept\<close>: the specification that was read, if any, and the
  rest of the header when the loop goes on.
\<close>

definition accept_quality :: "string \<Rightarrow> (float64 \<times> string) option" where
  "accept_quality s =
     (if go_HasPrefix s '';'' then
        let s1 = skipSpace (tl s) in
        if \<not> go_HasPrefix s1 ''q='' then None
        else (case expectQuality (drop 2 s1) of (q, s2) \<Rightarrow> if f64_lt q (Fin 0) then None else Some (q, s2))
      else Some (Fin 1, s))"

definition accept_turn :: "string \<Rightarrow> acceptSpec option \<times> string option" where
  "accept_turn s =
     (case expectTokenSlash s of (value, s1) \<Rightarrow>
        if value = [] then (None, None)
        else (case accept_quality (skipSpace s1) of
                None \<Rightarrow> (None, None)
              | Some (q, s2) \<Rightarrow>
                  let s3 = skipSpace s2 in
                  (Some \<lparr>spec_Value = value, spec_Q = q\<rparr>,
                   if go_HasPrefix s3 '','' then Some (skipSpace (tl s3)) else None)))"

text \<open>Every turn that goes on has consumed text.\<close>

lemma length_skipSpace: "length (skipSpace s) \<le> length s"
  by (simp add: skipSpace_def length_dropWhile_le)

lemma length_quality_digits: "quality_digits n d s = (n', d', r) \<Longrightarrow> length r \<le> length s"
  by (induction n d s rule: quality_digits.induct) (auto split: option.splits)

lemma length_expectQuality: "expectQuality s = (q, r) \<Longrightarrow> length r \<le> length s"
proof (cases s)
  case (Cons b s')
  have "length r \<le> length s'" if "quality_fraction x s' = (q, r)" for x
    using that length_quality_digits [of 0 1 "tl s'"] by (cases s') (fastforce simp: quality_fraction_def split: if_splits prod.splits)+
  moreover assume "expectQuality s = (q, r)"
  ultimately have "length r \<le> length s' \<or> r = []" using Cons by (auto simp: expectQuality_def split: if_splits)
  with Cons show ?thesis by auto
qed (simp add: expectQuality_def)

lemma length_accept_quality: "accept_quality s = Some (q, r) \<Longrightarrow> length r \<le> length s"
proof (cases s)
  case (Cons b s')
  assume a: "accept_quality s = Some (q, r)"
  show ?thesis
  proof (cases "go_HasPrefix s '';''")
    case True
    with a obtain q' where "expectQuality (drop 2 (skipSpace (tl s))) = (q', r)"
      by (auto simp: accept_quality_def Let_def split: if_splits prod.splits)
    from length_expectQuality [OF this] length_skipSpace [of "tl s"] Cons show ?thesis by simp
  qed (use a in \<open>simp add: accept_quality_def\<close>)
qed (simp add: accept_quality_def go_HasPrefix_def)

lemma length_accept_turn: "accept_turn s = (x, Some r) \<Longrightarrow> length r < length s"
proof -
  assume t: "accept_turn s = (x, Some r)"
  let ?v = "takeWhile token_slash s" and ?s1 = "dropWhile token_slash s"
  from t obtain q s2 where q: "?v \<noteq> []" "accept_quality (skipSpace ?s1) = Some (q, s2)" "r = skipSpace (tl (skipSpace s2))"
    by (auto simp: accept_turn_def expectTokenSlash_def Let_def split: if_splits option.splits)
  have "length s = length ?v + length ?s1" by (metis length_append takeWhile_dropWhile_id)
  with q(1) have "length ?s1 < length s" by simp
  moreover have "length r \<le> length ?s1"
    using length_accept_quality [OF q(2)] length_skipSpace [of ?s1] length_skipSpace [of s2] length_skipSpace [of "tl (skipSpace s2)"] q(3)
    by simp
  ultimately show ?thesis by simp
qed

function parse_line :: "string \<Rightarrow> acceptSpec list" where
  "parse_line s =
     (case accept_turn s of
        (None, _) \<Rightarrow> []
      | (Some spec, None) \<Rightarrow> [spec]
      | (Some spec, Some s') \<Rightarrow> spec # parse_line s')"
  by pat_completeness auto
termination
  by (relation "measure length") (auto dest: length_accept_turn [OF sym])

declare parse_line.simps [simp del]

type_synonym http_Header = "(string, string list) gomap"

definition parseAccept :: "http_Header \<Rightarrow> string \<Rightarrow> acceptSpec list" where
  "parseAccept header key =
     concat (map parse_line (case map_of header key of None \<Rightarrow> [] | Some lines \<Rightarrow> lines))"

section \<open>The choice\<close>

record best =
  bestOffer :: string
  bestQ :: float64
  bestWild :: int

definition consider_spec :: "string \<Rightarrow> acceptSpec \<Rightarrow> best \<Rightarrow> best" where
  "consider_spec offer spec b =
     (if f64_eq (spec_Q spec) (Fin 0) then b
      else if f64_lt (spec_Q spec) (bestQ b) then b
      else if spec_Value spec = ''*/*'' then
        (if f64_lt (bestQ b) (spec_Q spec) \<or> bestWild b > 2
         then \<lparr>bestOffer = offer, bestQ = spec_Q spec, bestWild = 2\<rparr> else b)
      else if go_HasSuffix (spec_Value spec) ''/*'' then
        (if go_HasPrefix offer (take (length (spec_Value spec) - 1) (spec_Value spec))
            \<and> (f64_lt (bestQ b) (spec_Q spec) \<or> bestWild b > 1)
         then \<lparr>bestOffer = offer, bestQ = spec_Q spec, bestWild = 1\<rparr> else b)
      else
        (if spec_Value spec = offer \<and> (f64_lt (bestQ b) (spec_Q spec) \<or> bestWild b > 0)
         then \<lparr>bestOffer = offer, bestQ = spec_Q spec, bestWild = 0\<rparr> else b))"

definition negotiateContentType :: "http_Header \<Rightarrow> string list \<Rightarrow> string \<Rightarrow> string" where
  "negotiateContentType header offers defaultOffer =
     bestOffer (fold (\<lambda>offer b. fold (consider_spec offer) (parseAccept header ''Accept'') b) offers
       \<lparr>bestOffer = defaultOffer, bestQ = Fin (- 1), bestWild = 3\<rparr>)"

section \<open>The best offer\<close>

text \<open>How wild a media range matches an offer: exactly, by its type, or as any type.\<close>

definition match_wild :: "string \<Rightarrow> string \<Rightarrow> int option" where
  "match_wild offer value =
     (if value = ''*/*'' then Some 2
      else if go_HasSuffix value ''/*'' then
        (if go_HasPrefix offer (take (length value - 1) value) then Some 1 else None)
      else if value = offer then Some 0 else None)"

definition candidate :: "string \<Rightarrow> acceptSpec \<Rightarrow> best list" where
  "candidate offer spec =
     (if f64_eq (spec_Q spec) (Fin 0) then []
      else (case match_wild offer (spec_Value spec) of
              None \<Rightarrow> [] | Some w \<Rightarrow> [\<lparr>bestOffer = offer, bestQ = spec_Q spec, bestWild = w\<rparr>]))"

text \<open>All matches of offers and specifications, those with quality zero left out, in the order of the offers.\<close>

definition candidates :: "acceptSpec list \<Rightarrow> string list \<Rightarrow> best list" where
  "candidates specs offers = concat (map (\<lambda>offer. concat (map (candidate offer) specs)) offers)"

text \<open>A match is better when its quality is higher, or the same and it is more specific.\<close>

definition better :: "best \<Rightarrow> best \<Rightarrow> bool" where
  "better c b \<longleftrightarrow> \<not> f64_lt (bestQ c) (bestQ b) \<and> (f64_lt (bestQ b) (bestQ c) \<or> bestWild c < bestWild b)"

definition take_better :: "best \<Rightarrow> best \<Rightarrow> best" where
  "take_better c b = (if better c b then c else b)"

lemma f64_lt_asym: "f64_lt x y \<Longrightarrow> \<not> f64_lt y x"
  by (cases "(x, y)" rule: f64_lt.cases) auto

lemma consider_spec_candidate: "consider_spec offer spec b = fold take_better (candidate offer spec) b"
  using f64_lt_asym [of "bestQ b" "spec_Q spec"]
  by (auto simp: consider_spec_def candidate_def match_wild_def take_better_def better_def)

lemma fold_consider: "fold (consider_spec offer) specs b = fold take_better (concat (map (candidate offer) specs)) b"
  by (induction specs arbitrary: b) (auto simp: consider_spec_candidate)

lemma fold_offers: "fold (\<lambda>offer b. fold (consider_spec offer) specs b) offers b = fold take_better (candidates specs offers) b"
  by (induction offers arbitrary: b) (auto simp: fold_consider candidates_def)

definition finite_q :: "best \<Rightarrow> bool" where
  "finite_q b \<longleftrightarrow> (\<exists>x. bestQ b = Fin x)"

lemma better_trans:
  "finite_q a \<Longrightarrow> finite_q b \<Longrightarrow> finite_q c \<Longrightarrow> better a b \<Longrightarrow> \<not> better c b \<Longrightarrow> better a c"
  by (auto simp: better_def finite_q_def)

lemma better_trans2:
  "finite_q a \<Longrightarrow> finite_q b \<Longrightarrow> finite_q c \<Longrightarrow> better a b \<Longrightarrow> better b c \<Longrightarrow> better a c"
  by (auto simp: better_def finite_q_def)

lemma take_better_simps: "better c b \<Longrightarrow> take_better c b = c" "\<not> better c b \<Longrightarrow> take_better c b = b"
  by (simp_all add: take_better_def)

text \<open>The first of the best ones: it beats all before it, and none after it beats it.\<close>

definition first_best :: "best list \<Rightarrow> best \<Rightarrow> bool" where
  "first_best cs b \<longleftrightarrow> (\<exists>us vs. cs = us @ b # vs \<and> (\<forall>c \<in> set us. better b c) \<and> (\<forall>c \<in> set vs. \<not> better c b))"

lemma first_bestI: "\<forall>c \<in> set us. better b c \<Longrightarrow> \<forall>c \<in> set vs. \<not> better c b \<Longrightarrow> first_best (us @ b # vs) b"
  unfolding first_best_def by blast

lemma first_best_last: "(\<And>x. x \<in> set cs \<Longrightarrow> better c x) \<Longrightarrow> first_best (cs @ [c]) c"
  by (rule first_bestI) simp_all

lemma first_best_snoc:
  assumes "first_best cs b" "\<not> better c b"
  shows "first_best (cs @ [c]) b"
proof -
  from assms(1) obtain us vs where "cs = us @ b # vs" "\<forall>c \<in> set us. better b c" "\<forall>c \<in> set vs. \<not> better c b"
    unfolding first_best_def by blast
  with assms(2) first_bestI [of us b "vs @ [c]"] show ?thesis by simp
qed

lemma fold_take_better:
  assumes "finite_q b0"
  shows "(\<And>c. c \<in> set cs \<Longrightarrow> finite_q c) \<Longrightarrow>
    (fold take_better cs b0 = b0 \<and> (\<forall>c \<in> set cs. \<not> better c b0))
    \<or> (first_best cs (fold take_better cs b0) \<and> better (fold take_better cs b0) b0)"
proof (induction cs rule: rev_induct)
  case (snoc c cs)
  let ?b = "fold take_better cs b0"
  have fc: "finite_q c" and f: "\<And>x. x \<in> set cs \<Longrightarrow> finite_q x" using snoc.prems by auto
  from snoc.IH [OF f] consider "?b = b0" "\<forall>c \<in> set cs. \<not> better c b0" | "first_best cs ?b" "better ?b b0" by blast
  then show ?case
  proof cases
    case 1
    have "first_best (cs @ [c]) c" if "better c b0"
      using that 1(2) f fc assms better_trans [of c b0] by (blast intro: first_best_last)
    with 1 show ?thesis by (cases "better c b0") (auto simp: take_better_simps)
  next
    case 2
    from 2(1) obtain us vs where cs: "cs = us @ ?b # vs" "\<forall>c \<in> set us. better ?b c" "\<forall>c \<in> set vs. \<not> better c ?b"
      unfolding first_best_def by blast
    then have fb: "finite_q ?b" using f by (metis in_set_conv_decomp)
    show ?thesis
    proof (cases "better c ?b")
      case True
      have "better c x" if "x \<in> set cs" for x
      proof -
        from that cs(1) consider "x \<in> set us" | "x = ?b" | "x \<in> set vs" by (metis Un_iff set_ConsD set_append)
        then show ?thesis using cs(2,3) True fc fb f [OF that] better_trans [of c ?b x] better_trans2 [of c ?b x] by cases auto
      qed
      then show ?thesis using True 2(2) better_trans2 [OF fc fb assms True] by (auto simp: take_better_simps intro: first_best_last)
    qed (use 2 in \<open>auto simp: take_better_simps intro: first_best_snoc\<close>)
  qed
qed simp

text \<open>A specification with a quality that is a number and not negative.\<close>

definition usable :: "acceptSpec \<Rightarrow> bool" where
  "usable spec \<longleftrightarrow> (\<exists>x \<ge> 0. spec_Q spec = Fin x)"

text \<open>
  C15. The content type that is chosen is the best offer: among all matches of offers and media
  ranges of the header, leaving out quality zero, it belongs to the first one that no other beats,
  by quality first and by specificity second; so of equally good ones the offer that comes first.
  Without a match it is the default.
\<close>

theorem negotiateContentType_best:
  assumes "\<forall>spec \<in> set (parseAccept header ''Accept''). usable spec"
  shows "let cs = candidates (parseAccept header ''Accept'') offers; r = negotiateContentType header offers defaultOffer in
    if cs = [] then r = defaultOffer
    else \<exists>b. first_best cs b \<and> r = bestOffer b"
proof -
  let ?specs = "parseAccept header ''Accept''"
  let ?cs = "candidates ?specs offers" and ?b0 = "\<lparr>bestOffer = defaultOffer, bestQ = Fin (- 1), bestWild = 3\<rparr>"
  have c: "\<exists>x \<ge> 0. bestQ c = Fin x" if "c \<in> set ?cs" for c
    using that assms by (auto simp: candidates_def candidate_def usable_def split: if_splits option.splits)
  then have fin: "finite_q c" "better c ?b0" if "c \<in> set ?cs" for c
    using that by (force simp: finite_q_def better_def)+
  have "finite_q ?b0" by (simp add: finite_q_def)
  from fold_take_better [OF this, of ?cs] fin
  have "?cs = [] \<or> first_best ?cs (fold take_better ?cs ?b0)" by (cases ?cs) auto
  moreover have "negotiateContentType header offers defaultOffer = bestOffer (fold take_better ?cs ?b0)"
    by (simp add: negotiateContentType_def fold_offers)
  ultimately show ?thesis by (auto simp: Let_def)
qed

section \<open>Reading back a header\<close>

text \<open>A media range with an optional quality: whether it starts with 1, and the digits after the point.\<close>

type_synonym media_range = "string \<times> (bool \<times> string) option"

fun quality_text :: "bool \<times> string \<Rightarrow> string" where
  "quality_text (one, ds) = (if one then ''1'' else ''0'') @ (if ds = [] then [] else CHR ''.'' # ds)"

fun range_text :: "media_range \<Rightarrow> string" where
  "range_text (v, None) = v"
| "range_text (v, Some q) = v @ '';q='' @ quality_text q"

fun accept_text :: "media_range list \<Rightarrow> string" where
  "accept_text [] = []"
| "accept_text [r] = range_text r"
| "accept_text (r # rs) = range_text r @ '', '' @ accept_text rs"

definition all_digits :: "string \<Rightarrow> bool" where
  "all_digits ds \<longleftrightarrow> list_all (\<lambda>c. char_digit c \<noteq> None) ds"

fun range_ok :: "media_range \<Rightarrow> bool" where
  "range_ok (v, q) \<longleftrightarrow> v \<noteq> [] \<and> list_all token_slash v \<and>
     (case q of None \<Rightarrow> True | Some (one, ds) \<Rightarrow> all_digits ds \<and> length ds \<le> 18)"

text \<open>The number that a quality stands for, rounded as the floating-point operations do.\<close>

definition fraction_value :: "string \<Rightarrow> float64" where
  "fraction_value ds = f64_div (f64_of_int (int (the (digits_value 0 ds)))) (f64_of_int (10 ^ length ds))"

fun range_value :: "media_range \<Rightarrow> acceptSpec" where
  "range_value (v, q) = \<lparr>spec_Value = v, spec_Q = (case q of None \<Rightarrow> Fin 1
     | Some (one, ds) \<Rightarrow> let x = (if one then 1 else 0) in if ds = [] then Fin x else f64_add (Fin x) (fraction_value ds))\<rparr>"

lemma digits_value_Some: "all_digits ds \<Longrightarrow> \<exists>n. digits_value acc ds = Some n"
  by (induction ds arbitrary: acc) (auto simp: all_digits_def split: option.splits)

lemma digits_value_less: "digits_value acc ds = Some n \<Longrightarrow> acc < 10 ^ k \<Longrightarrow> n < 10 ^ (k + length ds)"
proof (induction ds arbitrary: acc k)
  case (Cons c ds)
  then obtain d where d: "char_digit c = Some d" "digits_value (10 * acc + d) ds = Some n" by (auto split: option.splits)
  from d(1) have "d < 10" by (auto simp: char_digit_def Let_def split: if_splits)
  with Cons.prems(2) have "10 * acc + d < 10 ^ Suc k" by simp
  from Cons.IH [OF d(2) this] show ?case by simp
qed simp

lemma pow10_int64: "k \<le> 18 \<Longrightarrow> (10 :: int) ^ k \<le> 10 ^ 18"
  by (rule power_increasing) simp_all

lemma quality_digits_read:
  assumes "rest = [] \<or> char_digit (hd rest) = None"
  shows "digits_value acc ds = Some n \<Longrightarrow> acc < 10 ^ k \<Longrightarrow> k + length ds \<le> 18 \<Longrightarrow>
    quality_digits (int acc) (10 ^ k) (ds @ rest) = (int n, 10 ^ (k + length ds), rest)"
proof (induction ds arbitrary: acc k)
  case Nil
  with assms show ?case by (cases rest) auto
next
  case (Cons c ds)
  then obtain d where d: "char_digit c = Some d" "digits_value (10 * acc + d) ds = Some n" by (auto split: option.splits)
  from d(1) have "d < 10" by (auto simp: char_digit_def Let_def split: if_splits)
  with Cons.prems(2) have acc: "10 * acc + d < 10 ^ Suc k" by simp
  have "int (10 * acc + d) < 10 ^ Suc k" using acc by (metis of_nat_less_iff of_nat_numeral of_nat_power)
  with pow10_int64 [of "Suc k"] Cons.prems(3) have w: "int64_ok (int acc * 10)" "int64_ok (int acc * 10 + int d)" "int64_ok (10 ^ k * 10)"
    by (auto simp: int64_ok_def)
  with Cons.IH [OF d(2) acc] Cons.prems(3) d(1) show ?case by (simp add: wrap64_id algebra_simps)
qed

lemma half_even_nonneg: "0 \<le> y \<Longrightarrow> 0 \<le> half_even y"
  by (simp add: half_even_def Let_def)

lemma pow2_pos: "0 < pow2 k"
  by simp

lemma f64_round_nonneg: "0 \<le> x \<Longrightarrow> 0 \<le> f64_round x"
  using half_even_nonneg [of "\<bar>x\<bar> / pow2 (last_bit \<bar>x\<bar>)"] pow2_pos [of "last_bit \<bar>x\<bar>"]
  by (auto simp: f64_round_def Let_def simp del: pow2.simps intro!: mult_nonneg_nonneg divide_nonneg_nonneg)

text \<open>What the parser makes of a quality is not negative.\<close>

lemma f64_parts_nonneg:
  "0 \<le> n \<Longrightarrow> 0 \<le> d \<Longrightarrow> 0 \<le> x \<Longrightarrow> \<not> f64_lt (f64_add (Fin x) (f64_div (f64_of_int n) (f64_of_int d))) (Fin 0)"
proof -
  assume "0 \<le> n" "0 \<le> d" "0 \<le> x"
  then have n: "0 \<le> f64_round (of_int n)" "0 \<le> f64_round (of_int d)" by (simp_all add: f64_round_nonneg)
  then have "0 \<le> f64_round (f64_round (of_int n) / f64_round (of_int d))" by (simp add: f64_round_nonneg)
  with \<open>0 \<le> x\<close> have "0 \<le> f64_round (x + f64_round (f64_round (of_int n) / f64_round (of_int d)))" by (simp add: f64_round_nonneg)
  with n show ?thesis by (auto simp: f64_of_int_def)
qed

lemma quality_read:
  assumes "all_digits ds" "length ds \<le> 18" "rest = [] \<or> hd rest = CHR '',''"
  shows "expectQuality (quality_text (one, ds) @ rest) = (spec_Q (range_value (v, Some (one, ds))), rest)
    \<and> \<not> f64_lt (spec_Q (range_value (v, Some (one, ds)))) (Fin 0)"
proof -
  from digits_value_Some [OF assms(1)] obtain n where n: "digits_value 0 ds = Some n" by blast
  have "rest = [] \<or> char_digit (hd rest) = None" using assms(3) by (auto simp: char_digit_def)
  from quality_digits_read [OF this n, of 0] assms(2)
  have q: "quality_digits 0 1 (ds @ rest) = (int n, 10 ^ length ds, rest)" by simp
  have "\<not> go_HasPrefix rest ''.''" using assms(3) by (cases rest) (auto simp: go_HasPrefix_def)
  with q n f64_parts_nonneg [of "int n" "10 ^ length ds"] show ?thesis
    by (auto simp: expectQuality_def quality_fraction_def fraction_value_def Let_def go_HasPrefix_def)
qed

lemma skipSpace_simps:
  "skipSpace [] = []" "skipSpace (CHR '';'' # s) = CHR '';'' # s" "skipSpace (CHR '','' # s) = CHR '','' # s"
  "skipSpace (CHR ''q'' # s) = CHR ''q'' # s" "skipSpace (CHR '' '' # s) = skipSpace s"
  by (simp_all add: skipSpace_def octetTypes_def Let_def)

lemma token_no_space: "token_slash b \<Longrightarrow> skipSpace (b # s) = b # s"
proof -
  have "isSpace (octetTypes b) \<longleftrightarrow> b \<in> {CHR 0x20, CHR 0x09, CHR 0x0D, CHR 0x0A}" by (simp add: octetTypes_def Let_def)
  moreover have "\<not> token_slash (CHR 0x20)" "\<not> token_slash (CHR 0x09)" "\<not> token_slash (CHR 0x0D)" "\<not> token_slash (CHR 0x0A)"
    by (simp_all add: token_slash_def octetTypes_def Let_def)
  moreover assume "token_slash b"
  ultimately have "\<not> isSpace (octetTypes b)" by blast
  then show ?thesis by (simp add: skipSpace_def)
qed

lemma not_token: "\<not> token_slash (CHR '';'')" "\<not> token_slash (CHR '','')" "\<not> token_slash (CHR '' '')"
  by (simp_all add: token_slash_def octetTypes_def Let_def)

lemma expectTokenSlash_read:
  "list_all token_slash v \<Longrightarrow> rest = [] \<or> \<not> token_slash (hd rest) \<Longrightarrow> expectTokenSlash (v @ rest) = (v, rest)"
  by (cases rest) (auto simp: expectTokenSlash_def takeWhile_append dropWhile_append list_all_iff)

lemma accept_turn_read:
  assumes "range_ok r" "rest = [] \<or> (\<exists>s. rest = '', '' @ s)"
  shows "accept_turn (range_text r @ rest) = (Some (range_value r), if rest = [] then None else Some (skipSpace (drop 2 rest)))"
proof -
  obtain v q where r: "r = (v, q)" by (cases r)
  from assms(1) r have v: "v \<noteq> []" "list_all token_slash v" by auto
  have comma: "rest = [] \<or> hd rest = CHR '',''" "skipSpace rest = rest" using assms(2) by (auto simp: skipSpace_simps)
  show ?thesis
  proof (cases q)
    case None
    have "expectTokenSlash (v @ rest) = (v, rest)"
      using expectTokenSlash_read [OF v(2)] comma(1) not_token by auto
    with None r v assms(2) show ?thesis
      by (auto simp: accept_turn_def accept_quality_def skipSpace_simps go_HasPrefix_def Let_def)
  next
    case (Some p)
    obtain one ds where p: "p = (one, ds)" by (cases p)
    from assms(1) r Some p have ds: "all_digits ds" "length ds \<le> 18" by auto
    note q' = quality_read [OF ds comma(1), of one v]
    have "expectTokenSlash (v @ '';q='' @ quality_text p @ rest) = (v, '';q='' @ quality_text p @ rest)"
      by (rule expectTokenSlash_read [OF v(2)]) (simp add: not_token)
    with q' r Some p v assms(2) comma(2) show ?thesis
      by (auto simp: accept_turn_def accept_quality_def skipSpace_simps go_HasPrefix_def Let_def simp del: quality_text.simps range_value.simps)
        (auto simp: Let_def)
  qed
qed

lemma range_text_start: "range_ok r \<Longrightarrow> skipSpace (range_text r @ s) = range_text r @ s"
  by (cases r rule: range_text.cases) (auto simp: neq_Nil_conv token_no_space)

lemma parse_line_read: "(\<And>r. r \<in> set rs \<Longrightarrow> range_ok r) \<Longrightarrow> parse_line (accept_text rs) = map range_value rs"
proof (induction rs rule: accept_text.induct)
  case 1
  show ?case by (subst parse_line.simps) (simp add: accept_turn_def expectTokenSlash_def)
next
  case (2 r)
  with accept_turn_read [of r "[]"] show ?case by (subst parse_line.simps) simp
next
  case (3 r r' rs)
  have "skipSpace (accept_text (r' # rs)) = accept_text (r' # rs)"
    using range_text_start [of r' "[]"] range_text_start [of r'] 3(2) by (cases rs) auto
  with accept_turn_read [of r "'', '' @ accept_text (r' # rs)"] 3 show ?case
    by (subst parse_line.simps) simp
qed

text \<open>
  C36. The parser reads back what a client writes: a list of media ranges, each with an optional
  quality of at most 18 decimals and separated by commas, comes back as the same ranges in the
  same order, with their qualities rounded to floating-point numbers.
\<close>

theorem parseAccept_reads_back:
  assumes "map_of header key = Some [accept_text rs]" "\<forall>r \<in> set rs. range_ok r"
  shows "parseAccept header key = map range_value rs"
  using assms parse_line_read [of rs] by (simp add: parseAccept_def)

text \<open>
  The counters of the quality overflow: with 64 decimals the divisor is zero, and the quality
  zero, which refuses a type, is read as not a number. The type is then chosen although the
  client refuses it.
\<close>

theorem refused_type_chosen:
  "spec_Q (hd (parse_line (''text/html;q=0.'' @ replicate 64 (CHR ''0'')))) = NaN
   \<and> negotiateContentType [(''Accept'', [''text/html;q=0.'' @ replicate 64 (CHR ''0'')])] [''text/html''] ''-'' = ''text/html''
   \<and> negotiateContentType [(''Accept'', [''text/html;q=0.000''])] [''text/html''] ''-'' = ''-''"
  by code_simp

theorem negotiateContentType_best_witness:
  "\<exists>b. first_best (candidates (parseAccept [(''Accept'', [''text/*, text/html;q=1''])] ''Accept'') [''text/plain'', ''text/html'']) b
     \<and> negotiateContentType [(''Accept'', [''text/*, text/html;q=1''])] [''text/plain'', ''text/html''] ''-'' = bestOffer b"
proof -
  let ?h = "[(''Accept'', [''text/*, text/html;q=1''])]"
  have p: "parseAccept ?h ''Accept'' = [\<lparr>spec_Value = ''text/*'', spec_Q = Fin 1\<rparr>, \<lparr>spec_Value = ''text/html'', spec_Q = Fin 1\<rparr>]"
    by code_simp
  have "candidates (parseAccept ?h ''Accept'') [''text/plain'', ''text/html''] \<noteq> []" unfolding p by code_simp
  with negotiateContentType_best [of ?h "[''text/plain'', ''text/html'']" "''-''"] p show ?thesis
    by (simp add: usable_def Let_def)
qed

theorem parseAccept_reads_back_witness:
  "parseAccept [(''Accept'', [''text/html;q=0.5, */*''])] ''Accept'' = map range_value [(''text/html'', Some (False, ''5'')), (''*/*'', None)]"
proof -
  have "accept_text [(''text/html'', Some (False, ''5'')), (''*/*'', None)] = ''text/html;q=0.5, */*''" by code_simp
  moreover have "\<forall>r \<in> set [(''text/html'', Some (False, ''5'')), (''*/*'', None)]. range_ok r" by code_simp
  ultimately show ?thesis
    by (intro parseAccept_reads_back [of "[(''Accept'', [''text/html;q=0.5, */*''])]" "''Accept''"]) simp_all
qed

end
