(* ===== verification/Middleware.thy ===== *)
theory Middleware
  imports Negotiate Ctxvals
begin

text \<open>
  Package \<^verbatim>\<open>middleware\<close> (\<^verbatim>\<open>src/server/middleware/middleware.go\<close>). A handler is the program of the calls
  it makes on its response writer, which continue with what the calls return; a middleware
  that wraps the response writer is a transformation of programs, and a response writer executes
  a program. Not part of the repository, hence parameters: the token bucket, the compression
  and the CORS packages, random bytes and the clock, and the functions of other packages that some middleware only pass
  their arguments to (content type of requests, timeouts, proxies, method override, canonical host). The hook of a wrapped writer is
  applied anew at every call, as \<^verbatim>\<open>httpsnoop\<close> does. Limits and errors of the response are proved over the writer of the standard library.
\<close>

section \<open>Programs on a response writer\<close>

datatype 'a prog =
    Return 'a
  | Panics string
  | WriteHeader int "'a prog"
  | Write string "nat \<times> goerr option \<Rightarrow> 'a prog"
  | SetHeader string string "'a prog"
  | DelHeader string "'a prog"
  | SetDeadline bool "int option" "'a prog" \<comment> \<open>for reads or for writes; none removes it\<close>

primrec bind_prog :: "'a prog \<Rightarrow> ('a \<Rightarrow> 'b prog) \<Rightarrow> 'b prog" where
  "bind_prog (Return x) f = f x"
| "bind_prog (Panics v) f = Panics v"
| "bind_prog (WriteHeader code p) f = WriteHeader code (bind_prog p f)"
| "bind_prog (Write b k) f = Write b (\<lambda>r. bind_prog (k r) f)"
| "bind_prog (SetHeader key v p) f = SetHeader key v (bind_prog p f)"
| "bind_prog (DelHeader key p) f = DelHeader key (bind_prog p f)"
| "bind_prog (SetDeadline rd dl p) f = SetDeadline rd dl (bind_prog p f)"

record 's ResponseWriter =
  rw_Write :: "string \<Rightarrow> 's \<Rightarrow> (nat \<times> goerr option) \<times> 's"
  rw_WriteHeader :: "int \<Rightarrow> 's \<Rightarrow> 's"
  rw_SetHeader :: "string \<Rightarrow> string \<Rightarrow> 's \<Rightarrow> 's"
  rw_DelHeader :: "string \<Rightarrow> 's \<Rightarrow> 's"
  rw_SetDeadline :: "bool \<Rightarrow> int option \<Rightarrow> 's \<Rightarrow> 's"

primrec exec :: "'s ResponseWriter \<Rightarrow> 'a prog \<Rightarrow> 's \<Rightarrow> 'a outcome \<times> 's" where
  "exec W (Return x) s = (Ret x, s)"
| "exec W (Panics v) s = (Panic v, s)"
| "exec W (WriteHeader code p) s = exec W p (rw_WriteHeader W code s)"
| "exec W (Write b k) s = exec W (k (fst (rw_Write W b s))) (snd (rw_Write W b s))"
| "exec W (SetHeader key v p) s = exec W p (rw_SetHeader W key v s)"
| "exec W (DelHeader key p) s = exec W p (rw_DelHeader W key s)"
| "exec W (SetDeadline rd dl p) s = exec W p (rw_SetDeadline W rd dl s)"

section \<open>The response of the standard library\<close>

text \<open>Header names in the canonical form that \<^verbatim>\<open>http.Header\<close> uses; a name with other bytes is kept.\<close>

definition upper :: "char \<Rightarrow> char" where
  "upper c = (let n = (of_char c :: nat) in if 97 \<le> n \<and> n \<le> 122 then char_of (n - 32) else c)"

fun canonical :: "bool \<Rightarrow> string \<Rightarrow> string" where
  "canonical up [] = []"
| "canonical up (c # s) = (if up then upper c else lower c) # canonical (c = CHR ''-'') s"

definition CanonicalHeaderKey :: "string \<Rightarrow> string" where
  "CanonicalHeaderKey key = (if list_all (\<lambda>c. isToken (octetTypes c)) key then canonical True key else key)"

definition Header_Set :: "string \<Rightarrow> string \<Rightarrow> http_Header \<Rightarrow> http_Header" where
  "Header_Set key v h = gomap_set (CanonicalHeaderKey key) [v] h"

definition Header_Del :: "string \<Rightarrow> http_Header \<Rightarrow> http_Header" where
  "Header_Del key h = filter (\<lambda>(k, _). k \<noteq> CanonicalHeaderKey key) h"

definition Header_Get :: "string \<Rightarrow> http_Header \<Rightarrow> string" where
  "Header_Get key h = (case map_of h (CanonicalHeaderKey key) of Some (v # _) \<Rightarrow> v | _ \<Rightarrow> [])"

record http_resp =
  hr_header :: http_Header
  hr_sent :: "(int \<times> http_Header) option"
  hr_body :: string
  hr_deadlines :: "(bool \<times> int option) list"

text \<open>The first final header counts; informational ones are sent and forgotten.\<close>

definition resp_WriteHeader :: "int \<Rightarrow> http_resp \<Rightarrow> http_resp" where
  "resp_WriteHeader code s =
     (if hr_sent s \<noteq> None \<or> (100 \<le> code \<and> code \<le> 199 \<and> code \<noteq> 101) then s
      else s\<lparr>hr_sent := Some (code, hr_header s)\<rparr>)"

definition body_allowed :: "int \<Rightarrow> bool" where
  "body_allowed code \<longleftrightarrow> \<not> (100 \<le> code \<and> code \<le> 199) \<and> code \<noteq> 204 \<and> code \<noteq> 304"

definition resp_Write :: "string \<Rightarrow> http_resp \<Rightarrow> (nat \<times> goerr option) \<times> http_resp" where
  "resp_Write b s0 =
     (let s = (if hr_sent s0 = None then resp_WriteHeader 200 s0 else s0) in
      if b = [] then ((0, None), s)
      else if \<not> body_allowed (fst (the (hr_sent s)))
      then ((0, Some (OpaqueErr ''http: request method or response status code does not allow body'')), s)
      else ((length b, None), s\<lparr>hr_body := hr_body s @ b\<rparr>))"

definition std_writer :: "http_resp ResponseWriter" where
  "std_writer = \<lparr>rw_Write = resp_Write, rw_WriteHeader = resp_WriteHeader,
     rw_SetHeader = (\<lambda>key v s. s\<lparr>hr_header := Header_Set key v (hr_header s)\<rparr>),
     rw_DelHeader = (\<lambda>key s. s\<lparr>hr_header := Header_Del key (hr_header s)\<rparr>),
     rw_SetDeadline = (\<lambda>rd dl s. s\<lparr>hr_deadlines := hr_deadlines s @ [(rd, dl)]\<rparr>)\<rparr>"

definition resp0 :: http_resp where
  "resp0 = \<lparr>hr_header = [], hr_sent = None, hr_body = [], hr_deadlines = []\<rparr>"

text \<open>\<^verbatim>\<open>http.Error\<close>.\<close>

definition http_Error :: "string \<Rightarrow> int \<Rightarrow> unit prog" where
  "http_Error msg code =
     DelHeader ''Content-Length''
       (SetHeader ''Content-Type'' ''text/plain; charset=utf-8''
         (SetHeader ''X-Content-Type-Options'' ''nosniff''
           (WriteHeader code (Write (msg @ [CHR 0x0A]) (\<lambda>_. Return ())))))"

section \<open>Requests\<close>

text \<open>A request body, possibly behind readers that stop after a number of bytes.\<close>

datatype body = RawBody string | MaxBytesReader int body

fun read_all :: "body \<Rightarrow> string \<times> goerr option" where
  "read_all (RawBody s) = (s, None)"
| "read_all (MaxBytesReader limit b) =
     (case read_all b of (s, err) \<Rightarrow>
        if int (length s) > limit then (take (nat limit) s, Some (OpaqueErr ''http: request body too large''))
        else (s, err))"

record http_req =
  rq_header :: http_Header
  rq_body :: body

type_synonym http_handler = "http_req \<Rightarrow> unit prog"

definition LimitRequestBodyBytes :: "int \<Rightarrow> http_handler \<Rightarrow> http_handler" where
  "LimitRequestBodyBytes limit h r = (if limit > 0 then h (r\<lparr>rq_body := MaxBytesReader limit (rq_body r)\<rparr>) else h r)"

section \<open>The limit on response bodies\<close>

definition ErrTooManyBytes :: goerr where
  "ErrTooManyBytes = ConstError ''too many bytes written to the response''"

text \<open>
  A call of the function that \<open>limitWrite\<close> returns, when its counter is \<open>sz\<close>; slicing a buffer below zero panics. The
  wrapper of the writer asks its hook for the function at every \<open>Write\<close>, so that each call has a new function, whose
  counter is zero; the counter that the call leaves is lost.
\<close>

definition limitWrite :: "int \<Rightarrow> int \<Rightarrow> string \<Rightarrow> (nat \<times> goerr option \<Rightarrow> 'a prog) \<Rightarrow> 'a prog" where
  "limitWrite limit sz b k =
     (let total = sz + int (length b);
          ret = (\<lambda>err r. k (fst r, if snd r \<noteq> None then snd r else err))
      in if total > limit then
           (let diff = total - limit
            in WriteHeader 500
                 (if int (length b) - diff < 0 then Panics ''slice bounds out of range''
                  else Write (take (nat (int (length b) - diff)) b) (ret (Some ErrTooManyBytes))))
         else Write b (ret None))"

primrec limit_prog :: "int \<Rightarrow> 'a prog \<Rightarrow> 'a prog" where
  "limit_prog limit (Return x) = Return x"
| "limit_prog limit (Panics v) = Panics v"
| "limit_prog limit (WriteHeader code p) = WriteHeader code (limit_prog limit p)"
| "limit_prog limit (Write b k) = limitWrite limit 0 b (\<lambda>r. limit_prog limit (k r))"
| "limit_prog limit (SetHeader key v p) = SetHeader key v (limit_prog limit p)"
| "limit_prog limit (DelHeader key p) = DelHeader key (limit_prog limit p)"
| "limit_prog limit (SetDeadline rd dl p) = SetDeadline rd dl (limit_prog limit p)"

definition LimitResponseBodyBytes :: "int \<Rightarrow> http_handler \<Rightarrow> http_handler" where
  "LimitResponseBodyBytes limit h r = (if limit > 0 then limit_prog limit (h r) else h r)"

section \<open>Content types, request identifiers, limits\<close>

text \<open>\<open>msg\<close> is what \<^verbatim>\<open>Sprintf\<close> makes of the header and the offered types.\<close>

definition ResponseContentType :: "(string \<Rightarrow> string list \<Rightarrow> string) \<Rightarrow> string list \<Rightarrow> http_handler \<Rightarrow> http_handler" where
  "ResponseContentType msg offeredTypes h r =
     (let ct = negotiateContentType (rq_header r) offeredTypes ''-'' in
      if ct = ''-'' then http_Error (msg (Header_Get ''Accept'' (rq_header r)) offeredTypes) 406
      else SetHeader ''Content-Type'' ct (h r))"

text \<open>The random bytes, none when reading them failed, and the time in nanoseconds.\<close>

definition request_id :: "(nat \<Rightarrow> string) option \<Rightarrow> int \<Rightarrow> string" where
  "request_id rand ts =
     (case rand of
        Some read \<Rightarrow> hex_EncodeToString (read 4)
      | None \<Rightarrow> (let v = go_Sprint ts in if length v > 8 then drop (length v - 8) v else v))"

definition RequestID :: "(nat \<Rightarrow> string) option \<Rightarrow> int \<Rightarrow> string \<Rightarrow> bool \<Rightarrow> http_handler \<Rightarrow> http_handler" where
  "RequestID rand ts header force h r =
     (let rid = Header_Get header (rq_header r) in
      if rid \<noteq> [] \<and> \<not> force then SetHeader header rid (h r)
      else let val = request_id rand ts
           in SetHeader header val (h (r\<lparr>rq_header := Header_Set header val (rq_header r)\<rparr>)))"

record RequestLimitConfig =
  rl_Rate :: rat
  rl_FillInterval :: int
  rl_Capacity :: int
  rl_Quantum :: int
  rl_MaxWait :: int

datatype bucket = BucketWithQuantum int int int | BucketWithRate rat int

definition limit_bucket :: "RequestLimitConfig \<Rightarrow> bucket" where
  "limit_bucket config =
     (if rl_FillInterval config > 0 then
        (let q = (if rl_Quantum config \<le> 0 then 1 else rl_Quantum config)
         in BucketWithQuantum (rl_FillInterval config) (rl_Capacity config) q)
      else BucketWithRate (rl_Rate config) (rl_Capacity config))"

text \<open>\<open>wait\<close> says whether the bucket gives a token within a time.\<close>

definition RequestLimit :: "(bucket \<Rightarrow> int \<Rightarrow> int \<Rightarrow> bool) \<Rightarrow> RequestLimitConfig \<Rightarrow> http_handler \<Rightarrow> http_handler" where
  "RequestLimit wait config h r =
     (if \<not> wait (limit_bucket config) 1 (rl_MaxWait config) then http_Error ''Service Unavailable'' 503 else h r)"

text \<open>The clock is read for each deadline; a timeout of zero removes the deadline, a negative one keeps it.\<close>

definition RequestTimeouts :: "int \<Rightarrow> int \<Rightarrow> int \<Rightarrow> int \<Rightarrow> http_handler \<Rightarrow> http_handler" where
  "RequestTimeouts time_r time_w readTimeout writeTimeout h r =
     (let set_dl = (\<lambda>rd time timeout p. if timeout \<ge> 0
            then SetDeadline rd (if timeout > 0 then Some (time + timeout) else None) p else p)
      in set_dl True time_r readTimeout (set_dl False time_w writeTimeout (h r)))"

section \<open>Panics and errors\<close>

text \<open>The deferred recovery around a handler; the recovery function gets the value of the panic.\<close>

primrec recover_prog :: "(string \<Rightarrow> 'a prog) \<Rightarrow> 'a prog \<Rightarrow> 'a prog" where
  "recover_prog f (Return x) = Return x"
| "recover_prog f (Panics v) = f v"
| "recover_prog f (WriteHeader code p) = WriteHeader code (recover_prog f p)"
| "recover_prog f (Write b k) = Write b (\<lambda>r. recover_prog f (k r))"
| "recover_prog f (SetHeader key v p) = SetHeader key v (recover_prog f p)"
| "recover_prog f (DelHeader key p) = DelHeader key (recover_prog f p)"
| "recover_prog f (SetDeadline rd dl p) = SetDeadline rd dl (recover_prog f p)"

definition PanicRecovery :: "(http_req \<Rightarrow> string \<Rightarrow> unit prog) \<Rightarrow> http_handler \<Rightarrow> http_handler" where
  "PanicRecovery recoverFn h r = recover_prog (recoverFn r) (h r)"

text \<open>
  The hooks of \<open>CustomErrors\<close>, with their captured variables \<open>noop\<close> and \<open>called\<close>. The error handler
  gets the wrapped writer too, but \<open>called\<close> is set before it runs and \<open>noop\<close> after it, so its calls
  go through the hooks in the state in which they pass every call on.
\<close>

primrec custom_prog :: "(int \<Rightarrow> bool prog) \<Rightarrow> bool \<Rightarrow> bool \<Rightarrow> 'a prog \<Rightarrow> 'a prog" where
  "custom_prog errHandler noop called (Return x) = Return x"
| "custom_prog errHandler noop called (Panics v) = Panics v"
| "custom_prog errHandler noop called (WriteHeader code p) =
     (if noop then custom_prog errHandler noop called p
      else if code \<ge> 400 \<and> \<not> called then
        bind_prog (errHandler code)
          (\<lambda>handled. if handled then custom_prog errHandler True True p
                     else WriteHeader code (custom_prog errHandler False True p))
      else WriteHeader code (custom_prog errHandler noop called p))"
| "custom_prog errHandler noop called (Write b k) =
     (if noop then custom_prog errHandler noop called (k (0, None))
      else Write b (\<lambda>r. custom_prog errHandler noop called (k r)))"
| "custom_prog errHandler noop called (SetHeader key v p) = SetHeader key v (custom_prog errHandler noop called p)"
| "custom_prog errHandler noop called (DelHeader key p) = DelHeader key (custom_prog errHandler noop called p)"
| "custom_prog errHandler noop called (SetDeadline rd dl p) = SetDeadline rd dl (custom_prog errHandler noop called p)"

definition CustomErrors :: "(int \<Rightarrow> http_req \<Rightarrow> bool prog) \<Rightarrow> http_handler \<Rightarrow> http_handler" where
  "CustomErrors errHandler h r = custom_prog (\<lambda>code. errHandler code r) False False (h r)"

section \<open>Logging\<close>

text \<open>The fields of a request that are logged, and what was measured.\<close>

record 'v log_fields =
  lf_start :: 'v lf_end :: 'v lf_duration :: 'v lf_proto :: 'v lf_host :: 'v lf_method :: 'v lf_uri :: 'v
  lf_path :: 'v lf_origin :: 'v lf_received :: 'v lf_user_agent :: 'v lf_remote_addr :: 'v lf_sent :: 'v lf_status :: 'v

definition log_base :: "'v log_fields \<Rightarrow> (string, 'v) gomap" where
  "log_base f = [(''start'', lf_start f), (''end'', lf_end f), (''duration'', lf_duration f), (''proto'', lf_proto f),
     (''host'', lf_host f), (''method'', lf_method f), (''uri'', lf_uri f), (''path'', lf_path f), (''origin'', lf_origin f),
     (''body_bytes_received'', lf_received f), (''user_agent'', lf_user_agent f), (''remote_addr'', lf_remote_addr f),
     (''body_bytes_sent'', lf_sent f), (''status'', lf_status f)]"

definition add_missing :: "(string, 'v) gomap \<Rightarrow> (string, 'v) gomap \<Rightarrow> (string, 'v) gomap" where
  "add_missing mm m = fold (\<lambda>(k, v) m. case map_of m k of Some _ \<Rightarrow> m | None \<Rightarrow> gomap_set k v m) mm m"

text \<open>What the log function gets, after the wrapped handler has run with the context that \<open>WithKeyValue\<close> made.\<close>

definition Logging_pairs :: "string \<Rightarrow> 'v \<Rightarrow> 'v log_fields \<Rightarrow> 'a ctx \<Rightarrow> 'v kv_store \<Rightarrow> (string, 'v) gomap \<times> 'v kv_store" where
  "Logging_pairs reqIDHeader rid f c st =
     (let m = (if reqIDHeader \<noteq> [] then gomap_set ''request_id'' rid (log_base f) else log_base f)
      in case ConsumeKeyValuePairs c st of (mm, st') \<Rightarrow> (add_missing mm m, st'))"

definition Logging :: "string \<Rightarrow> ('a ctx \<Rightarrow> 'v kv_store \<Rightarrow> ('v log_fields \<times> 'v) \<times> 'v kv_store) \<Rightarrow> 'a ctx \<Rightarrow> 'v kv_store
    \<Rightarrow> (string, 'v) gomap \<times> 'v kv_store" where
  "Logging reqIDHeader serve c st =
     (case ctxvals_WithKeyValue c st of (c1, st1) \<Rightarrow>
        (case serve c1 st1 of ((f, rid), st2) \<Rightarrow> Logging_pairs reqIDHeader rid f c1 st2))"

text \<open>The key-value arguments of the default log function.\<close>

definition log_args :: "(string, 'v) gomap \<Rightarrow> (string \<times> 'v) list" where
  "log_args m = map (\<lambda>k. (k, the (map_of m k))) (sort (map fst m))"

section \<open>CORS and compression\<close>

record CORSConfig =
  AllowCredentials :: bool
  AllowedOrigins :: "string list"
  AllowedMethods :: "string list"
  AllowedRequestHeaders :: "string list"
  ExposedResponseHeaders :: "string list"
  MaxAge :: int

datatype fcors_option = FromAnyOrigin | FromOrigins "string list" | WithAnyMethod | WithMethods "string list"
  | WithAnyRequestHeaders | WithRequestHeaders "string list" | ExposeAllResponseHeaders
  | ExposeResponseHeaders "string list" | MaxAgeInSeconds int

text \<open>The options for anonymous access, those for access with credentials, and the pending errors.\<close>

type_synonym cors_options = "fcors_option list \<times> fcors_option list \<times> string list"

definition add_option :: "fcors_option \<Rightarrow> cors_options \<Rightarrow> cors_options" where
  "add_option opt = (\<lambda>(opts, creds, errs). (opts @ [opt], creds @ [opt], errs))"

definition add_anonymous :: "fcors_option \<Rightarrow> string \<Rightarrow> cors_options \<Rightarrow> cors_options" where
  "add_anonymous opt err = (\<lambda>(opts, creds, errs). (opts @ [opt], creds, errs @ [err]))"

definition cors_options :: "CORSConfig \<Rightarrow> cors_options" where
  "cors_options config =
     (let o1 = (if AllowedOrigins config = [''*''] then add_anonymous FromAnyOrigin ''cannot allow any origin with credentials'' ([], [], [])
                else if AllowedOrigins config \<noteq> [] then add_option (FromOrigins (AllowedOrigins config)) ([], [], [])
                else ([], [], []));
          o2 = (if AllowedMethods config = [''*''] then add_option WithAnyMethod o1
                else if AllowedMethods config \<noteq> [] then add_option (WithMethods (AllowedMethods config)) o1 else o1);
          o3 = (if AllowedRequestHeaders config = [''*''] then add_option WithAnyRequestHeaders o2
                else if AllowedRequestHeaders config \<noteq> [] then add_option (WithRequestHeaders (AllowedRequestHeaders config)) o2
                else o2);
          o4 = (if ExposedResponseHeaders config = [''*'']
                then add_anonymous ExposeAllResponseHeaders ''cannot expose all response headers with credentials'' o3
                else if ExposedResponseHeaders config \<noteq> []
                then add_option (ExposeResponseHeaders (ExposedResponseHeaders config)) o3 else o3)
      in if MaxAge config < 0 then add_option (MaxAgeInSeconds 0) o4
         else if MaxAge config > 0 then add_option (MaxAgeInSeconds (MaxAge config div 1000000000)) o4
         else o4)"

text \<open>
  The constructors of the CORS package, with credentials or without, may refuse the options. A
  panic carries the text of its error.
\<close>

definition CORS :: "(bool \<Rightarrow> fcors_option list \<Rightarrow> 'mw res) \<Rightarrow> CORSConfig \<Rightarrow> 'mw outcome" where
  "CORS fcors config =
     (case cors_options config of (opts, creds, errs) \<Rightarrow>
        if AllowCredentials config then
          (if errs \<noteq> [] then Panic (err_lines (map ErrorString errs))
           else if creds = [] then Panic ''missing required allowed origin option''
           else (case fcors True creds of Inl err \<Rightarrow> Panic (err_text err) | Inr mw \<Rightarrow> Ret mw))
        else
          (if opts = [] then Panic ''missing required allowed origin option''
           else (case fcors False opts of Inl err \<Rightarrow> Panic (err_text err) | Inr mw \<Rightarrow> Ret mw)))"

datatype compress_option = ContentTypes "string list" | MinSize int

definition Compress :: "(compress_option list \<Rightarrow> 'mw res) \<Rightarrow> string list \<Rightarrow> int \<Rightarrow> 'mw outcome" where
  "Compress adapter contentTypes minSize =
     (let opts = (if contentTypes \<noteq> [] then [ContentTypes contentTypes] else []) @ (if minSize > 0 then [MinSize minSize] else [])
      in case adapter opts of Inl err \<Rightarrow> Panic (err_text err) | Inr mw \<Rightarrow> Ret mw)"

section \<open>Middleware of other packages\<close>

text \<open>These pass their arguments to a function of another package, which is a parameter.\<close>

definition RequestContentType :: "(http_handler \<Rightarrow> string list \<Rightarrow> http_handler) \<Rightarrow> string list \<Rightarrow> http_handler \<Rightarrow> http_handler" where
  "RequestContentType ContentTypeHandler contentTypes h = ContentTypeHandler h contentTypes"

definition TimeoutHandler :: "(http_handler \<Rightarrow> int \<Rightarrow> string \<Rightarrow> http_handler) \<Rightarrow> int \<Rightarrow> http_handler \<Rightarrow> http_handler" where
  "TimeoutHandler http_TimeoutHandler timeout h = http_TimeoutHandler h timeout []"

definition TrustProxyHeaders :: "(http_handler \<Rightarrow> http_handler) \<Rightarrow> http_handler \<Rightarrow> http_handler" where
  "TrustProxyHeaders ProxyHeaders = ProxyHeaders"

definition AllowMethodOverride :: "(http_handler \<Rightarrow> http_handler) \<Rightarrow> http_handler \<Rightarrow> http_handler" where
  "AllowMethodOverride HTTPMethodOverrideHandler = HTTPMethodOverrideHandler"

definition CanonicalHost :: "(string \<Rightarrow> int \<Rightarrow> http_handler \<Rightarrow> http_handler) \<Rightarrow> string \<Rightarrow> int \<Rightarrow> http_handler \<Rightarrow> http_handler" where
  "CanonicalHost handlers_CanonicalHost domain code = handlers_CanonicalHost domain code"

text \<open>\<^verbatim>\<open>http.StripPrefix\<close>, on requests with the path of their URL and its encoded form, empty if there is none.\<close>

record path_req = http_req +
  rq_Path :: string
  rq_RawPath :: string

definition http_StripPrefix :: "string \<Rightarrow> (path_req \<Rightarrow> unit prog) \<Rightarrow> path_req \<Rightarrow> unit prog" where
  "http_StripPrefix prefix h r =
     (if prefix = [] then h r
      else
        let p = go_TrimPrefix (rq_Path r) prefix; rp = go_TrimPrefix (rq_RawPath r) prefix
        in if length p < length (rq_Path r) \<and> (rq_RawPath r = [] \<or> length rp < length (rq_RawPath r))
           then h (r\<lparr>rq_Path := p, rq_RawPath := rp\<rparr>)
           else http_Error ''404 page not found'' 404)"

definition StripPrefix :: "string \<Rightarrow> (path_req \<Rightarrow> unit prog) \<Rightarrow> path_req \<Rightarrow> unit prog" where
  "StripPrefix prefix h r = http_StripPrefix prefix h r"

lemma StripPrefix_exact:
  assumes "prefix \<noteq> []" "rq_RawPath r = []"
  shows "rq_Path r = prefix @ rest \<Longrightarrow> StripPrefix prefix h r = h (r\<lparr>rq_Path := rest\<rparr>)"
    "\<nexists>rest. rq_Path r = prefix @ rest \<Longrightarrow> StripPrefix prefix h r = http_Error ''404 page not found'' 404"
  using assms by (cases r; auto simp: StripPrefix_def http_StripPrefix_def go_TrimPrefix_def go_HasPrefix_iff Let_def)+

section \<open>Executing programs\<close>

lemma exec_bind:
  "exec W (bind_prog p f) s = (case exec W p s of (Ret x, s') \<Rightarrow> exec W (f x) s' | (Panic v, s') \<Rightarrow> (Panic v, s'))"
  by (induction p arbitrary: s) auto

lemma bind_assoc: "bind_prog (bind_prog p f) g = bind_prog p (\<lambda>x. bind_prog (f x) g)"
  by (induction p) auto

lemma exec_recover:
  "exec W (recover_prog f p) s = (case exec W p s of (Ret x, s') \<Rightarrow> (Ret x, s') | (Panic v, s') \<Rightarrow> exec W (f v) s')"
  by (induction p arbitrary: s) auto

text \<open>
  With \<open>PanicRecovery\<close> a handler that returns is unchanged on every response writer, and one that
  panics is followed by the recovery function on the response as the panic left it, with the value
  of the panic: the only panics that leave the middleware are those of the recovery function.
\<close>

theorem PanicRecovery_exact:
  "exec W (PanicRecovery recoverFn h r) s =
     (case exec W (h r) s of (Ret x, s') \<Rightarrow> (Ret x, s') | (Panic v, s') \<Rightarrow> exec W (recoverFn r v) s')"
  by (simp add: PanicRecovery_def exec_recover)

section \<open>Properties of the limit on response bodies\<close>

text \<open>Programs without a panic of their own, and the buffers that a run passes to the writer.\<close>

primrec no_panic :: "'a prog \<Rightarrow> bool" where
  "no_panic (Return x) = True"
| "no_panic (Panics v) = False"
| "no_panic (WriteHeader code p) = no_panic p"
| "no_panic (Write b k) = (\<forall>r. no_panic (k r))"
| "no_panic (SetHeader key v p) = no_panic p"
| "no_panic (DelHeader key p) = no_panic p"
| "no_panic (SetDeadline rd dl p) = no_panic p"

primrec buffers :: "'s ResponseWriter \<Rightarrow> 'a prog \<Rightarrow> 's \<Rightarrow> string list" where
  "buffers W (Return x) s = []"
| "buffers W (Panics v) s = []"
| "buffers W (WriteHeader code p) s = buffers W p (rw_WriteHeader W code s)"
| "buffers W (Write b k) s = b # buffers W (k (fst (rw_Write W b s))) (snd (rw_Write W b s))"
| "buffers W (SetHeader key v p) s = buffers W p (rw_SetHeader W key v s)"
| "buffers W (DelHeader key p) s = buffers W p (rw_DelHeader W key s)"
| "buffers W (SetDeadline rd dl p) s = buffers W p (rw_SetDeadline W rd dl s)"

text \<open>The contract of response writers: at most the given bytes are written, and no other call writes any.\<close>

locale response_writer =
  fixes W :: "'s ResponseWriter" and sent :: "'s \<Rightarrow> nat"
  assumes write_le: "fst (fst (rw_Write W b s)) \<le> length b"
    and write_sent: "sent (snd (rw_Write W b s)) = sent s + fst (fst (rw_Write W b s))"
    and header_sent [simp]: "sent (rw_WriteHeader W code s) = sent s"
    and set_sent [simp]: "sent (rw_SetHeader W key v s) = sent s"
    and del_sent [simp]: "sent (rw_DelHeader W key s) = sent s"
    and deadline_sent [simp]: "sent (rw_SetDeadline W rd dl s) = sent s"
begin

lemma sent_le_buffers: "sent (snd (exec W p s)) \<le> sent s + sum_list (map length (buffers W p s))"
proof (induction p arbitrary: s)
  case (Write b k)
  have "sent (snd (exec W (k (fst (rw_Write W b s))) (snd (rw_Write W b s))))
      \<le> sent (snd (rw_Write W b s)) + sum_list (map length (buffers W (k (fst (rw_Write W b s))) (snd (rw_Write W b s))))"
    by (rule Write) auto
  then show ?case using write_le [of b s] by (simp add: write_sent)
qed (simp_all, (metis add.commute header_sent set_sent del_sent deadline_sent)+)

end

text \<open>The limit on each write, on any writer.\<close>

lemma limitWrite_fits:
  "int (length b) \<le> limit \<Longrightarrow> limitWrite limit 0 b k = Write b k"
  by (auto simp: limitWrite_def Let_def fun_eq_iff)

lemma limitWrite_cut:
  "0 < limit \<Longrightarrow> limit < int (length b) \<Longrightarrow> limitWrite limit 0 b k =
     WriteHeader 500 (Write (take (nat limit) b) (\<lambda>r. k (fst r, if snd r \<noteq> None then snd r else Some ErrTooManyBytes)))"
  by (simp add: limitWrite_def Let_def)

lemma limit_buffers: "0 < limit \<Longrightarrow> list_all (\<lambda>b. int (length b) \<le> limit) (buffers W (limit_prog limit p) s)"
proof (induction p arbitrary: s)
  case (Write b k)
  then show ?case by (cases "int (length b) \<le> limit") (simp_all add: limitWrite_fits limitWrite_cut)
qed simp_all

lemma limit_no_panic: "0 < limit \<Longrightarrow> no_panic p \<Longrightarrow> \<exists>x. fst (exec W (limit_prog limit p) s) = Ret x"
proof (induction p arbitrary: s)
  case (Write b k)
  have "no_panic (k r)" for r using Write.prems(2) by (cases r) simp
  then have "\<exists>x. fst (exec W (limit_prog limit (k r)) s') = Ret x" for r s' by (rule Write.IH [OF rangeI Write.prems(1)])
  then show ?case using Write.prems(1) by (cases "int (length b) \<le> limit") (simp_all add: limitWrite_fits limitWrite_cut)
qed simp_all

lemma limit_transparent:
  "list_all (\<lambda>b. int (length b) \<le> limit) (buffers W p s) \<Longrightarrow> exec W (limit_prog limit p) s = exec W p s"
  by (induction p arbitrary: s) (simp_all add: limitWrite_fits)

interpretation std: response_writer std_writer "\<lambda>s. length (hr_body s)"
  by unfold_locales (auto simp: std_writer_def resp_Write_def resp_WriteHeader_def Let_def)

lemma resp_Write_body:
  assumes "b \<noteq> []" and "case hr_sent s of None \<Rightarrow> True | Some (code, _) \<Rightarrow> body_allowed code"
  shows "resp_Write b (resp_WriteHeader 500 s) = ((length b, None),
    s\<lparr>hr_sent := Some (case hr_sent s of None \<Rightarrow> (500, hr_header s) | Some st \<Rightarrow> st), hr_body := hr_body s @ b\<rparr>)"
proof (cases "hr_sent s")
  case None
  then show ?thesis using assms(1) by (simp add: resp_Write_def resp_WriteHeader_def body_allowed_def Let_def)
next
  case (Some st)
  then show ?thesis using assms by (cases s) (auto simp: resp_Write_def resp_WriteHeader_def Let_def split: prod.splits)
qed

lemma exec_limit_cut:
  assumes "0 < limit" and "limit < int (length b)"
    and "case hr_sent s of None \<Rightarrow> True | Some (code, _) \<Rightarrow> body_allowed code"
  shows "exec std_writer (limit_prog limit (Write b k)) s = exec std_writer (limit_prog limit (k (nat limit, Some ErrTooManyBytes)))
    (s\<lparr>hr_sent := Some (case hr_sent s of None \<Rightarrow> (500, hr_header s) | Some st \<Rightarrow> st), hr_body := hr_body s @ take (nat limit) b\<rparr>)"
proof -
  have "take (nat limit) b \<noteq> []" using assms(1,2) by auto
  note wr = resp_Write_body [OF this assms(3)]
  have len: "min (length b) (nat limit) = nat limit" using assms(1,2) by simp
  have sel: "rw_Write std_writer = resp_Write" "rw_WriteHeader std_writer = resp_WriteHeader" by (simp_all add: std_writer_def)
  show ?thesis by (simp add: limitWrite_cut [OF assms(1,2)] sel wr len)
qed

lemma sum_list_bound: "list_all (\<lambda>b. int (length b) \<le> limit) bs \<Longrightarrow> int (sum_list (map length bs)) \<le> limit * int (length bs)"
  by (induction bs) (auto simp: algebra_simps)

text \<open>
  C23. \<open>LimitResponseBodyBytes\<close> limits each write of the handler, not the response as it promises. No buffer of more than the
  limit reaches the writer, so that the body grows by at most the limit for each write, and no slice
  goes out of range, so a handler that does not panic returns. But a handler none of whose writes is larger than the limit has
  exactly the response it has alone, however much it writes in all. A write that is larger than the limit, to a response that may have
  a body, sets the status to 500 when no status is sent yet, appends the first bytes up to the limit and returns their number with
  the error, and the rest of the handler runs with the same limit again.
\<close>

theorem LimitResponseBodyBytes_each_write:
  assumes "0 < limit" and "exec std_writer (LimitResponseBodyBytes limit h r) s = (res, s')"
  shows "list_all (\<lambda>b. int (length b) \<le> limit) (buffers std_writer (LimitResponseBodyBytes limit h r) s)
    \<and> int (length (hr_body s')) \<le> int (length (hr_body s)) + limit * int (length (buffers std_writer (LimitResponseBodyBytes limit h r) s))
    \<and> (no_panic (h r) \<longrightarrow> (\<exists>x. res = Ret x))
    \<and> (list_all (\<lambda>b. int (length b) \<le> limit) (buffers std_writer (h r) s) \<longrightarrow> (res, s') = exec std_writer (h r) s)
    \<and> (\<forall>b k. h r = Write b k \<longrightarrow> limit < int (length b) \<longrightarrow> (case hr_sent s of None \<Rightarrow> True | Some (code, _) \<Rightarrow> body_allowed code) \<longrightarrow>
         (res, s') = exec std_writer (LimitResponseBodyBytes limit (\<lambda>_. k (nat limit, Some ErrTooManyBytes)) r)
           (s\<lparr>hr_sent := Some (case hr_sent s of None \<Rightarrow> (500, hr_header s) | Some st \<Rightarrow> st),
              hr_body := hr_body s @ take (nat limit) b\<rparr>))"
proof (intro conjI)
  have lim: "LimitResponseBodyBytes limit h' r = limit_prog limit (h' r)" for h'
    using assms(1) by (simp add: LimitResponseBodyBytes_def)
  note run = assms(2) [unfolded lim]
  show bufs: "list_all (\<lambda>b. int (length b) \<le> limit) (buffers std_writer (LimitResponseBodyBytes limit h r) s)"
    unfolding lim by (rule limit_buffers [OF assms(1)])
  show "int (length (hr_body s')) \<le> int (length (hr_body s)) + limit * int (length (buffers std_writer (LimitResponseBodyBytes limit h r) s))"
    using std.sent_le_buffers [of "limit_prog limit (h r)" s] sum_list_bound [OF bufs] run by (simp add: lim)
  show "no_panic (h r) \<longrightarrow> (\<exists>x. res = Ret x)" using limit_no_panic [OF assms(1), of "h r" std_writer s] run by simp
  show "list_all (\<lambda>b. int (length b) \<le> limit) (buffers std_writer (h r) s) \<longrightarrow> (res, s') = exec std_writer (h r) s"
    using limit_transparent [of limit std_writer "h r" s] run by simp
  show "\<forall>b k. h r = Write b k \<longrightarrow> limit < int (length b) \<longrightarrow> (case hr_sent s of None \<Rightarrow> True | Some (code, _) \<Rightarrow> body_allowed code) \<longrightarrow>
         (res, s') = exec std_writer (LimitResponseBodyBytes limit (\<lambda>_. k (nat limit, Some ErrTooManyBytes)) r)
           (s\<lparr>hr_sent := Some (case hr_sent s of None \<Rightarrow> (500, hr_header s) | Some st \<Rightarrow> st),
              hr_body := hr_body s @ take (nat limit) b\<rparr>)"
    unfolding lim using run assms(1) exec_limit_cut by metis
qed

text \<open>A handler that writes twice and reports what the second write returned.\<close>

definition two_writes :: "string \<Rightarrow> string \<Rightarrow> http_handler" where
  "two_writes a b r = Write a (\<lambda>_. Write b (\<lambda>(n, err).
     if err = None then Return () else Write ''!'' (\<lambda>_. Return ())))"

definition req0 :: http_req where "req0 = \<lparr>rq_header = [], rq_body = RawBody []\<rparr>"

text \<open>Two writes of three bytes pass a limit of four, and the handler gets no error.\<close>

theorem LimitResponseBodyBytes_each_write_witness:
  "exec std_writer (LimitResponseBodyBytes 4 (two_writes ''abc'' ''def'') req0) resp0
     = exec std_writer (two_writes ''abc'' ''def'' req0) resp0
   \<and> hr_body (snd (exec std_writer (two_writes ''abc'' ''def'' req0) resp0)) = ''abcdef''"
proof -
  have "(0 :: int) < 4" by simp
  moreover obtain res s' where run:
    "exec std_writer (LimitResponseBodyBytes 4 (two_writes ''abc'' ''def'') req0) resp0 = (res, s')" by fastforce
  moreover have "buffers std_writer (two_writes ''abc'' ''def'' req0) resp0 = [''abc'', ''def'']"
    "hr_body (snd (exec std_writer (two_writes ''abc'' ''def'' req0) resp0)) = ''abcdef''" by code_simp+
  ultimately show ?thesis using LimitResponseBodyBytes_each_write [OF _ run] by simp
qed

section \<open>Properties of custom errors\<close>

text \<open>Programs that report no error status, and programs without their headers and bodies.\<close>

primrec no_error :: "'a prog \<Rightarrow> bool" where
  "no_error (Return x) = True"
| "no_error (Panics v) = True"
| "no_error (WriteHeader code p) \<longleftrightarrow> code < 400 \<and> no_error p"
| "no_error (Write b k) = (\<forall>r. no_error (k r))"
| "no_error (SetHeader key v p) = no_error p"
| "no_error (DelHeader key p) = no_error p"
| "no_error (SetDeadline rd dl p) = no_error p"

primrec mute :: "'a prog \<Rightarrow> 'a prog" where
  "mute (Return x) = Return x"
| "mute (Panics v) = Panics v"
| "mute (WriteHeader code p) = mute p"
| "mute (Write b k) = mute (k (0, None))"
| "mute (SetHeader key v p) = SetHeader key v (mute p)"
| "mute (DelHeader key p) = DelHeader key (mute p)"
| "mute (SetDeadline rd dl p) = SetDeadline rd dl (mute p)"

lemma custom_called [simp]: "custom_prog errHandler False True p = p"
  by (induction p) auto

lemma custom_noop [simp]: "custom_prog errHandler True called p = mute p"
  by (induction p) auto

lemma custom_no_error: "no_error p \<Longrightarrow> custom_prog errHandler False False (bind_prog p f) = bind_prog p (\<lambda>x. custom_prog errHandler False False (f x))"
  by (induction p) auto

lemma bind_Return [simp]: "bind_prog p Return = p"
  by (induction p) auto

text \<open>
  C24. \<open>CustomErrors\<close> leaves a handler without error status as it is. One whose first error
  status is \<open>code\<close>, after any program \<open>p\<close> without one, gives the error handler that code at that
  point, once: if it handles the error, nothing the handler sends from then on reaches
  the response; if not, the handler goes on unchanged, and later error codes pass.
\<close>

theorem CustomErrors_exact:
  assumes "no_error (p :: 'a prog)" and "400 \<le> code"
  shows "CustomErrors errHandler (\<lambda>r. bind_prog p (\<lambda>x. WriteHeader code (q x))) r
      = bind_prog p (\<lambda>x. bind_prog (errHandler code r) (\<lambda>handled. if handled then mute (q x) else WriteHeader code (q x)))
    \<and> (\<forall>p'. no_error p' \<longrightarrow> CustomErrors errHandler (\<lambda>r. p') r = p')"
  using assms custom_no_error [of _ "\<lambda>code. errHandler code r" Return]
  by (auto simp: CustomErrors_def custom_no_error if_distrib [of "custom_prog _ _ _"] cong: if_cong)

text \<open>The custom error handler answers 404 itself and leaves the others.\<close>

definition sample_errors :: "int \<Rightarrow> http_req \<Rightarrow> bool prog" where
  "sample_errors code r = (if code = 404 then WriteHeader 404 (Write ''lost'' (\<lambda>_. Return True)) else Return False)"

theorem CustomErrors_exact_witness:
  "hr_body (snd (exec std_writer (CustomErrors sample_errors (\<lambda>r. http_Error ''not found'' 404) req0) resp0)) = ''lost''
   \<and> hr_body (snd (exec std_writer (CustomErrors sample_errors (\<lambda>r. http_Error ''failed'' 500) req0) resp0)) = ''failed'' @ [CHR 0x0A]
   \<and> CustomErrors sample_errors (\<lambda>r. bind_prog (SetHeader ''A'' ''b'' (Return 0)) (\<lambda>x. WriteHeader 404 (Return ()))) req0
      = bind_prog (SetHeader ''A'' ''b'' (Return (0 :: nat))) (\<lambda>x. bind_prog (sample_errors 404 req0)
          (\<lambda>handled. if handled then mute (Return ()) else WriteHeader 404 (Return ())))"
proof (intro conjI)
  have "no_error (SetHeader ''A'' ''b'' (Return (0 :: nat)))" by simp
  from CustomErrors_exact [OF this, of 404 sample_errors "\<lambda>_. Return ()" req0]
  show "CustomErrors sample_errors (\<lambda>r. bind_prog (SetHeader ''A'' ''b'' (Return 0)) (\<lambda>x. WriteHeader 404 (Return ()))) req0
      = bind_prog (SetHeader ''A'' ''b'' (Return (0 :: nat))) (\<lambda>x. bind_prog (sample_errors 404 req0)
          (\<lambda>handled. if handled then mute (Return ()) else WriteHeader 404 (Return ())))"
    by simp
qed (code_simp+)

section \<open>Properties of request identifiers\<close>

lemma go_Sprint_not_Nil: "go_Sprint n \<noteq> []"
  by (simp add: go_Sprint_def)

lemma Header_Get_Set [simp]: "Header_Get key (Header_Set key v h) = v"
  by (simp add: Header_Get_def Header_Set_def)

lemma request_id_shape:
  assumes "\<forall>read. rand = Some read \<longrightarrow> length (read 4) = 4"
  shows "request_id rand ts \<noteq> [] \<and> length (request_id rand ts) \<le> 8"
proof (cases rand)
  case None
  then show ?thesis using go_Sprint_not_Nil [of ts] by (auto simp: request_id_def Let_def)
next
  case (Some read)
  then have "length (request_id rand ts) = 8" using assms by (simp add: request_id_def)
  then show ?thesis by auto
qed

text \<open>
  \<open>RequestID\<close> calls its handler with a request whose header has a nonempty identifier
  and puts that same identifier on the response first: the one of the request when there is
  one and it is not forced, otherwise a new one of at most eight characters, from random bytes or,
  when they cannot be read, from the clock. Nothing else of the request changes.
\<close>

theorem RequestID_exact:
  assumes "\<forall>read. rand = Some read \<longrightarrow> length (read 4) = 4"
  shows "\<exists>v r'. RequestID rand ts header force h r = SetHeader header v (h r')
    \<and> v \<noteq> [] \<and> Header_Get header (rq_header r') = v \<and> rq_body r' = rq_body r
    \<and> (Header_Get header (rq_header r) \<noteq> [] \<and> \<not> force \<longrightarrow> v = Header_Get header (rq_header r) \<and> r' = r)
    \<and> (Header_Get header (rq_header r) = [] \<or> force \<longrightarrow> v = request_id rand ts \<and> length v \<le> 8)"
proof (cases "Header_Get header (rq_header r) \<noteq> [] \<and> \<not> force")
  case True
  then show ?thesis
    by (intro exI [of _ "Header_Get header (rq_header r)"] exI [of _ r]) (simp add: RequestID_def)
next
  case False
  then show ?thesis using request_id_shape [of rand ts, OF assms]
    by (intro exI [of _ "request_id rand ts"]
        exI [of _ "r\<lparr>rq_header := Header_Set header (request_id rand ts) (rq_header r)\<rparr>"])
      (auto simp: RequestID_def Let_def)
qed

theorem RequestID_exact_witness:
  "\<exists>v r'. RequestID (Some (\<lambda>n. replicate n (CHR 0xA5))) 0 ''X-Request-ID'' False (two_writes ''a'' ''b'') req0
      = SetHeader ''X-Request-ID'' v (two_writes ''a'' ''b'' r')
    \<and> v = ''a5a5a5a5'' \<and> Header_Get ''x-request-id'' (rq_header r') = v"
proof -
  have v: "request_id (Some (\<lambda>n. replicate n (CHR 0xA5))) 0 = ''a5a5a5a5''" by code_simp
  have g: "Header_Get ''X-Request-ID'' (rq_header req0) = []" by code_simp
  have c: "CanonicalHeaderKey ''x-request-id'' = CanonicalHeaderKey ''X-Request-ID''" by code_simp
  show ?thesis
    using RequestID_exact [of "Some (\<lambda>n. replicate n (CHR 0xA5))" 0 "''X-Request-ID''" False "two_writes ''a'' ''b''" req0]
    unfolding g v by (auto simp: Header_Get_def c)
qed

section \<open>Properties of the limit on request bodies\<close>

text \<open>
  \<open>LimitRequestBodyBytes\<close> shows the handler a request whose body reads as the first
  \<open>limit\<close> bytes of the original one, whatever readers that one is made of: reading succeeds exactly
  when everything fits and reading the original does, and the headers are untouched.
\<close>

theorem LimitRequestBodyBytes_bound:
  assumes "0 < limit"
  shows "\<exists>r'. LimitRequestBodyBytes limit h r = h r' \<and> rq_header r' = rq_header r
    \<and> fst (read_all (rq_body r')) = take (nat limit) (fst (read_all (rq_body r)))
    \<and> (snd (read_all (rq_body r')) = None
         \<longleftrightarrow> int (length (fst (read_all (rq_body r)))) \<le> limit \<and> snd (read_all (rq_body r)) = None)"
  using assms
  by (intro exI [of _ "r\<lparr>rq_body := MaxBytesReader limit (rq_body r)\<rparr>"])
    (auto simp: LimitRequestBodyBytes_def split: prod.splits)

theorem LimitRequestBodyBytes_bound_witness:
  "\<exists>r'. LimitRequestBodyBytes 3 (two_writes ''a'' ''b'') \<lparr>rq_header = [], rq_body = RawBody ''body''\<rparr> = two_writes ''a'' ''b'' r'
    \<and> fst (read_all (rq_body r')) = ''bod''"
  using LimitRequestBodyBytes_bound [of 3 "two_writes ''a'' ''b''" "\<lparr>rq_header = [], rq_body = RawBody ''body''\<rparr>"]
  by (auto simp: numeral_eq_Suc)
section \<open>Properties of logging\<close>

lemma map_of_add_missing:
  "map_of (add_missing mm m) key = (case map_of m key of Some v \<Rightarrow> Some v | None \<Rightarrow> map_of mm key)"
  by (induction mm arbitrary: m) (auto simp: add_missing_def split: option.splits)

lemma map_of_graph: "map_of (map (\<lambda>k. (k, f k)) ks) x = (if x \<in> set ks then Some (f x) else None)"
  by (induction ks) auto

lemma log_args_sorted: "sorted (map fst (log_args m)) \<and> map_of (log_args m) = map_of m"
proof -
  have "map_of (log_args m) x = map_of m x" for x
  proof (cases "map_of m x")
    case None
    then have "x \<notin> fst ` set m" by (simp add: map_of_eq_None_iff)
    with None show ?thesis by (simp add: log_args_def map_of_graph)
  next
    case (Some v)
    then have "x \<in> fst ` set m" by (metis domI dom_map_of_conv_image_fst)
    with Some show ?thesis by (simp add: log_args_def map_of_graph)
  qed
  then show ?thesis by (auto simp: log_args_def comp_def)
qed

text \<open>The fields that \<open>Logging\<close> defines itself.\<close>

definition predefined :: "string \<Rightarrow> 'v \<Rightarrow> 'v log_fields \<Rightarrow> (string, 'v) gomap" where
  "predefined reqIDHeader rid f = (if reqIDHeader \<noteq> [] then gomap_set ''request_id'' rid (log_base f) else log_base f)"

lemma Logging_run:
  assumes "serve c1 st1 = ((f, rid), set_all (WithValue c1 k v) kvs st1)"
    and "ctxvals_WithKeyValue c st = (c1, st1)" and "k \<noteq> logKeyValueKey"
  shows "map_of (fst (Logging reqIDHeader serve c st)) key
    = (case map_of (predefined reqIDHeader rid f) key of Some x \<Rightarrow> Some x | None \<Rightarrow> map_of (rev kvs) key)"
proof -
  have a: "kv_container c1 = Some (kv_next st)" "kv_maps st1 (kv_next st) = []"
    using assms(2) by (auto simp: ctxvals_WithKeyValue_def kv_container_def logKeyValueKey_def)
  then have "kv_container (WithValue c1 k v) = Some (kv_next st)"
    using assms(3) by (simp add: kv_container_WithValue)
  from set_all_container [OF this, of kvs st1] a assms show ?thesis
    by (simp add: Logging_def Logging_pairs_def predefined_def ConsumeKeyValuePairs_def map_of_add_missing split: option.split)
qed

text \<open>
  \<open>Logging\<close> gives the log function every predefined field with its own value and, next to
  them, every pair that the handler set through any context derived from the one it got, with the
  last value set for the key; a pair with the key of a predefined field is ignored, and no pair set
  in a container of an enclosing context shows up.
\<close>

theorem Logging_exact:
  assumes "serve = (\<lambda>c1 st1. ((f, rid), set_all (WithValue c1 k v) kvs st1))" and "k \<noteq> logKeyValueKey"
  shows "map_of (fst (Logging reqIDHeader serve c st)) key
    = (case map_of (predefined reqIDHeader rid f) key of Some x \<Rightarrow> Some x | None \<Rightarrow> map_of (rev kvs) key)"
proof -
  obtain c1 st1 where "ctxvals_WithKeyValue c st = (c1, st1)" by fastforce
  from Logging_run [OF _ this assms(2)] assms(1) show ?thesis by simp
qed

definition sample_fields :: "nat log_fields" where
  "sample_fields = \<lparr>lf_start = 1, lf_end = 2, lf_duration = 1, lf_proto = 0, lf_host = 0, lf_method = 0, lf_uri = 0,
     lf_path = 0, lf_origin = 0, lf_received = 0, lf_user_agent = 0, lf_remote_addr = 0, lf_sent = 5, lf_status = 200\<rparr>"

theorem Logging_exact_witness:
  "\<exists>m. m = fst (Logging ''X-Id'' (\<lambda>c1 st1. ((sample_fields, 77),
        set_all (WithValue c1 loggerKey (VLogger None)) [(''user'', 3), (''status'', 500), (''user'', 4)] st1))
        ([] :: nat ctx) \<lparr>kv_next = 0, kv_maps = \<lambda>_. []\<rparr>)
    \<and> map_of m ''status'' = Some 200 \<and> map_of m ''user'' = Some 4 \<and> map_of m ''request_id'' = Some 77"
proof -
  have "loggerKey \<noteq> logKeyValueKey" by (simp add: ctxvals_defs)
  from Logging_exact [where f = sample_fields and rid = 77 and v = "VLogger None" and reqIDHeader = "''X-Id''"
      and kvs = "[(''user'', 3), (''status'', 500), (''user'', 4)]" and c = "[] :: nat ctx"
      and st = "\<lparr>kv_next = 0, kv_maps = \<lambda>_. []\<rparr>", OF refl this]
  show ?thesis by (simp add: predefined_def log_base_def sample_fields_def)
qed

section \<open>Properties of the CORS options\<close>

lemmas cors_simps = cors_options_def add_option_def add_anonymous_def Let_def

lemma cors_options_exact:
  assumes "cors_options config = (opts, creds, errs)"
  shows "(errs = [] \<longleftrightarrow> AllowedOrigins config \<noteq> [''*''] \<and> ExposedResponseHeaders config \<noteq> [''*''])
    \<and> creds = filter (\<lambda>opt. opt \<noteq> FromAnyOrigin \<and> opt \<noteq> ExposeAllResponseHeaders) opts
    \<and> (FromAnyOrigin \<in> set opts \<longleftrightarrow> AllowedOrigins config = [''*''])
    \<and> (ExposeAllResponseHeaders \<in> set opts \<longleftrightarrow> ExposedResponseHeaders config = [''*''])"
proof -
  have "let (opts, creds, errs) = cors_options config in
    (errs = [] \<longleftrightarrow> AllowedOrigins config \<noteq> [''*''] \<and> ExposedResponseHeaders config \<noteq> [''*''])
    \<and> creds = filter (\<lambda>opt. opt \<noteq> FromAnyOrigin \<and> opt \<noteq> ExposeAllResponseHeaders) opts
    \<and> (FromAnyOrigin \<in> set opts \<longleftrightarrow> AllowedOrigins config = [''*''])
    \<and> (ExposeAllResponseHeaders \<in> set opts \<longleftrightarrow> ExposedResponseHeaders config = [''*''])"
    by (simp add: cors_simps)
  with assms show ?thesis by simp
qed

text \<open>
  C39. When \<open>CORS\<close> returns a middleware for a configuration with credentials, it is the one the CORS
  package makes for credentialed access, of options that neither allow any origin nor expose all
  headers, and the configuration asks for neither: such a configuration panics, as does one
  without any option. Without credentials the middleware is made of the options as configured.
\<close>

theorem CORS_credentials_safe:
  assumes "CORS fcors config = Ret mw"
  shows "\<exists>opts. fcors (AllowCredentials config) opts = Inr mw \<and> opts \<noteq> []
    \<and> (AllowCredentials config \<longrightarrow> FromAnyOrigin \<notin> set opts \<and> ExposeAllResponseHeaders \<notin> set opts
         \<and> AllowedOrigins config \<noteq> [''*''] \<and> ExposedResponseHeaders config \<noteq> [''*''])
    \<and> (FromAnyOrigin \<in> set opts \<longleftrightarrow> AllowedOrigins config = [''*''])"
proof -
  obtain opts creds errs where o: "cors_options config = (opts, creds, errs)" by (metis prod_cases3)
  note e = cors_options_exact [OF o]
  show ?thesis
  proof (cases "AllowCredentials config")
    case True
    then have "errs = []" "creds \<noteq> []" "fcors True creds = Inr mw"
      using assms o by (auto simp: CORS_def split: if_splits sum.splits)
    then show ?thesis using e True by (intro exI [of _ creds]) simp
  next
    case False
    then have "opts \<noteq> []" "fcors False opts = Inr mw"
      using assms o by (auto simp: CORS_def split: if_splits sum.splits)
    then show ?thesis using e False by (intro exI [of _ opts]) simp
  qed
qed

definition sample_cors :: CORSConfig where
  "sample_cors = \<lparr>AllowCredentials = True, AllowedOrigins = [''https://example.com''], AllowedMethods = [''*''],
     AllowedRequestHeaders = [], ExposedResponseHeaders = [''X-Id''], MaxAge = - 1\<rparr>"

theorem CORS_credentials_safe_witness:
  "CORS (\<lambda>creds opts. Inr (creds, opts)) sample_cors
      = Ret (True, [FromOrigins [''https://example.com''], WithAnyMethod, ExposeResponseHeaders [''X-Id''], MaxAgeInSeconds 0])
   \<and> AllowedOrigins sample_cors \<noteq> [''*'']"
proof -
  have *: "CORS (\<lambda>creds opts. Inr (creds, opts)) sample_cors
      = Ret (True, [FromOrigins [''https://example.com''], WithAnyMethod, ExposeResponseHeaders [''X-Id''], MaxAgeInSeconds 0])"
    by code_simp
  have "AllowCredentials sample_cors" by code_simp
  with CORS_credentials_safe [OF *] show ?thesis unfolding * by simp
qed

end
