(* ===== verification/Params.thy ===== *)
theory Params
  imports Base64 Errors
begin

text \<open>
  Package \<^verbatim>\<open>params\<close> (\<^verbatim>\<open>src/server/params/params.go\<close>): the decoding of path values, cookies, query, form
  and JSON body of a request into a struct. A struct type is the list of its visible fields, as
  \<^verbatim>\<open>reflect.VisibleFields\<close> gives them; a struct value maps the index path of a field to its value, and
  a field behind a nil pointer to an embedded struct is missing from it. The decoders of
  \<^verbatim>\<open>gorilla/schema\<close>, of JSON and of media types, the parsed form and the method \<^verbatim>\<open>Validate\<close> are parameters. Struct tags
  are ASCII text.
\<close>

section \<open>Struct types and values\<close>

record field =
  fld_Name :: string
  fld_Index :: "nat list"
  fld_Exported :: bool
  fld_CanSet :: bool
  fld_path :: string \<comment> \<open>the tag \<^verbatim>\<open>path\<close>\<close>
  fld_cookie :: string \<comment> \<open>the tag \<^verbatim>\<open>cookie\<close>\<close>

type_synonym gotype = "field list"

text \<open>Strings, pointers to strings, pointers to something else, and all other values.\<close>

datatype 'x fval = FString string | FStringPtr "string option" | FPtr "'x option" | FOther 'x

type_synonym 'x sval = "(nat list, 'x fval) gomap"

text \<open>The kind of a value, of which \<open>None\<close> is the zero \<^verbatim>\<open>reflect.Value\<close>, and what a pointer points to.\<close>

datatype kind = Invalid | String | Pointer | OtherKind

fun val_Kind :: "'x fval option \<Rightarrow> kind" where
  "val_Kind None = Invalid"
| "val_Kind (Some (FString s)) = String"
| "val_Kind (Some (FStringPtr p)) = Pointer"
| "val_Kind (Some (FPtr p)) = Pointer"
| "val_Kind (Some (FOther x)) = OtherKind"

fun val_Elem :: "'x fval \<Rightarrow> 'x fval option" where
  "val_Elem (FStringPtr p) = map_option FString p"
| "val_Elem (FPtr p) = map_option FOther p"
| "val_Elem _ = None"

fun val_IsNil :: "'x fval \<Rightarrow> bool" where
  "val_IsNil (FStringPtr p) = (p = None)"
| "val_IsNil (FPtr p) = (p = None)"
| "val_IsNil _ = False"

section \<open>The cache of types\<close>

record cookieEntry =
  cookieName :: string
  ck_raw :: bool
  ck_json :: bool
  ck_dst :: field

record cacheEntry =
  pathValues :: "string list"
  cookieValues :: "cookieEntry list"

type_synonym cache = "(gotype, cacheEntry) gomap"

definition is_space :: "char \<Rightarrow> bool" where
  "is_space c \<longleftrightarrow> of_char c \<in> {9, 10, 11, 12, 13, 32 :: nat}"

definition go_TrimSpace :: "string \<Rightarrow> string" where
  "go_TrimSpace s = rev (dropWhile is_space (rev (dropWhile is_space s)))"

definition cacheGet :: "gotype \<Rightarrow> cache \<Rightarrow> cacheEntry option" where
  "cacheGet t cache = map_of cache t"

definition cache_field :: "field \<Rightarrow> cacheEntry \<Rightarrow> cacheEntry" where
  "cache_field f entry =
     (if \<not> fld_Exported f then entry
      else
        let path = go_TrimSpace (fld_path f);
            entry = (if path \<noteq> [] \<and> path \<noteq> ''-'' then entry\<lparr>pathValues := pathValues entry @ [path]\<rparr> else entry);
            ck = go_TrimSpace (fld_cookie f)
        in if ck \<noteq> [] \<and> ck \<noteq> ''-'' then
             (case go_Cut ck (CHR '','') of (name, opts, _) \<Rightarrow>
                entry\<lparr>cookieValues := cookieValues entry @ [\<lparr>cookieName = go_TrimSpace name,
                  ck_raw = (go_TrimSpace opts = ''raw''), ck_json = (go_TrimSpace opts = ''json''), ck_dst = f\<rparr>]\<rparr>)
           else entry)"

definition fields_entry :: "gotype \<Rightarrow> cacheEntry" where
  "fields_entry t = fold cache_field t \<lparr>pathValues = [], cookieValues = []\<rparr>"

text \<open>\<^verbatim>\<open>LoadOrStore\<close> keeps an entry that another call stored meanwhile.\<close>

definition cacheSet :: "gotype \<Rightarrow> cache \<Rightarrow> (cacheEntry \<times> bool) \<times> cache" where
  "cacheSet t cache =
     (let entry = fields_entry t in
      case map_of cache t of Some v \<Rightarrow> ((v, False), cache) | None \<Rightarrow> ((entry, True), gomap_set t entry cache))"

section \<open>Requests and libraries\<close>

type_synonym url_Values = "(string, string list) gomap"

text \<open>The parsed form is what \<^verbatim>\<open>ParseForm\<close> returns and leaves in the request.\<close>

record param_request =
  pr_PathValue :: "string \<Rightarrow> string"
  pr_cookies :: "(string \<times> string) list"
  pr_ContentLength :: int
  pr_ContentType :: string
  pr_Form :: "url_Values res"
  pr_Query :: url_Values
  pr_Body :: string

definition r_Cookie :: "param_request \<Rightarrow> string \<Rightarrow> string option" where
  "r_Cookie r name = (if name = [] then None else map_of (pr_cookies r) name)"

text \<open>
  A JSON decoder gives its error, what is decoded so far, and whether more values follow. The media
  type is without its parameters.
\<close>

record 'x decoders =
  dec_form :: "url_Values \<Rightarrow> 'x sval \<Rightarrow> goerr option \<times> 'x sval"
  dec_path :: "url_Values \<Rightarrow> 'x sval \<Rightarrow> goerr option \<times> 'x sval"
  dec_json :: "string \<Rightarrow> 'x sval \<Rightarrow> goerr option \<times> bool \<times> 'x sval"
  dec_json_field :: "string \<Rightarrow> 'x fval \<Rightarrow> goerr option \<times> bool \<times> 'x fval"
  ParseMediaType :: "string \<Rightarrow> string"
  dst_Validate :: "gotype \<Rightarrow> ('x sval \<Rightarrow> goerr option \<times> 'x sval) option"

section \<open>Cookies\<close>

text \<open>The position in the error of the base64 decoder is left out.\<close>

definition CorruptInputError :: goerr where
  "CorruptInputError = OpaqueErr ''illegal base64 data''"

definition must_be_string :: "field \<Rightarrow> goerr" where
  "must_be_string f = ErrorString (''params: struct field '' @ fld_Name f @ '' must be a string or pointer to string'')"

text \<open>The assignment of a text to a field. The inner pointer test is the one of the code, on a nil pointer.\<close>

definition set_text :: "field \<Rightarrow> string \<Rightarrow> 'x fval \<Rightarrow> goerr option \<times> 'x fval" where
  "set_text f str fld =
     (if val_Kind (Some fld) = Pointer then
        if val_IsNil fld then
          if val_Kind (val_Elem fld) \<noteq> String then (Some (must_be_string f), fld)
          else (None, FStringPtr (Some str))
        else if val_Kind (val_Elem fld) \<noteq> String then (Some (must_be_string f), fld)
        else (None, FStringPtr (Some str))
      else if val_Kind (Some fld) \<noteq> String then (Some (must_be_string f), fld)
      else (None, FString str))"

definition set_json :: "'x decoders \<Rightarrow> string \<Rightarrow> string \<Rightarrow> 'x fval \<Rightarrow> goerr option \<times> 'x fval" where
  "set_json L name str fld =
     (case dec_json_field L str fld of
        (Some err, _, fld') \<Rightarrow> (Some (Errorf_w (''params: cookie '' @ name @ '' failed to JSON unmarshal: '') err), fld')
      | (None, True, fld') \<Rightarrow> (Some (ErrorString (''params: cookie '' @ name @ '' JSON contains extraneous values'')), fld')
      | (None, False, fld') \<Rightarrow> (None, fld'))"

definition decodeCookie :: "'x decoders \<Rightarrow> param_request \<Rightarrow> cookieEntry \<Rightarrow> 'x sval \<Rightarrow> goerr option outcome \<times> 'x sval" where
  "decodeCookie L r entry v =
     (let f = ck_dst entry; name = cookieName entry in
      case map_of v (fld_Index f) of
        None \<Rightarrow> (Panic ''reflect: indirection through nil pointer to embedded struct'', v)
      | Some fld \<Rightarrow>
          if \<not> fld_CanSet f
          then (Ret (Some (ErrorString (''params: struct field '' @ fld_Name f @ '' is not addressable or settable''))), v)
          else
            (case r_Cookie r name of
               None \<Rightarrow> (Ret None, v)
             | Some val \<Rightarrow>
                 (case (if ck_raw entry then Some val else b64_decode val) of
                    None \<Rightarrow> (Ret (Some (Errorf_w (''params: cookie '' @ name @ '' is not base64-url-encoded: '') CorruptInputError)), v)
                  | Some str \<Rightarrow>
                      (case (if ck_json entry then set_json L name str fld else set_text f str fld) of
                         (err, fld') \<Rightarrow> (Ret err, gomap_set (fld_Index f) fld' v)))))"

fun decode_cookies :: "'x decoders \<Rightarrow> param_request \<Rightarrow> cookieEntry list \<Rightarrow> 'x sval \<Rightarrow> goerr option outcome \<times> 'x sval" where
  "decode_cookies L r [] v = (Ret None, v)"
| "decode_cookies L r (ck # cks) v =
     (case decodeCookie L r ck v of
        (Ret None, v1) \<Rightarrow> decode_cookies L r cks v1
      | (out, v1) \<Rightarrow> (out, v1))"

section \<open>Decode\<close>

text \<open>The values of the form, and the JSON body if there is one.\<close>

definition request_values :: "'x decoders \<Rightarrow> param_request \<Rightarrow> (url_Values \<times> string option) res" where
  "request_values L r =
     (if pr_ContentLength r \<noteq> 0 then
        (let ct = ParseMediaType L (pr_ContentType r) in
         if ct = ''application/x-www-form-urlencoded'' then
           (case pr_Form r of Inl err \<Rightarrow> Inl err | Inr form \<Rightarrow> Inr (form, None))
         else if ct = ''application/json'' then Inr (pr_Query r, Some (pr_Body r))
         else Inl (ErrorString (''params: unsupported content type: '' @ ct)))
      else Inr (pr_Query r, None))"

definition path_values :: "param_request \<Rightarrow> cacheEntry \<Rightarrow> url_Values" where
  "path_values r entry = fold (\<lambda>v. gomap_set v [pr_PathValue r v]) (pathValues entry) []"

definition decode_json :: "'x decoders \<Rightarrow> string option \<Rightarrow> 'x sval \<Rightarrow> goerr option \<times> 'x sval" where
  "decode_json L body v =
     (case body of
        None \<Rightarrow> (None, v)
      | Some str \<Rightarrow>
          (case dec_json L str v of
             (Some err, _, v') \<Rightarrow> (Some err, v')
           | (None, True, v') \<Rightarrow> (Some (ErrorString ''params: JSON body contains extraneous values''), v')
           | (None, False, v') \<Rightarrow> (None, v')))"

definition decode_struct :: "'x decoders \<Rightarrow> param_request \<Rightarrow> gotype \<Rightarrow> cacheEntry \<Rightarrow> 'x sval \<Rightarrow> goerr option outcome \<times> 'x sval" where
  "decode_struct L r t entry v =
     (case request_values L r of
        Inl err \<Rightarrow> (Ret (Some err), v)
      | Inr (formValues, body) \<Rightarrow>
          (case (if path_values r entry \<noteq> [] then dec_path L (path_values r entry) v else (None, v)) of
             (Some err, v1) \<Rightarrow> (Ret (Some err), v1)
           | (None, v1) \<Rightarrow>
               (case decode_cookies L r (cookieValues entry) v1 of
                  (Ret None, v2) \<Rightarrow>
                    (case (if formValues \<noteq> [] then dec_form L formValues v2 else (None, v2)) of
                       (Some err, v3) \<Rightarrow> (Ret (Some err), v3)
                     | (None, v3) \<Rightarrow>
                         (case decode_json L body v3 of
                            (Some err, v4) \<Rightarrow> (Ret (Some err), v4)
                          | (None, v4) \<Rightarrow>
                              (case dst_Validate L t of
                                 None \<Rightarrow> (Ret None, v4)
                               | Some validate \<Rightarrow> (case validate v4 of (err, v5) \<Rightarrow> (Ret err, v5)))))
                | (out, v2) \<Rightarrow> (out, v2))))"

text \<open>The destination: a pointer to a struct, or anything else.\<close>

datatype 'x dst = DstStruct gotype "'x sval" | DstOther

fun Decode :: "'x decoders \<Rightarrow> param_request \<Rightarrow> 'x dst \<Rightarrow> cache \<Rightarrow> (goerr option outcome \<times> 'x dst) \<times> cache" where
  "Decode L r DstOther cache = ((Ret (Some (ErrorString ''params: interface must be a pointer to struct'')), DstOther), cache)"
| "Decode L r (DstStruct t v) cache =
     (case (case cacheGet t cache of
              Some entry \<Rightarrow> (entry, cache)
            | None \<Rightarrow> (case cacheSet t cache of ((entry, _), cache') \<Rightarrow> (entry, cache')))
      of (entry, cache') \<Rightarrow>
        (case decode_struct L r t entry v of (out, v') \<Rightarrow> ((out, DstStruct t v'), cache')))"

section \<open>The cache makes no difference\<close>

definition cache_ok :: "cache \<Rightarrow> bool" where
  "cache_ok cache \<longleftrightarrow> (\<forall>t entry. map_of cache t = Some entry \<longrightarrow> entry = fields_entry t)"

text \<open>
  Whatever other requests were decoded before, and in whatever order their types came into the
  cache, \<open>Decode\<close> gives the result of a decoder that is new; entries of the cache never change, and each is the one
  that the fields of its type give.
\<close>

lemma cached_Decode:
  assumes "cache_ok cache" "Decode L r d cache = (res, cache')"
  shows "res = fst (Decode L r d []) \<and> cache_ok cache' \<and> (\<forall>t. map_of cache t \<noteq> None \<longrightarrow> map_of cache' t = map_of cache t)"
proof (cases d)
  case (DstStruct t v)
  have cs: "map_of c t = None \<Longrightarrow> cacheSet t c = ((fields_entry t, True), gomap_set t (fields_entry t) c)" for c
    by (simp add: cacheSet_def Let_def)
  show ?thesis
  proof (cases "map_of cache t")
    case None
    with assms DstStruct show ?thesis
      by (auto simp: cacheGet_def cs cache_ok_def split: prod.splits if_splits)
  next
    case (Some entry)
    with assms(1) have "entry = fields_entry t" by (simp add: cache_ok_def)
    with Some assms DstStruct show ?thesis by (auto simp: cacheGet_def cs split: prod.splits)
  qed
next
  case DstOther
  with assms show ?thesis by auto
qed

text \<open>What the tags of a type say: the path values that it needs, and its cookies.\<close>

definition tagged :: "(field \<Rightarrow> string) \<Rightarrow> gotype \<Rightarrow> field list" where
  "tagged tag t = filter (\<lambda>f. fld_Exported f \<and> go_TrimSpace (tag f) \<notin> {[], ''-''}) t"

definition cookie_options :: "field \<Rightarrow> string" where
  "cookie_options f = go_TrimSpace (drop (Suc (length (takeWhile (\<lambda>c. c \<noteq> CHR '','') (go_TrimSpace (fld_cookie f)))))
     (go_TrimSpace (fld_cookie f)))"

definition cookie_of_field :: "field \<Rightarrow> cookieEntry" where
  "cookie_of_field f = \<lparr>cookieName = go_TrimSpace (takeWhile (\<lambda>c. c \<noteq> CHR '','') (go_TrimSpace (fld_cookie f))),
     ck_raw = (cookie_options f = ''raw''), ck_json = (cookie_options f = ''json''), ck_dst = f\<rparr>"

definition tags_entry :: "gotype \<Rightarrow> cacheEntry" where
  "tags_entry t = \<lparr>pathValues = map (\<lambda>f. go_TrimSpace (fld_path f)) (tagged fld_path t),
     cookieValues = map cookie_of_field (tagged fld_cookie t)\<rparr>"

lemma go_Cut_takeWhile: "go_Cut s sep = (takeWhile (\<lambda>c. c \<noteq> sep) s, drop (Suc (length (takeWhile (\<lambda>c. c \<noteq> sep) s))) s, sep \<in> set s)"
  by (induction s) auto

lemma cache_field_tags:
  "cache_field f e = e\<lparr>pathValues := pathValues e @ map (\<lambda>f. go_TrimSpace (fld_path f)) (tagged fld_path [f]),
     cookieValues := cookieValues e @ map cookie_of_field (tagged fld_cookie [f])\<rparr>"
  by (simp add: cache_field_def tagged_def cookie_of_field_def cookie_options_def go_Cut_takeWhile Let_def)

lemma fold_cache_field:
  "fold cache_field t e = e\<lparr>pathValues := pathValues e @ map (\<lambda>f. go_TrimSpace (fld_path f)) (tagged fld_path t),
     cookieValues := cookieValues e @ map cookie_of_field (tagged fld_cookie t)\<rparr>"
proof (induction t arbitrary: e)
  case (Cons f t)
  have "tagged tag (f # t) = tagged tag [f] @ tagged tag t" for tag by (simp add: tagged_def)
  then show ?case by (simp add: Cons.IH cache_field_tags [of f e])
qed (simp add: tagged_def)

lemma fields_entry_tags: "fields_entry t = tags_entry t"
  by (simp add: fields_entry_def fold_cache_field tags_entry_def)

text \<open>A decoder serves one request after another.\<close>

fun decode_all :: "'x decoders \<Rightarrow> (param_request \<times> 'x dst) list \<Rightarrow> cache \<Rightarrow> (goerr option outcome \<times> 'x dst) list \<times> cache" where
  "decode_all L [] cache = ([], cache)"
| "decode_all L ((r, d) # reqs) cache =
     (case Decode L r d cache of (res, cache1) \<Rightarrow> (case decode_all L reqs cache1 of (ress, cache2) \<Rightarrow> (res # ress, cache2)))"

lemma decode_all_cache_ok:
  "cache_ok cache \<Longrightarrow> decode_all L reqs cache = (ress, cache') \<Longrightarrow>
     ress = map (\<lambda>(r, d). fst (Decode L r d [])) reqs \<and> cache_ok cache'"
proof (induction L reqs cache arbitrary: ress cache' rule: decode_all.induct)
  case (2 L r d reqs cache)
  obtain res cache1 where one: "Decode L r d cache = (res, cache1)" by fastforce
  obtain ress2 cache2 where rest: "decode_all L reqs cache1 = (ress2, cache2)" by fastforce
  from cached_Decode [OF 2(2) one] have c1: "res = fst (Decode L r d [])" "cache_ok cache1" by simp_all
  from 2(1) [OF one [symmetric] c1(2) rest] c1 2(3) one rest show ?case by simp
qed simp

text \<open>
  C14. The cache of types makes no difference, and the tags mean what they say. Whatever requests a decoder served, in
  whatever order, the result of each is that of a new decoder. Every entry of its cache has the path values and
  the cookies of exactly the exported fields that are tagged for them with something else than a dash, in the order of
  the fields: the name is the text of the tag up to the first comma, with no space around it, and \<^verbatim>\<open>raw\<close> or \<^verbatim>\<open>json\<close> are options
  only if they are all there is after it.
\<close>

theorem Decode_by_tags:
  "case decode_all L reqs [] of (ress, cache) \<Rightarrow>
     ress = map (\<lambda>(r, d). fst (Decode L r d [])) reqs
     \<and> map_of cache t \<in> {None, Some (tags_entry t)} \<and> fst (fst (cacheSet t cache)) = tags_entry t"
proof -
  obtain ress cache where all: "decode_all L reqs [] = (ress, cache)" by fastforce
  have "cache_ok []" by (simp add: cache_ok_def)
  from decode_all_cache_ok [OF this all] have res: "ress = map (\<lambda>(r, d). fst (Decode L r d [])) reqs"
    "map_of cache t \<in> {None, Some (tags_entry t)}"
    by (auto simp: cache_ok_def fields_entry_tags) (metis option.exhaust fields_entry_tags)
  moreover have "fst (fst (cacheSet t cache)) = tags_entry t"
    using res(2) by (auto simp: cacheSet_def Let_def fields_entry_tags)
  ultimately show ?thesis by (simp add: all)
qed

section \<open>Cookies are read back\<close>

text \<open>The request has no cookie for the entry, or one that a client set to \<open>str\<close>.\<close>

definition cookie_set_to :: "param_request \<Rightarrow> cookieEntry \<Rightarrow> string option \<Rightarrow> bool" where
  "cookie_set_to r ck str \<longleftrightarrow>
     r_Cookie r (cookieName ck) = map_option (\<lambda>s. if ck_raw ck then s else b64_encode s) str"

text \<open>An entry for a string field of the struct, without JSON.\<close>

definition text_entry :: "'x sval \<Rightarrow> cookieEntry \<Rightarrow> bool" where
  "text_entry v ck \<longleftrightarrow> \<not> ck_json ck \<and> fld_CanSet (ck_dst ck) \<and> (\<exists>s. map_of v (fld_Index (ck_dst ck)) = Some (FString s))"

abbreviation index_of :: "cookieEntry \<Rightarrow> nat list" where
  "index_of ck \<equiv> fld_Index (ck_dst ck)"

lemma decodeCookie_text:
  assumes "text_entry v ck" "cookie_set_to r ck str"
  shows "\<exists>v'. decodeCookie L r ck v = (Ret None, v') \<and> map_of v' =
    (case str of None \<Rightarrow> map_of v | Some s \<Rightarrow> (map_of v)(index_of ck \<mapsto> FString s))"
  using assms by (auto simp: decodeCookie_def Let_def text_entry_def cookie_set_to_def set_text_def b64_decode_encode split: option.splits)

lemma decode_cookies_text:
  "\<forall>ck \<in> set cks. text_entry v ck \<and> cookie_set_to r ck (str ck) \<Longrightarrow> distinct (map index_of cks) \<Longrightarrow>
     \<exists>v'. decode_cookies L r cks v = (Ret None, v') \<and>
       (\<forall>ck \<in> set cks. map_of v' (index_of ck) = (case str ck of None \<Rightarrow> map_of v (index_of ck) | Some s \<Rightarrow> Some (FString s)))
       \<and> (\<forall>i. i \<notin> index_of ` set cks \<longrightarrow> map_of v' i = map_of v i)"
proof (induction cks arbitrary: v)
  case (Cons ck cks)
  then obtain v1 where v1: "decodeCookie L r ck v = (Ret None, v1)"
    "map_of v1 = (case str ck of None \<Rightarrow> map_of v | Some s \<Rightarrow> (map_of v)(index_of ck \<mapsto> FString s))"
    using decodeCookie_text by (metis list.set_intros(1))
  have other: "map_of v1 i = map_of v i" if "i \<noteq> index_of ck" for i
    using v1(2) that by (auto split: option.splits)
  have "\<forall>ck' \<in> set cks. text_entry v1 ck' \<and> cookie_set_to r ck' (str ck')"
  proof
    fix ck' assume "ck' \<in> set cks"
    moreover from this Cons.prems(2) have "index_of ck' \<noteq> index_of ck" by (auto simp: rev_image_eqI)
    ultimately show "text_entry v1 ck' \<and> cookie_set_to r ck' (str ck')"
      using Cons.prems(1) other by (simp add: text_entry_def)
  qed
  with Cons.IH [of v1] Cons.prems(2) obtain v2 where v2: "decode_cookies L r cks v1 = (Ret None, v2)"
    "\<forall>ck \<in> set cks. map_of v2 (index_of ck) = (case str ck of None \<Rightarrow> map_of v1 (index_of ck) | Some s \<Rightarrow> Some (FString s))"
    "\<forall>i. i \<notin> index_of ` set cks \<longrightarrow> map_of v2 i = map_of v1 i" by auto
  have fresh: "index_of ck \<notin> index_of ` set cks" using Cons.prems(2) by simp
  then have ck: "map_of v2 (index_of ck) = (case str ck of None \<Rightarrow> map_of v (index_of ck) | Some s \<Rightarrow> Some (FString s))"
    using v1(2) v2(3) by (auto split: option.splits)
  moreover have "map_of v2 (index_of ck') = (case str ck' of None \<Rightarrow> map_of v (index_of ck') | Some s \<Rightarrow> Some (FString s))"
    if "ck' \<in> set cks" for ck'
  proof -
    from that fresh have "index_of ck' \<noteq> index_of ck" by (auto simp: rev_image_eqI)
    with v2(2) [rule_format, OF that] other [of "index_of ck'"] show ?thesis by (simp split: option.split)
  qed
  moreover have "map_of v2 i = map_of v i" if "i \<notin> index_of ` set (ck # cks)" for i
    using v2(3) other that by simp
  ultimately show ?case using v1(1) v2(1) by simp
qed simp

text \<open>
  C30. Texts that a client set as cookies, in base64 or raw, come back in the string fields that are
  tagged for them, byte for byte; fields without a cookie in the request keep their values, and so
  do all other fields, when the request has no other parameters.
\<close>

theorem cookies_read_back:
  assumes "\<forall>ck \<in> set (cookieValues (fields_entry t)). text_entry v ck \<and> cookie_set_to r ck (str ck)"
    and "distinct (map index_of (cookieValues (fields_entry t)))"
    and "pathValues (fields_entry t) = []" "pr_ContentLength r = 0" "pr_Query r = []" "dst_Validate L t = None"
  shows "\<exists>v'. fst (Decode L r (DstStruct t v) []) = (Ret None, DstStruct t v')
    \<and> (\<forall>ck \<in> set (cookieValues (fields_entry t)).
         map_of v' (index_of ck) = (case str ck of None \<Rightarrow> map_of v (index_of ck) | Some s \<Rightarrow> Some (FString s)))
    \<and> (\<forall>i. i \<notin> index_of ` set (cookieValues (fields_entry t)) \<longrightarrow> map_of v' i = map_of v i)"
proof -
  obtain v' where v': "decode_cookies L r (cookieValues (fields_entry t)) v = (Ret None, v')"
    "\<forall>ck \<in> set (cookieValues (fields_entry t)).
         map_of v' (index_of ck) = (case str ck of None \<Rightarrow> map_of v (index_of ck) | Some s \<Rightarrow> Some (FString s))"
    "\<forall>i. i \<notin> index_of ` set (cookieValues (fields_entry t)) \<longrightarrow> map_of v' i = map_of v i"
    using decode_cookies_text [OF assms(1,2)] by blast
  have "request_values L r = Inr ([], None)" "path_values r (fields_entry t) = []"
    using assms(3-5) by (simp_all add: request_values_def path_values_def)
  with v' assms(6) have "fst (Decode L r (DstStruct t v) []) = (Ret None, DstStruct t v')"
    by (simp add: cacheGet_def cacheSet_def Let_def decode_struct_def decode_json_def)
  with v'(2,3) show ?thesis by blast
qed

section \<open>What a successful decoding has checked\<close>

text \<open>
  A decoding that succeeds had a struct to decode into, a body of a supported type if there is a
  body at all, a JSON body that is one value, and a result that the validation of the type accepted
  last, when everything was decoded. A body of another type leaves the destination as it was.
\<close>

theorem Decode_checks:
  assumes "Decode L r d cache = ((out, d'), cache')"
  shows "(out = Ret None \<longrightarrow> (\<exists>t v v' v4. d = DstStruct t v \<and> d' = DstStruct t v'
      \<and> (pr_ContentLength r \<noteq> 0 \<longrightarrow>
           ParseMediaType L (pr_ContentType r) \<in> {''application/x-www-form-urlencoded'', ''application/json''})
      \<and> (pr_ContentLength r \<noteq> 0 \<and> ParseMediaType L (pr_ContentType r) = ''application/json'' \<longrightarrow>
           (\<exists>v3. dec_json L (pr_Body r) v3 = (None, False, v4)))
      \<and> (case dst_Validate L t of None \<Rightarrow> v' = v4 | Some validate \<Rightarrow> validate v4 = (None, v'))))
    \<and> (pr_ContentLength r \<noteq> 0 \<and>
         ParseMediaType L (pr_ContentType r) \<notin> {''application/x-www-form-urlencoded'', ''application/json''} \<longrightarrow>
       d' = d \<and> (\<exists>err. out = Ret (Some err)))"
proof (cases d)
  case DstOther
  with assms show ?thesis by auto
next
  case (DstStruct t v)
  from assms DstStruct obtain entry v' where run: "decode_struct L r t entry v = (out, v')" "d' = DstStruct t v'"
    by (auto split: prod.splits)
  show ?thesis
  proof (cases "request_values L r")
    case (Inl err)
    with run have "out = Ret (Some err)" "v' = v" by (simp_all add: decode_struct_def)
    with run DstStruct show ?thesis by simp
  next
    case (Inr p)
    obtain form body where p: "request_values L r = Inr (form, body)" using Inr by (cases p) simp
    have ct: "pr_ContentLength r \<noteq> 0 \<longrightarrow>
        ParseMediaType L (pr_ContentType r) \<in> {''application/x-www-form-urlencoded'', ''application/json''}"
      using p by (auto simp: request_values_def Let_def split: if_splits)
    have b: "body = (if pr_ContentLength r \<noteq> 0 \<and> ParseMediaType L (pr_ContentType r) = ''application/json'' then Some (pr_Body r) else None)"
      using p by (auto simp: request_values_def Let_def split: if_splits sum.splits)
    have "\<exists>v3 v4. decode_json L body v3 = (None, v4) \<and> (case dst_Validate L t of None \<Rightarrow> v' = v4 | Some validate \<Rightarrow> validate v4 = (None, v'))"
      if "out = Ret None"
      using run(1) p that
      by (auto simp: decode_struct_def split: option.splits prod.splits outcome.splits)
    moreover have "\<exists>v3. dec_json L str v3 = (None, False, v4)" if "decode_json L (Some str) v3 = (None, v4)" for str v3 v4
      using that by (auto simp: decode_json_def split: option.splits prod.splits bool.splits)
    ultimately show ?thesis using ct b run(2) DstStruct by (auto split: if_splits) blast+
  qed
qed

section \<open>Pointers that are nil\<close>

text \<open>
  A cookie cannot be decoded into a pointer to a string that is nil, although that is a type
  for cookies: the test of the element type looks at the nil pointer's target and always refuses it. And
  a cookie tag in an embedded struct that is a nil pointer makes the decoder panic, also when the
  request has no such cookie.
\<close>

theorem nil_pointers_refused:
  assumes "fld_CanSet (ck_dst ck)" "\<not> ck_json ck" "r_Cookie r (cookieName ck) = Some val"
    and "ck_raw ck \<or> b64_decode val \<noteq> None"
  shows "(map_of v (index_of ck) = Some (FStringPtr None) \<longrightarrow>
      (\<exists>v'. decodeCookie L r ck v = (Ret (Some (must_be_string (ck_dst ck))), v') \<and> map_of v' = map_of v))
    \<and> (map_of v (index_of ck) = Some (FStringPtr (Some s)) \<longrightarrow>
      (\<exists>v' str. decodeCookie L r ck v = (Ret None, v') \<and> map_of v' (index_of ck) = Some (FStringPtr (Some str))))
    \<and> (map_of v (index_of ck) = None \<longrightarrow> (\<forall>r. \<exists>p. fst (decodeCookie L r ck v) = Panic p))"
  using assms by (auto simp: decodeCookie_def Let_def set_text_def fun_upd_idem split: option.splits)

section \<open>A sample decoder\<close>

definition sample_decoders :: "nat decoders" where
  "sample_decoders = \<lparr>dec_form = (\<lambda>vals v. (None, v)), dec_path = (\<lambda>vals v. (None, v)), dec_json = (\<lambda>str v. (None, False, v)),
     dec_json_field = (\<lambda>str f. (None, False, f)), ParseMediaType = (\<lambda>s. s), dst_Validate = (\<lambda>t. None)\<rparr>"

definition sample_field :: "string \<Rightarrow> nat \<Rightarrow> string \<Rightarrow> field" where
  "sample_field name i cookie = \<lparr>fld_Name = name, fld_Index = [i], fld_Exported = True, fld_CanSet = True,
     fld_path = [], fld_cookie = cookie\<rparr>"

definition sample_type :: gotype where
  "sample_type = [sample_field ''Id'' 0 ''id'', sample_field ''Lang'' 1 '' lang , raw'', sample_field ''Page'' 2 ''page'']"

definition sample_value :: "nat sval" where
  "sample_value = [([0], FString []), ([1], FString ''en''), ([2], FString ''home''), ([3], FOther 7)]"

definition sample_params :: param_request where
  "sample_params = \<lparr>pr_PathValue = (\<lambda>_. []), pr_cookies = [(''id'', b64_encode ''k=1;''), (''lang'', ''fr'')], pr_ContentLength = 0,
     pr_ContentType = [], pr_Form = Inr [], pr_Query = [], pr_Body = []\<rparr>"

lemma sample_entry: "fields_entry sample_type = \<lparr>pathValues = [], cookieValues =
   [\<lparr>cookieName = ''id'', ck_raw = False, ck_json = False, ck_dst = sample_field ''Id'' 0 ''id''\<rparr>,
    \<lparr>cookieName = ''lang'', ck_raw = True, ck_json = False, ck_dst = sample_field ''Lang'' 1 '' lang , raw''\<rparr>,
    \<lparr>cookieName = ''page'', ck_raw = False, ck_json = False, ck_dst = sample_field ''Page'' 2 ''page''\<rparr>]\<rparr>"
  by code_simp

theorem cookies_read_back_witness:
  "\<exists>v'. fst (Decode sample_decoders sample_params (DstStruct sample_type sample_value) []) = (Ret None, DstStruct sample_type v')
     \<and> map_of v' [0] = Some (FString ''k=1;'') \<and> map_of v' [1] = Some (FString ''fr'')
     \<and> map_of v' [2] = Some (FString ''home'') \<and> map_of v' [3] = Some (FOther 7)"
  using cookies_read_back [of sample_type sample_value sample_params
      "\<lambda>ck. if cookieName ck = ''id'' then Some ''k=1;'' else if cookieName ck = ''lang'' then Some ''fr'' else None" sample_decoders]
  by (simp del: Decode.simps add: sample_entry text_entry_def cookie_set_to_def r_Cookie_def sample_field_def sample_value_def
      sample_params_def sample_decoders_def) auto

theorem Decode_checks_witness:
  "\<exists>err. fst (Decode sample_decoders (sample_params\<lparr>pr_ContentLength := 4, pr_ContentType := ''text/plain''\<rparr>)
      (DstStruct sample_type sample_value) []) = (Ret (Some err), DstStruct sample_type sample_value)"
proof -
  obtain out d' cache' where run: "Decode sample_decoders (sample_params\<lparr>pr_ContentLength := 4, pr_ContentType := ''text/plain''\<rparr>)
      (DstStruct sample_type sample_value) [] = ((out, d'), cache')" by (metis prod.collapse)
  from Decode_checks [OF run] have "d' = DstStruct sample_type sample_value \<and> (\<exists>err. out = Ret (Some err))"
    by (simp add: sample_decoders_def)
  with run show ?thesis by auto
qed

theorem nil_pointers_refused_witness:
  "\<exists>v'. decodeCookie sample_decoders sample_params
      \<lparr>cookieName = ''lang'', ck_raw = True, ck_json = False, ck_dst = sample_field ''Lang'' 1 ''lang,raw''\<rparr> [([1], FStringPtr None)]
    = (Ret (Some (must_be_string (sample_field ''Lang'' 1 ''lang,raw''))), v')"
  using nil_pointers_refused [of "\<lparr>cookieName = ''lang'', ck_raw = True, ck_json = False, ck_dst = sample_field ''Lang'' 1 ''lang,raw''\<rparr>"
      sample_params "''fr''" "[([1], FStringPtr None)]" sample_decoders]
  by (auto simp: sample_field_def sample_params_def r_Cookie_def)

end
