(* ===== verification/Webpages.thy ===== *)
theory Webpages
  imports Errors
begin

text \<open>
  Package \<^verbatim>\<open>webpages\<close> (\<^verbatim>\<open>src/server/webpages/webpages.go\<close>): the walk over the file system that parses the
  common templates and one template set for each page, and the rendering of a page. A file system
  is a tree, whose directories list their entries in the order of \<^verbatim>\<open>fs.ReadDir\<close>; \<^verbatim>\<open>fs.WalkDir\<close> is
  modelled with its error calls. The template package is a record of operations on template sets.
\<close>

section \<open>File systems\<close>

datatype fs_node =
    Regular "string res" \<comment> \<open>the contents, or the error of reading them\<close>
  | Irregular
  | Directory "(string \<times> fs_node) list"
  | Unreadable goerr \<comment> \<open>a directory whose entries cannot be read\<close>

text \<open>The root directory; \<^verbatim>\<open>fs.Stat\<close> finds an entry or fails.\<close>

type_synonym fs_FS = "string \<Rightarrow> fs_node res"

definition ErrNotExist_at :: "string \<Rightarrow> goerr" where
  "ErrNotExist_at path = Errorf_w (''stat '' @ path @ '': '') (Sentinel ErrNotExist)"

text \<open>\<^verbatim>\<open>path.Join\<close> of a clean path and a name, and \<^verbatim>\<open>path.Ext\<close> of a name without a slash.\<close>

definition path_Join :: "string \<Rightarrow> string \<Rightarrow> string" where
  "path_Join dir name = dir @ ''/'' @ name"

definition path_Ext :: "string \<Rightarrow> string" where
  "path_Ext name = (if CHR ''.'' \<in> set name then CHR ''.'' # rev (takeWhile (\<lambda>c. c \<noteq> CHR ''.'') (rev name)) else [])"

text \<open>The function that is called for the nodes: path, base name, node, error, on a state.\<close>

type_synonym 's visit = "string \<Rightarrow> string \<Rightarrow> fs_node option \<Rightarrow> goerr option \<Rightarrow> 's \<Rightarrow> goerr option \<times> 's"

fun walk_node :: "'s visit \<Rightarrow> string \<Rightarrow> string \<Rightarrow> fs_node \<Rightarrow> 's \<Rightarrow> goerr option \<times> 's"
  and walk_entries :: "'s visit \<Rightarrow> string \<Rightarrow> (string \<times> fs_node) list \<Rightarrow> 's \<Rightarrow> goerr option \<times> 's" where
  "walk_node fn path name node s =
     (case fn path name (Some node) None s of
        (Some err, s1) \<Rightarrow> (Some err, s1)
      | (None, s1) \<Rightarrow>
          (case node of
             Directory entries \<Rightarrow> walk_entries fn path entries s1
           | Unreadable err \<Rightarrow> fn path name (Some node) (Some err) s1
           | _ \<Rightarrow> (None, s1)))"
| "walk_entries fn path [] s = (None, s)"
| "walk_entries fn path ((name, node) # entries) s =
     (case walk_node fn (path_Join path name) name node s of
        (Some err, s1) \<Rightarrow> (Some err, s1)
      | (None, s1) \<Rightarrow> walk_entries fn path entries s1)"

definition WalkDir :: "fs_FS \<Rightarrow> string \<Rightarrow> 's visit \<Rightarrow> 's \<Rightarrow> goerr option \<times> 's" where
  "WalkDir fsys path fn s =
     (case fsys path of
        Inl err \<Rightarrow> fn path path None (Some err) s
      | Inr node \<Rightarrow> walk_node fn path path node s)"

section \<open>Templates\<close>

text \<open>
  Operations on template sets: a new set with a named template and the functions, the parsing of a
  text as the template of a name in the set, a copy of a set, and execution.
\<close>

record ('t, 'd) template_pkg =
  ts_New :: "string \<Rightarrow> 't"
  ts_Parse :: "string \<Rightarrow> string \<Rightarrow> 't \<Rightarrow> goerr option \<times> 't"
  ts_Clone :: "'t \<Rightarrow> 't res"
  ts_Execute :: "'t \<Rightarrow> string \<Rightarrow> 'd \<Rightarrow> string \<times> goerr option"

text \<open>The pages: their set and their name in it. A page name in an error is one that needs no escapes.\<close>

type_synonym 't Renderer = "(string, 't \<times> string) gomap"

definition readFile :: "string \<Rightarrow> string \<Rightarrow> string res \<Rightarrow> string \<times> string res" where
  "readFile file strip content = (go_TrimPrefix file strip, content)"

definition visit_sub :: "string \<Rightarrow> (string \<Rightarrow> string \<Rightarrow> 's \<Rightarrow> goerr option \<times> 's) \<Rightarrow> 's visit" where
  "visit_sub subDir parseTemplate p base node err s =
     (if p = subDir \<and> Is err (SentinelTarget ErrNotExist) then (None, s)
      else if err \<noteq> None then (err, s)
      else
        (case node of
           Some (Regular content) \<Rightarrow>
             if path_Ext base \<noteq> ''.tpl'' then (None, s)
             else (case readFile p (subDir @ ''/'') content of
                     (name, Inl err) \<Rightarrow> (Some err, s)
                   | (name, Inr b) \<Rightarrow> parseTemplate name b s)
         | _ \<Rightarrow> (None, s)))"

definition walkSubDir :: "fs_FS \<Rightarrow> string \<Rightarrow> (string \<Rightarrow> string \<Rightarrow> 's \<Rightarrow> goerr option \<times> 's) \<Rightarrow> 's \<Rightarrow> goerr option \<times> 's" where
  "walkSubDir tpls subDir parseTemplate s = WalkDir tpls subDir (visit_sub subDir parseTemplate) s"

definition parse_common :: "('t, 'd) template_pkg \<Rightarrow> string \<Rightarrow> string \<Rightarrow> 't option \<Rightarrow> goerr option \<times> 't option" where
  "parse_common P name content commonT =
     (let t = (case commonT of None \<Rightarrow> ts_New P name | Some t \<Rightarrow> t)
      in case ts_Parse P name content t of (err, t') \<Rightarrow> (err, Some t'))"

definition parse_page :: "('t, 'd) template_pkg \<Rightarrow> 't option \<Rightarrow> string \<Rightarrow> string \<Rightarrow> 't Renderer \<Rightarrow> goerr option \<times> 't Renderer" where
  "parse_page P commonT name content pages =
     (case (case commonT of None \<Rightarrow> Inr (ts_New P name) | Some t \<Rightarrow> ts_Clone P t) of
        Inl err \<Rightarrow> (Some (Errorf_w ''webpages: clone common templates: '' err), pages)
      | Inr t \<Rightarrow> (case ts_Parse P name content t of (err, t') \<Rightarrow> (err, gomap_set name (t', name) pages)))"

definition New_renderer :: "('t, 'd) template_pkg \<Rightarrow> fs_FS \<Rightarrow> 't Renderer res" where
  "New_renderer P tpls =
     (case walkSubDir tpls ''common'' (parse_common P) None of
        (Some err, _) \<Rightarrow> Inl err
      | (None, commonT) \<Rightarrow>
          (case walkSubDir tpls ''pages'' (parse_page P commonT) [] of
             (Some err, _) \<Rightarrow> Inl err
           | (None, pages) \<Rightarrow> Inr pages))"

definition Render :: "('t, 'd) template_pkg \<Rightarrow> 't Renderer \<Rightarrow> string \<Rightarrow> 'd \<Rightarrow> string \<times> goerr option" where
  "Render P r page data =
     (case map_of r page of
        None \<Rightarrow> ([], Some (ErrorString (''webpages: no such page: '' @ [CHR 0x22] @ page @ [CHR 0x22])))
      | Some (t, name) \<Rightarrow> ts_Execute P t name data)"

definition Renderer_Exists :: "'t Renderer \<Rightarrow> string \<Rightarrow> bool" where
  "Renderer_Exists r page \<longleftrightarrow> map_of r page \<noteq> None"

section \<open>The files that are parsed\<close>

text \<open>
  The reference: the template files of a directory in order, with their paths, and where reading
  fails.
\<close>

datatype item = Tpl string string | Broken goerr

fun node_items :: "string \<Rightarrow> string \<Rightarrow> fs_node \<Rightarrow> item list"
  and entries_items :: "string \<Rightarrow> (string \<times> fs_node) list \<Rightarrow> item list" where
  "node_items path name (Regular content) =
     (if path_Ext name = ''.tpl'' then [case content of Inl err \<Rightarrow> Broken err | Inr b \<Rightarrow> Tpl path b] else [])"
| "node_items path name Irregular = []"
| "node_items path name (Directory entries) = entries_items path entries"
| "node_items path name (Unreadable err) = [Broken err]"
| "entries_items path [] = []"
| "entries_items path ((name, node) # entries) =
     node_items (path_Join path name) name node @ entries_items path entries"

fun run_items :: "(string \<Rightarrow> string \<Rightarrow> 's \<Rightarrow> goerr option \<times> 's) \<Rightarrow> item list \<Rightarrow> 's \<Rightarrow> goerr option \<times> 's" where
  "run_items parse [] s = (None, s)"
| "run_items parse (Broken err # is) s = (Some err, s)"
| "run_items parse (Tpl path b # is) s =
     (case parse path b s of (Some err, s1) \<Rightarrow> (Some err, s1) | (None, s1) \<Rightarrow> run_items parse is s1)"

lemma run_items_append:
  "run_items parse (is @ js) s = (case run_items parse is s of (Some err, s1) \<Rightarrow> (Some err, s1) | (None, s1) \<Rightarrow> run_items parse js s1)"
  by (induction parse "is" s rule: run_items.induct) (auto split: prod.splits option.splits)

text \<open>The templates below a directory, by their names: the paths without the directory.\<close>

definition strip_item :: "string \<Rightarrow> item \<Rightarrow> item" where
  "strip_item subDir i = (case i of Tpl path b \<Rightarrow> Tpl (go_TrimPrefix path (subDir @ ''/'')) b | Broken err \<Rightarrow> Broken err)"

definition missing_dir :: "goerr \<Rightarrow> item list" where
  "missing_dir err = (if Is (Some err) (SentinelTarget ErrNotExist) then [] else [Broken err])"

definition sub_items :: "fs_FS \<Rightarrow> string \<Rightarrow> item list" where
  "sub_items tpls subDir =
     (case tpls subDir of
        Inl err \<Rightarrow> missing_dir err
      | Inr (Unreadable err) \<Rightarrow> missing_dir err
      | Inr node \<Rightarrow> map (strip_item subDir) (node_items subDir subDir node))"

lemma visit_node_items:
  "length subDir < length path \<Longrightarrow>
     walk_node (visit_sub subDir parse) path name node s = run_items parse (map (strip_item subDir) (node_items path name node)) s"
  "length subDir \<le> length path \<Longrightarrow>
     walk_entries (visit_sub subDir parse) path entries s = run_items parse (map (strip_item subDir) (entries_items path entries)) s"
proof (induction path name node and path entries arbitrary: s and s rule: node_items_entries_items.induct)
  case (1 path name content)
  then show ?case
    by (auto simp: visit_sub_def readFile_def strip_item_def Is.simps(1) split: sum.splits prod.splits option.splits)
next
  case (6 path name node entries)
  have len: "length subDir < length (path_Join path name)" using 6(3) by (simp add: path_Join_def)
  show ?case using 6(1) [OF len] 6(2) [OF 6(3)] by (auto simp: run_items_append split: prod.splits option.splits)
qed (auto simp: visit_sub_def strip_item_def Is.simps(1) split: prod.splits option.splits)

lemma walkSubDir_items: "walkSubDir tpls subDir parse s = run_items parse (sub_items tpls subDir) s"
proof (cases "tpls subDir")
  case (Inl err)
  then show ?thesis
    by (simp add: walkSubDir_def WalkDir_def sub_items_def missing_dir_def visit_sub_def)
next
  case (Inr node)
  then show ?thesis
    by (cases node)
      (auto simp: walkSubDir_def WalkDir_def sub_items_def missing_dir_def visit_sub_def Is.simps(1) readFile_def strip_item_def
        visit_node_items(2) split: sum.splits prod.splits option.splits)
qed

lemma run_items_ok:
  "run_items parse items s = (None, s') \<Longrightarrow> (\<forall>err. Broken err \<notin> set items)"
  by (induction parse items s rule: run_items.induct) (auto split: prod.splits option.splits)

text \<open>The names and contents of the templates.\<close>

fun item_files :: "item list \<Rightarrow> (string \<times> string) list" where
  "item_files [] = []"
| "item_files (Tpl name b # is) = (name, b) # item_files is"
| "item_files (Broken err # is) = item_files is"

definition page_set :: "('t, 'd) template_pkg \<Rightarrow> 't option \<Rightarrow> string \<Rightarrow> string \<Rightarrow> 't \<Rightarrow> bool" where
  "page_set P commonT name content t \<longleftrightarrow>
     (\<exists>t0. (case commonT of None \<Rightarrow> t0 = ts_New P name | Some ct \<Rightarrow> ts_Clone P ct = Inr t0) \<and> ts_Parse P name content t0 = (None, t))"

lemma parse_page_ok:
  assumes "parse_page P commonT name content pages = (None, pages')"
  shows "\<exists>t. page_set P commonT name content t \<and> pages' = gomap_set name (t, name) pages"
  using assms by (auto simp: parse_page_def page_set_def split: sum.splits prod.splits option.splits)

lemma run_pages:
  "run_items (parse_page P commonT) items pages = (None, pages') \<Longrightarrow> distinct (map fst (item_files items)) \<Longrightarrow>
     (case map_of (item_files items) name of
        None \<Rightarrow> map_of pages' name = map_of pages name
      | Some content \<Rightarrow> \<exists>t. page_set P commonT name content t \<and> map_of pages' name = Some (t, name))"
proof (induction "parse_page P commonT" items pages rule: run_items.induct)
  case (3 path b "is" pages)
  then obtain pages1 where p1: "parse_page P commonT path b pages = (None, pages1)"
    "run_items (parse_page P commonT) is pages1 = (None, pages')" by (auto split: prod.splits option.splits)
  obtain t where t: "page_set P commonT path b t" "pages1 = gomap_set path (t, path) pages" using parse_page_ok [OF p1(1)] by blast
  from 3(3) have new: "map_of (item_files is) path = None" by (simp add: map_of_eq_None_iff)
  note ih = 3(1) [OF p1(1) [symmetric] refl p1(2)]
  show ?case
  proof (cases "name = path")
    case True
    with ih 3(3) t new show ?thesis by simp
  next
    case False
    then have "map_of (item_files (Tpl path b # is)) name = map_of (item_files is) name" "map_of pages1 name = map_of pages name"
      using t(2) by simp_all
    with ih 3(3) show ?thesis by (cases "map_of (item_files is) name") simp_all
  qed
qed auto

text \<open>What makes the walk stop at a template file; the failure of a page depends on no other page.\<close>

definition item_fails :: "(string \<Rightarrow> string \<Rightarrow> 's \<Rightarrow> goerr option \<times> 's) \<Rightarrow> 's \<Rightarrow> item \<Rightarrow> goerr \<Rightarrow> bool" where
  "item_fails parse s i err \<longleftrightarrow>
     (case i of Broken e \<Rightarrow> err = e | Tpl name content \<Rightarrow> fst (parse name content s) = Some err)"

definition page_error :: "('t, 'd) template_pkg \<Rightarrow> 't option \<Rightarrow> item \<Rightarrow> goerr option" where
  "page_error P commonT i =
     (case i of
        Broken err \<Rightarrow> Some err
      | Tpl name content \<Rightarrow>
          (case (case commonT of None \<Rightarrow> Inr (ts_New P name) | Some t \<Rightarrow> ts_Clone P t) of
             Inl err \<Rightarrow> Some (Errorf_w ''webpages: clone common templates: '' err)
           | Inr t \<Rightarrow> fst (ts_Parse P name content t)))"

lemma run_items_fails:
  "run_items parse items s = (Some err, s') \<Longrightarrow>
     \<exists>before i after s1. items = before @ i # after \<and> run_items parse before s = (None, s1) \<and> item_fails parse s1 i err"
proof (induction parse items s rule: run_items.induct)
  case (2 parse e "is" s)
  then have "item_fails parse s (Broken e) err" by (simp add: item_fails_def)
  then show ?case by (intro exI [of _ "[]"]) auto
next
  case (3 parse name b "is" s)
  show ?case
  proof (cases "parse name b s")
    case (Pair e s1)
    show ?thesis
    proof (cases e)
      case None
      with 3(1) [OF Pair [symmetric] None] 3(2) Pair obtain before i after s2
        where "is = before @ i # after" "run_items parse before s1 = (None, s2)" "item_fails parse s2 i err" by auto
      with Pair None show ?thesis by (intro exI [of _ "Tpl name b # before"]) auto
    next
      case (Some e')
      with 3(2) Pair have "item_fails parse s (Tpl name b) err" by (simp add: item_fails_def)
      then show ?thesis by (intro exI [of _ "[]"]) auto
    qed
  qed
qed simp

lemma page_fails: "item_fails (parse_page P commonT) pages i err \<longleftrightarrow> page_error P commonT i = Some err"
  by (auto simp: item_fails_def page_error_def parse_page_def split: item.splits option.splits sum.splits prod.splits)

lemma pages_pass:
  "run_items (parse_page P commonT) items pages = (None, pages') \<Longrightarrow> i \<in> set items \<Longrightarrow> page_error P commonT i = None"
proof (induction "parse_page P commonT" items pages rule: run_items.induct)
  case (3 name b "is" pages)
  then obtain pages1 where p1: "parse_page P commonT name b pages = (None, pages1)"
    "run_items (parse_page P commonT) is pages1 = (None, pages')" by (auto split: prod.splits option.splits)
  have "page_error P commonT (Tpl name b) = None"
    using p1(1) page_fails [of P commonT pages "Tpl name b"] by (cases "page_error P commonT (Tpl name b)") (auto simp: item_fails_def)
  with 3(1) [OF p1(1) [symmetric] refl p1(2)] 3(3) show ?case by auto
qed auto

text \<open>Loading is the run over the flat list of template files.\<close>

lemma New_reference:
  "New_renderer P tpls =
     (case run_items (parse_common P) (sub_items tpls ''common'') None of
        (Some err, _) \<Rightarrow> Inl err
      | (None, commonT) \<Rightarrow>
          (case run_items (parse_page P commonT) (sub_items tpls ''pages'') [] of
             (Some err, _) \<Rightarrow> Inl err
           | (None, pages) \<Rightarrow> Inr pages))"
  unfolding New_renderer_def walkSubDir_items ..

lemma New_fails:
  assumes "New_renderer P tpls = Inl err"
  shows "(\<exists>before i after commonT. sub_items tpls ''common'' = before @ i # after
        \<and> run_items (parse_common P) before None = (None, commonT) \<and> item_fails (parse_common P) commonT i err)
    \<or> (\<exists>commonT before i after. run_items (parse_common P) (sub_items tpls ''common'') None = (None, commonT)
        \<and> sub_items tpls ''pages'' = before @ i # after \<and> page_error P commonT i = Some err
        \<and> (\<forall>j \<in> set before. page_error P commonT j = None))"
proof (cases "run_items (parse_common P) (sub_items tpls ''common'') None")
  case (Pair e commonT)
  show ?thesis
  proof (cases e)
    case None
    with Pair assms obtain pages' where "run_items (parse_page P commonT) (sub_items tpls ''pages'') [] = (Some err, pages')"
      by (auto simp: New_reference split: prod.splits option.splits)
    from run_items_fails [OF this] obtain before i after pages where "sub_items tpls ''pages'' = before @ i # after"
      "run_items (parse_page P commonT) before [] = (None, pages)" "item_fails (parse_page P commonT) pages i err" by blast
    with Pair None pages_pass show ?thesis unfolding page_fails by metis
  next
    case (Some err')
    with Pair assms have "run_items (parse_common P) (sub_items tpls ''common'') None = (Some err, commonT)"
      by (simp add: New_reference)
    from run_items_fails [OF this] show ?thesis by blast
  qed
qed

lemma New_succeeds:
  assumes "New_renderer P tpls = Inr r" "distinct (map fst (item_files (sub_items tpls ''pages'')))"
  shows "\<exists>commonT. run_items (parse_common P) (sub_items tpls ''common'') None = (None, commonT)
    \<and> (\<forall>err. Broken err \<notin> set (sub_items tpls ''common'' @ sub_items tpls ''pages''))
    \<and> (case map_of (item_files (sub_items tpls ''pages'')) page of
         None \<Rightarrow> \<not> Renderer_Exists r page \<and> snd (Render P r page data) \<noteq> None
       | Some content \<Rightarrow> Renderer_Exists r page
           \<and> (\<exists>t. page_set P commonT page content t \<and> Render P r page data = ts_Execute P t page data))"
proof -
  from assms(1) obtain commonT where c: "run_items (parse_common P) (sub_items tpls ''common'') None = (None, commonT)"
    "run_items (parse_page P commonT) (sub_items tpls ''pages'') [] = (None, r)"
    by (auto simp: New_reference split: prod.splits option.splits)
  from run_items_ok [OF c(1)] run_items_ok [OF c(2)]
  have ok: "\<forall>err. Broken err \<notin> set (sub_items tpls ''common'' @ sub_items tpls ''pages'')" by simp
  from run_pages [OF c(2) assms(2), of page] c(1) ok show ?thesis
    by (auto simp: Renderer_Exists_def Render_def split: option.splits)
qed

text \<open>
  C29. \<open>New\<close> makes exactly the pages of the file system or fails with the first failure of its walk. A failure is that of the first
  file below \<^verbatim>\<open>common\<close>, in order, that cannot be read or parsed into the set of those before it, or else, when the common templates are
  parsed, that of the first file below \<^verbatim>\<open>pages\<close> that cannot be read, or for which the common set cannot be copied
  or its text parsed. When \<open>New\<close> succeeds, every template file of the two directories could be read, at any depth; the pages that exist are the
  names of the files below \<^verbatim>\<open>pages\<close>; and each renders its own text, parsed into a copy of the set of all common templates
  in their order, so that no page sees another. Directories that do not exist count as empty. The paths of a directory tree are distinct.
\<close>

theorem New_exact:
  assumes "distinct (map fst (item_files (sub_items tpls ''pages'')))"
  shows "case New_renderer P tpls of
      Inl err \<Rightarrow>
        (\<exists>before i after commonT. sub_items tpls ''common'' = before @ i # after
           \<and> run_items (parse_common P) before None = (None, commonT) \<and> item_fails (parse_common P) commonT i err)
        \<or> (\<exists>commonT before i after. run_items (parse_common P) (sub_items tpls ''common'') None = (None, commonT)
           \<and> sub_items tpls ''pages'' = before @ i # after \<and> page_error P commonT i = Some err
           \<and> (\<forall>j \<in> set before. page_error P commonT j = None))
    | Inr r \<Rightarrow>
        (\<exists>commonT. run_items (parse_common P) (sub_items tpls ''common'') None = (None, commonT)
           \<and> (\<forall>err. Broken err \<notin> set (sub_items tpls ''common'' @ sub_items tpls ''pages''))
           \<and> (case map_of (item_files (sub_items tpls ''pages'')) page of
                None \<Rightarrow> \<not> Renderer_Exists r page \<and> snd (Render P r page data) \<noteq> None
              | Some content \<Rightarrow> Renderer_Exists r page
                  \<and> (\<exists>t. page_set P commonT page content t \<and> Render P r page data = ts_Execute P t page data)))"
proof (cases "New_renderer P tpls")
  case (Inl err)
  then show ?thesis using New_fails [OF Inl] by simp
next
  case (Inr r)
  then show ?thesis using New_succeeds [OF Inr assms] by simp
qed

section \<open>A sample\<close>

text \<open>A package whose sets are the texts parsed so far, by name.\<close>

definition sample_pkg :: "((string, string) gomap, unit) template_pkg" where
  "sample_pkg = \<lparr>ts_New = (\<lambda>name. []), ts_Parse = (\<lambda>name content t. (None, gomap_set name content t)),
     ts_Clone = (\<lambda>t. Inr t), ts_Execute = (\<lambda>t name d. (concat (map snd t), None))\<rparr>"

definition sample_tpls :: fs_FS where
  "sample_tpls dir =
     (if dir = ''common'' then Inr (Directory [(''base.tpl'', Regular (Inr ''<b>'')), (''notes.txt'', Regular (Inr ''x''))])
      else if dir = ''pages''
      then Inr (Directory [(''app'', Directory [(''login.tpl'', Regular (Inr ''login''))]), (''home.tpl'', Regular (Inr ''home''))])
      else Inl (ErrNotExist_at dir))"

text \<open>The same pages after one that cannot be read.\<close>

definition broken_tpls :: fs_FS where
  "broken_tpls dir =
     (if dir = ''pages''
      then Inr (Directory [(''app'', Unreadable (OpaqueErr ''denied'')), (''home.tpl'', Regular (Inr ''home''))])
      else Inl (ErrNotExist_at dir))"

theorem New_exact_witness:
  "(\<exists>r. New_renderer sample_pkg sample_tpls = Inr r \<and> Renderer_Exists r ''app/login.tpl'' \<and> \<not> Renderer_Exists r ''login.tpl''
     \<and> Render sample_pkg r ''app/login.tpl'' () = (''<b>login'', None))
   \<and> New_renderer sample_pkg broken_tpls = Inl (OpaqueErr ''denied'')"
proof (rule conjI)
  have items: "sub_items sample_tpls ''pages'' = [Tpl ''app/login.tpl'' ''login'', Tpl ''home.tpl'' ''home'']"
    "sub_items sample_tpls ''common'' = [Tpl ''base.tpl'' ''<b>'']" by code_simp+
  have "\<exists>r. New_renderer sample_pkg sample_tpls = Inr r"
    by (simp add: New_renderer_def walkSubDir_items items parse_common_def parse_page_def sample_pkg_def)
  then obtain r where r: "New_renderer sample_pkg sample_tpls = Inr r" by blast
  have d: "distinct (map fst (item_files (sub_items sample_tpls ''pages'')))" by (simp add: items)
  have "Renderer_Exists r ''app/login.tpl'' \<and> Render sample_pkg r ''app/login.tpl'' () = (''<b>login'', None)"
    using New_exact [OF d, of sample_pkg "''app/login.tpl''" "()", unfolded r sum.case]
    by (auto simp: items page_set_def sample_pkg_def parse_common_def gomap_set_def)
  moreover have "\<not> Renderer_Exists r ''login.tpl''"
    using New_exact [OF d, of sample_pkg "''login.tpl''" "()", unfolded r sum.case] by (auto simp: items)
  ultimately show "\<exists>r. New_renderer sample_pkg sample_tpls = Inr r \<and> Renderer_Exists r ''app/login.tpl''
      \<and> \<not> Renderer_Exists r ''login.tpl'' \<and> Render sample_pkg r ''app/login.tpl'' () = (''<b>login'', None)" using r by blast
next
  have items: "sub_items broken_tpls ''pages'' = [Broken (OpaqueErr ''denied''), Tpl ''home.tpl'' ''home'']"
    "sub_items broken_tpls ''common'' = []" by code_simp+
  have d: "distinct (map fst (item_files (sub_items broken_tpls ''pages'')))" by (simp add: items)
  show "New_renderer sample_pkg broken_tpls = Inl (OpaqueErr ''denied'')"
    using New_exact [OF d, of sample_pkg "[]" "()"]
    by (auto simp: items page_error_def sample_pkg_def Cons_eq_append_conv split: sum.splits)
qed

end
