(* ===== verification/Adapters.thy ===== *)
theory Adapters
  imports Sqltx
begin

text \<open>
  The adapters of \<^verbatim>\<open>database/sql\<close> (\<^verbatim>\<open>src/pgdb/sqladapt/sqladapt.go\<close>) and of pgx
  (\<^verbatim>\<open>src/pgdb/pgxadapt/pgxadapt.go\<close>) to the interfaces of \<^verbatim>\<open>pgdb\<close>. The libraries behind them are records of
  operations on a world: pools, connections and transactions are handles, statements come with
  their arguments, and a destination is the value that is scanned. The rows of a query are a state with
  the operations of a record, whose contract is a locale.
\<close>

section \<open>Interfaces\<close>

datatype handle = SqlDB nat | SqlConn nat | SqlTx nat | PgxPool nat | PgxConn nat | PgxTx nat

text \<open>The type of the argument of \<open>As\<close>; the result is what \<open>As\<close> stores there.\<close>

datatype as_target = PtrSqlDB | PtrSqlConn | PtrSqlTx | PtrPgxPool | PtrPgxConn | PtrPgxTx | PtrOther

record sql_Result =
  LastInsertId :: "int res"
  RowsAffected :: "int res"

record ('c, 'v) cursor_ops =
  cur_Next :: "'c \<Rightarrow> bool \<times> 'c"
  cur_Err :: "'c \<Rightarrow> goerr option"
  cur_Close :: "'c \<Rightarrow> goerr option \<times> 'c"
  cur_Scan :: "'c \<Rightarrow> (goerr option \<times> 'v option) \<times> 'c" \<comment> \<open>the error, and what was stored\<close>

text \<open>The rows of a query and the scanning of the current one.\<close>

record ('rs, 'v) rows_ops =
  rows_Next :: "'rs \<Rightarrow> bool \<times> 'rs"
  rows_Err :: "'rs \<Rightarrow> goerr option"
  rows_Close :: "'rs \<Rightarrow> goerr option \<times> 'rs"
  scan_ScanRow :: "'rs \<Rightarrow> (goerr option \<times> 'v option) \<times> 'rs"

text \<open>An error of the scanning library for a missing row becomes \<^verbatim>\<open>sql.ErrNoRows\<close>.\<close>

definition not_found :: "(goerr \<Rightarrow> bool) \<Rightarrow> 'v res \<times> 'w \<Rightarrow> 'v res \<times> 'w" where
  "not_found NotFound r =
     (case r of
        (Inl err, w) \<Rightarrow> (Inl (if NotFound err then Errorf_w ''not found: '' (Sentinel ErrNoRows) else err), w)
      | (Inr x, w) \<Rightarrow> (Inr x, w))"

section \<open>The adapter of database/sql\<close>

record ('w, 'x, 's, 'v, 'rs) sql_lib =
  sql_BeginTx :: "handle \<Rightarrow> sql_TxOptions option \<Rightarrow> 'w \<Rightarrow> nat res \<times> 'w"
  sql_Commit :: "nat \<Rightarrow> 'w \<Rightarrow> goerr option \<times> 'w"
  sql_Rollback :: "nat \<Rightarrow> 'w \<Rightarrow> goerr option \<times> 'w"
  sql_Conn :: "nat \<Rightarrow> 'w \<Rightarrow> nat res \<times> 'w"
  sql_Close :: "handle \<Rightarrow> 'w \<Rightarrow> goerr option \<times> 'w"
  sql_ExecContext :: "handle \<Rightarrow> 'x \<Rightarrow> 'w \<Rightarrow> sql_Result res \<times> 'w"
  sql_QueryContext :: "handle \<Rightarrow> 's \<Rightarrow> 'w \<Rightarrow> 'rs res \<times> 'w"
  sqlscan_Get :: "handle \<Rightarrow> 's \<Rightarrow> 'w \<Rightarrow> 'v res \<times> 'w"
  sqlscan_Select :: "handle \<Rightarrow> 's \<Rightarrow> 'w \<Rightarrow> 'v list res \<times> 'w"
  sqlscan_NotFound :: "goerr \<Rightarrow> bool"

text \<open>A cursor has rows, or the error of the query.\<close>

record 'rs sql_cursor =
  sc_rows :: "'rs option"
  sc_initErr :: "goerr option"

definition sql_cursor_of :: "'rs res \<times> 'w \<Rightarrow> 'rs sql_cursor \<times> 'w" where
  "sql_cursor_of r = (case r of
       (Inl err, w) \<Rightarrow> (\<lparr>sc_rows = None, sc_initErr = Some err\<rparr>, w)
     | (Inr rows, w) \<Rightarrow> (\<lparr>sc_rows = Some rows, sc_initErr = None\<rparr>, w))"

definition sql_db_As :: "nat \<Rightarrow> as_target \<Rightarrow> handle option" where
  "sql_db_As d i = (if i = PtrSqlDB then Some (SqlDB d) else None)"

definition sql_db_BeginTx :: "('w, 'x, 's, 'v, 'rs) sql_lib \<Rightarrow> nat \<Rightarrow> sql_TxOptions option \<Rightarrow> 'w \<Rightarrow> nat res \<times> 'w" where
  "sql_db_BeginTx L d opts w = sql_BeginTx L (SqlDB d) opts w"

definition sql_db_Close :: "('w, 'x, 's, 'v, 'rs) sql_lib \<Rightarrow> nat \<Rightarrow> 'w \<Rightarrow> goerr option \<times> 'w" where
  "sql_db_Close L d w = sql_Close L (SqlDB d) w"

definition sql_db_Conn :: "('w, 'x, 's, 'v, 'rs) sql_lib \<Rightarrow> nat \<Rightarrow> 'w \<Rightarrow> nat res \<times> 'w" where
  "sql_db_Conn L d w = sql_Conn L d w"

definition sql_db_Exec :: "('w, 'x, 's, 'v, 'rs) sql_lib \<Rightarrow> nat \<Rightarrow> 'x \<Rightarrow> 'w \<Rightarrow> sql_Result res \<times> 'w" where
  "sql_db_Exec L d stmt w = sql_ExecContext L (SqlDB d) stmt w"

definition sql_db_QueryOne :: "('w, 'x, 's, 'v, 'rs) sql_lib \<Rightarrow> nat \<Rightarrow> 's \<Rightarrow> 'w \<Rightarrow> 'v res \<times> 'w" where
  "sql_db_QueryOne L d stmt w = not_found (sqlscan_NotFound L) (sqlscan_Get L (SqlDB d) stmt w)"

definition sql_db_QueryMany :: "('w, 'x, 's, 'v, 'rs) sql_lib \<Rightarrow> nat \<Rightarrow> 's \<Rightarrow> 'w \<Rightarrow> 'v list res \<times> 'w" where
  "sql_db_QueryMany L d stmt w = sqlscan_Select L (SqlDB d) stmt w"

definition sql_db_Cursor :: "('w, 'x, 's, 'v, 'rs) sql_lib \<Rightarrow> nat \<Rightarrow> 's \<Rightarrow> 'w \<Rightarrow> 'rs sql_cursor \<times> 'w" where
  "sql_db_Cursor L d stmt w = sql_cursor_of (sql_QueryContext L (SqlDB d) stmt w)"

definition sql_conn_As :: "nat \<Rightarrow> as_target \<Rightarrow> handle option" where
  "sql_conn_As c i = (if i = PtrSqlConn then Some (SqlConn c) else None)"

definition sql_conn_BeginTx :: "('w, 'x, 's, 'v, 'rs) sql_lib \<Rightarrow> nat \<Rightarrow> sql_TxOptions option \<Rightarrow> 'w \<Rightarrow> nat res \<times> 'w" where
  "sql_conn_BeginTx L c opts w = sql_BeginTx L (SqlConn c) opts w"

definition sql_conn_Close :: "('w, 'x, 's, 'v, 'rs) sql_lib \<Rightarrow> nat \<Rightarrow> 'w \<Rightarrow> goerr option \<times> 'w" where
  "sql_conn_Close L c w = sql_Close L (SqlConn c) w"

definition sql_conn_Exec :: "('w, 'x, 's, 'v, 'rs) sql_lib \<Rightarrow> nat \<Rightarrow> 'x \<Rightarrow> 'w \<Rightarrow> sql_Result res \<times> 'w" where
  "sql_conn_Exec L c stmt w = sql_ExecContext L (SqlConn c) stmt w"

definition sql_conn_QueryOne :: "('w, 'x, 's, 'v, 'rs) sql_lib \<Rightarrow> nat \<Rightarrow> 's \<Rightarrow> 'w \<Rightarrow> 'v res \<times> 'w" where
  "sql_conn_QueryOne L c stmt w = not_found (sqlscan_NotFound L) (sqlscan_Get L (SqlConn c) stmt w)"

definition sql_conn_QueryMany :: "('w, 'x, 's, 'v, 'rs) sql_lib \<Rightarrow> nat \<Rightarrow> 's \<Rightarrow> 'w \<Rightarrow> 'v list res \<times> 'w" where
  "sql_conn_QueryMany L c stmt w = sqlscan_Select L (SqlConn c) stmt w"

definition sql_conn_Cursor :: "('w, 'x, 's, 'v, 'rs) sql_lib \<Rightarrow> nat \<Rightarrow> 's \<Rightarrow> 'w \<Rightarrow> 'rs sql_cursor \<times> 'w" where
  "sql_conn_Cursor L c stmt w = sql_cursor_of (sql_QueryContext L (SqlConn c) stmt w)"

definition sql_tx_As :: "nat \<Rightarrow> as_target \<Rightarrow> handle option" where
  "sql_tx_As t i = (if i = PtrSqlTx then Some (SqlTx t) else None)"

definition sql_tx_Exec :: "('w, 'x, 's, 'v, 'rs) sql_lib \<Rightarrow> nat \<Rightarrow> 'x \<Rightarrow> 'w \<Rightarrow> sql_Result res \<times> 'w" where
  "sql_tx_Exec L t stmt w = sql_ExecContext L (SqlTx t) stmt w"

definition sql_tx_QueryOne :: "('w, 'x, 's, 'v, 'rs) sql_lib \<Rightarrow> nat \<Rightarrow> 's \<Rightarrow> 'w \<Rightarrow> 'v res \<times> 'w" where
  "sql_tx_QueryOne L t stmt w = not_found (sqlscan_NotFound L) (sqlscan_Get L (SqlTx t) stmt w)"

definition sql_tx_QueryMany :: "('w, 'x, 's, 'v, 'rs) sql_lib \<Rightarrow> nat \<Rightarrow> 's \<Rightarrow> 'w \<Rightarrow> 'v list res \<times> 'w" where
  "sql_tx_QueryMany L t stmt w = sqlscan_Select L (SqlTx t) stmt w"

definition sql_tx_Cursor :: "('w, 'x, 's, 'v, 'rs) sql_lib \<Rightarrow> nat \<Rightarrow> 's \<Rightarrow> 'w \<Rightarrow> 'rs sql_cursor \<times> 'w" where
  "sql_tx_Cursor L t stmt w = sql_cursor_of (sql_QueryContext L (SqlTx t) stmt w)"

definition sql_tx_Commit :: "('w, 'x, 's, 'v, 'rs) sql_lib \<Rightarrow> nat \<Rightarrow> 'w \<Rightarrow> goerr option \<times> 'w" where
  "sql_tx_Commit L t w = sql_Commit L t w"

definition sql_tx_Rollback :: "('w, 'x, 's, 'v, 'rs) sql_lib \<Rightarrow> nat \<Rightarrow> 'w \<Rightarrow> goerr option \<times> 'w" where
  "sql_tx_Rollback L t w = sql_Rollback L t w"

definition sql_cursor_Close :: "('rs, 'v) rows_ops \<Rightarrow> 'rs sql_cursor \<Rightarrow> goerr option \<times> 'rs sql_cursor" where
  "sql_cursor_Close R c =
     (case sc_rows c of None \<Rightarrow> (None, c) | Some rs \<Rightarrow> (case rows_Close R rs of (err, rs') \<Rightarrow> (err, c\<lparr>sc_rows := Some rs'\<rparr>)))"

definition sql_cursor_Err :: "('rs, 'v) rows_ops \<Rightarrow> 'rs sql_cursor \<Rightarrow> goerr option" where
  "sql_cursor_Err R c = (case sc_rows c of None \<Rightarrow> sc_initErr c | Some rs \<Rightarrow> rows_Err R rs)"

definition sql_cursor_Next :: "('rs, 'v) rows_ops \<Rightarrow> 'rs sql_cursor \<Rightarrow> bool \<times> 'rs sql_cursor" where
  "sql_cursor_Next R c =
     (case sc_rows c of None \<Rightarrow> (False, c) | Some rs \<Rightarrow> (case rows_Next R rs of (b, rs') \<Rightarrow> (b, c\<lparr>sc_rows := Some rs'\<rparr>)))"

definition sql_cursor_Scan :: "('rs, 'v) rows_ops \<Rightarrow> 'rs sql_cursor \<Rightarrow> (goerr option \<times> 'v option) \<times> 'rs sql_cursor" where
  "sql_cursor_Scan R c =
     (case sc_rows c of
        None \<Rightarrow> ((sc_initErr c, None), c)
      | Some rs \<Rightarrow> (case scan_ScanRow R rs of (x, rs') \<Rightarrow> (x, c\<lparr>sc_rows := Some rs'\<rparr>)))"

definition sql_cursor_ops :: "('rs, 'v) rows_ops \<Rightarrow> ('rs sql_cursor, 'v) cursor_ops" where
  "sql_cursor_ops R = \<lparr>cur_Next = sql_cursor_Next R, cur_Err = sql_cursor_Err R, cur_Close = sql_cursor_Close R,
     cur_Scan = sql_cursor_Scan R\<rparr>"

text \<open>What \<^verbatim>\<open>pgdb.Tx\<close> runs on: a pool, and the transactions it begins.\<close>

definition sql_driver :: "('w, 'x, 's, 'v, 'rs) sql_lib \<Rightarrow> nat \<Rightarrow> 'w driver" where
  "sql_driver L d = \<lparr>BeginTx = sql_db_BeginTx L d, Commit = sql_tx_Commit L, Rollback = sql_tx_Rollback L\<rparr>"

section \<open>Options of pgx transactions\<close>

record pgx_TxOptions =
  IsoLevel :: string
  AccessMode :: string
  DeferrableMode :: string

definition pgx_no_options :: pgx_TxOptions where
  "pgx_no_options = \<lparr>IsoLevel = [], AccessMode = [], DeferrableMode = []\<rparr>"

definition pgx_Serializable :: string where "pgx_Serializable = ''serializable''"
definition pgx_RepeatableRead :: string where "pgx_RepeatableRead = ''repeatable read''"
definition pgx_ReadCommitted :: string where "pgx_ReadCommitted = ''read committed''"
definition pgx_ReadUncommitted :: string where "pgx_ReadUncommitted = ''read uncommitted''"
definition pgx_ReadOnly :: string where "pgx_ReadOnly = ''read only''"

text \<open>The isolation levels of \<^verbatim>\<open>database/sql\<close>.\<close>

definition LevelReadUncommitted :: int where "LevelReadUncommitted = 1"
definition LevelReadCommitted :: int where "LevelReadCommitted = 2"
definition LevelWriteCommitted :: int where "LevelWriteCommitted = 3"
definition LevelRepeatableRead :: int where "LevelRepeatableRead = 4"
definition LevelSnapshot :: int where "LevelSnapshot = 5"
definition LevelSerializable :: int where "LevelSerializable = 6"
definition LevelLinearizable :: int where "LevelLinearizable = 7"

definition no_options :: sql_TxOptions where "no_options = \<lparr>Isolation = 0, ReadOnly = False\<rparr>"

definition ToTxOptions :: "pgx_TxOptions \<Rightarrow> sql_TxOptions option" where
  "ToTxOptions opts =
     (let isolation =
            (if IsoLevel opts = pgx_Serializable then LevelSerializable
             else if IsoLevel opts = pgx_RepeatableRead then LevelRepeatableRead
             else if IsoLevel opts = pgx_ReadCommitted then LevelReadCommitted
             else if IsoLevel opts = pgx_ReadUncommitted then LevelReadUncommitted
             else 0);
          sqlOpts = \<lparr>Isolation = isolation, ReadOnly = (AccessMode opts = pgx_ReadOnly)\<rparr>
      in if sqlOpts = no_options then None else Some sqlOpts)"

definition ToPgxTxOptions :: "sql_TxOptions option \<Rightarrow> pgx_TxOptions" where
  "ToPgxTxOptions opts =
     (case opts of
        None \<Rightarrow> pgx_no_options
      | Some o' \<Rightarrow>
          if o' = no_options then pgx_no_options
          else pgx_no_options\<lparr>AccessMode := (if ReadOnly o' then pgx_ReadOnly else []),
                 IsoLevel :=
                   (if Isolation o' = LevelSerializable then pgx_Serializable
                    else if Isolation o' = LevelRepeatableRead then pgx_RepeatableRead
                    else if Isolation o' = LevelReadCommitted then pgx_ReadCommitted
                    else if Isolation o' = LevelReadUncommitted then pgx_ReadUncommitted
                    else [])\<rparr>)"

section \<open>The adapter of pgx\<close>

text \<open>A query gives rows in any case; the error that it gives too is in them.\<close>

record ('w, 'x, 's, 'v, 'rs, 'tag) pgx_lib =
  pgx_BeginTx :: "handle \<Rightarrow> pgx_TxOptions \<Rightarrow> 'w \<Rightarrow> nat res \<times> 'w"
  pgx_Commit :: "nat \<Rightarrow> 'w \<Rightarrow> goerr option \<times> 'w"
  pgx_Rollback :: "nat \<Rightarrow> 'w \<Rightarrow> goerr option \<times> 'w"
  pgx_Acquire :: "nat \<Rightarrow> 'w \<Rightarrow> nat res \<times> 'w"
  pgx_Close :: "nat \<Rightarrow> 'w \<Rightarrow> 'w"
  pgx_Release :: "nat \<Rightarrow> 'w \<Rightarrow> 'w"
  pgx_Exec :: "handle \<Rightarrow> 'x \<Rightarrow> 'w \<Rightarrow> 'tag res \<times> 'w"
  pgx_Query :: "handle \<Rightarrow> 's \<Rightarrow> 'w \<Rightarrow> ('rs \<times> goerr option) \<times> 'w"
  pgxscan_Get :: "handle \<Rightarrow> 's \<Rightarrow> 'w \<Rightarrow> 'v res \<times> 'w"
  pgxscan_Select :: "handle \<Rightarrow> 's \<Rightarrow> 'w \<Rightarrow> 'v list res \<times> 'w"
  pgxscan_NotFound :: "goerr \<Rightarrow> bool"
  tag_RowsAffected :: "'tag \<Rightarrow> int"

definition ToSQLResult :: "('w, 'x, 's, 'v, 'rs, 'tag) pgx_lib \<Rightarrow> 'tag \<Rightarrow> sql_Result" where
  "ToSQLResult L tag = \<lparr>LastInsertId = Inl (ErrorString ''unsupported: use postgres INSERT..RETURNING instead''),
     RowsAffected = Inr (tag_RowsAffected L tag)\<rparr>"

definition pgx_exec :: "('w, 'x, 's, 'v, 'rs, 'tag) pgx_lib \<Rightarrow> handle \<Rightarrow> 'x \<Rightarrow> 'w \<Rightarrow> sql_Result res \<times> 'w" where
  "pgx_exec L h stmt w =
     (case pgx_Exec L h stmt w of (Inl err, w1) \<Rightarrow> (Inl err, w1) | (Inr tag, w1) \<Rightarrow> (Inr (ToSQLResult L tag), w1))"

definition pgx_db_As :: "nat \<Rightarrow> as_target \<Rightarrow> handle option" where
  "pgx_db_As d i = (if i = PtrPgxPool then Some (PgxPool d) else None)"

definition pgx_db_BeginTx :: "('w, 'x, 's, 'v, 'rs, 'tag) pgx_lib \<Rightarrow> nat \<Rightarrow> sql_TxOptions option \<Rightarrow> 'w \<Rightarrow> nat res \<times> 'w" where
  "pgx_db_BeginTx L d opts w = pgx_BeginTx L (PgxPool d) (ToPgxTxOptions opts) w"

definition pgx_db_Close :: "('w, 'x, 's, 'v, 'rs, 'tag) pgx_lib \<Rightarrow> nat \<Rightarrow> 'w \<Rightarrow> goerr option \<times> 'w" where
  "pgx_db_Close L d w = (None, pgx_Close L d w)"

definition pgx_db_Conn :: "('w, 'x, 's, 'v, 'rs, 'tag) pgx_lib \<Rightarrow> nat \<Rightarrow> 'w \<Rightarrow> nat res \<times> 'w" where
  "pgx_db_Conn L d w = pgx_Acquire L d w"

definition pgx_db_Exec :: "('w, 'x, 's, 'v, 'rs, 'tag) pgx_lib \<Rightarrow> nat \<Rightarrow> 'x \<Rightarrow> 'w \<Rightarrow> sql_Result res \<times> 'w" where
  "pgx_db_Exec L d stmt w = pgx_exec L (PgxPool d) stmt w"

definition pgx_db_QueryOne :: "('w, 'x, 's, 'v, 'rs, 'tag) pgx_lib \<Rightarrow> nat \<Rightarrow> 's \<Rightarrow> 'w \<Rightarrow> 'v res \<times> 'w" where
  "pgx_db_QueryOne L d stmt w = not_found (pgxscan_NotFound L) (pgxscan_Get L (PgxPool d) stmt w)"

definition pgx_db_QueryMany :: "('w, 'x, 's, 'v, 'rs, 'tag) pgx_lib \<Rightarrow> nat \<Rightarrow> 's \<Rightarrow> 'w \<Rightarrow> 'v list res \<times> 'w" where
  "pgx_db_QueryMany L d stmt w = pgxscan_Select L (PgxPool d) stmt w"

definition pgx_db_Cursor :: "('w, 'x, 's, 'v, 'rs, 'tag) pgx_lib \<Rightarrow> nat \<Rightarrow> 's \<Rightarrow> 'w \<Rightarrow> 'rs \<times> 'w" where
  "pgx_db_Cursor L d stmt w = (case pgx_Query L (PgxPool d) stmt w of ((rows, _), w1) \<Rightarrow> (rows, w1))"

definition pgx_conn_As :: "nat \<Rightarrow> as_target \<Rightarrow> handle option" where
  "pgx_conn_As c i = (if i = PtrPgxConn then Some (PgxConn c) else None)"

definition pgx_conn_BeginTx :: "('w, 'x, 's, 'v, 'rs, 'tag) pgx_lib \<Rightarrow> nat \<Rightarrow> sql_TxOptions option \<Rightarrow> 'w \<Rightarrow> nat res \<times> 'w" where
  "pgx_conn_BeginTx L c opts w = pgx_BeginTx L (PgxConn c) (ToPgxTxOptions opts) w"

definition pgx_conn_Close :: "('w, 'x, 's, 'v, 'rs, 'tag) pgx_lib \<Rightarrow> nat \<Rightarrow> 'w \<Rightarrow> goerr option \<times> 'w" where
  "pgx_conn_Close L c w = (None, pgx_Release L c w)"

definition pgx_conn_Exec :: "('w, 'x, 's, 'v, 'rs, 'tag) pgx_lib \<Rightarrow> nat \<Rightarrow> 'x \<Rightarrow> 'w \<Rightarrow> sql_Result res \<times> 'w" where
  "pgx_conn_Exec L c stmt w = pgx_exec L (PgxConn c) stmt w"

definition pgx_conn_QueryOne :: "('w, 'x, 's, 'v, 'rs, 'tag) pgx_lib \<Rightarrow> nat \<Rightarrow> 's \<Rightarrow> 'w \<Rightarrow> 'v res \<times> 'w" where
  "pgx_conn_QueryOne L c stmt w = not_found (pgxscan_NotFound L) (pgxscan_Get L (PgxConn c) stmt w)"

definition pgx_conn_QueryMany :: "('w, 'x, 's, 'v, 'rs, 'tag) pgx_lib \<Rightarrow> nat \<Rightarrow> 's \<Rightarrow> 'w \<Rightarrow> 'v list res \<times> 'w" where
  "pgx_conn_QueryMany L c stmt w = pgxscan_Select L (PgxConn c) stmt w"

definition pgx_conn_Cursor :: "('w, 'x, 's, 'v, 'rs, 'tag) pgx_lib \<Rightarrow> nat \<Rightarrow> 's \<Rightarrow> 'w \<Rightarrow> 'rs \<times> 'w" where
  "pgx_conn_Cursor L c stmt w = (case pgx_Query L (PgxConn c) stmt w of ((rows, _), w1) \<Rightarrow> (rows, w1))"

definition pgx_tx_As :: "nat \<Rightarrow> as_target \<Rightarrow> handle option" where
  "pgx_tx_As t i = (if i = PtrPgxTx then Some (PgxTx t) else None)"

definition pgx_tx_Exec :: "('w, 'x, 's, 'v, 'rs, 'tag) pgx_lib \<Rightarrow> nat \<Rightarrow> 'x \<Rightarrow> 'w \<Rightarrow> sql_Result res \<times> 'w" where
  "pgx_tx_Exec L t stmt w = pgx_exec L (PgxTx t) stmt w"

definition pgx_tx_QueryOne :: "('w, 'x, 's, 'v, 'rs, 'tag) pgx_lib \<Rightarrow> nat \<Rightarrow> 's \<Rightarrow> 'w \<Rightarrow> 'v res \<times> 'w" where
  "pgx_tx_QueryOne L t stmt w = not_found (pgxscan_NotFound L) (pgxscan_Get L (PgxTx t) stmt w)"

definition pgx_tx_QueryMany :: "('w, 'x, 's, 'v, 'rs, 'tag) pgx_lib \<Rightarrow> nat \<Rightarrow> 's \<Rightarrow> 'w \<Rightarrow> 'v list res \<times> 'w" where
  "pgx_tx_QueryMany L t stmt w = pgxscan_Select L (PgxTx t) stmt w"

definition pgx_tx_Cursor :: "('w, 'x, 's, 'v, 'rs, 'tag) pgx_lib \<Rightarrow> nat \<Rightarrow> 's \<Rightarrow> 'w \<Rightarrow> 'rs \<times> 'w" where
  "pgx_tx_Cursor L t stmt w = (case pgx_Query L (PgxTx t) stmt w of ((rows, _), w1) \<Rightarrow> (rows, w1))"

definition pgx_tx_Commit :: "('w, 'x, 's, 'v, 'rs, 'tag) pgx_lib \<Rightarrow> nat \<Rightarrow> 'w \<Rightarrow> goerr option \<times> 'w" where
  "pgx_tx_Commit L t w = pgx_Commit L t w"

definition pgx_tx_Rollback :: "('w, 'x, 's, 'v, 'rs, 'tag) pgx_lib \<Rightarrow> nat \<Rightarrow> 'w \<Rightarrow> goerr option \<times> 'w" where
  "pgx_tx_Rollback L t w = pgx_Rollback L t w"

definition pgx_cursor_Close :: "('rs, 'v) rows_ops \<Rightarrow> 'rs \<Rightarrow> goerr option \<times> 'rs" where
  "pgx_cursor_Close R rs = (let rs' = snd (rows_Close R rs) in (rows_Err R rs', rs'))"

definition pgx_cursor_Err :: "('rs, 'v) rows_ops \<Rightarrow> 'rs \<Rightarrow> goerr option" where
  "pgx_cursor_Err R rs = rows_Err R rs"

definition pgx_cursor_Next :: "('rs, 'v) rows_ops \<Rightarrow> 'rs \<Rightarrow> bool \<times> 'rs" where
  "pgx_cursor_Next R rs = rows_Next R rs"

definition pgx_cursor_Scan :: "('rs, 'v) rows_ops \<Rightarrow> 'rs \<Rightarrow> (goerr option \<times> 'v option) \<times> 'rs" where
  "pgx_cursor_Scan R rs = scan_ScanRow R rs"

definition pgx_cursor_ops :: "('rs, 'v) rows_ops \<Rightarrow> ('rs, 'v) cursor_ops" where
  "pgx_cursor_ops R = \<lparr>cur_Next = pgx_cursor_Next R, cur_Err = pgx_cursor_Err R, cur_Close = pgx_cursor_Close R,
     cur_Scan = pgx_cursor_Scan R\<rparr>"

definition pgx_driver :: "('w, 'x, 's, 'v, 'rs, 'tag) pgx_lib \<Rightarrow> nat \<Rightarrow> 'w driver" where
  "pgx_driver L d = \<lparr>BeginTx = pgx_db_BeginTx L d, Commit = pgx_tx_Commit L, Rollback = pgx_tx_Rollback L\<rparr>"

section \<open>Transaction options\<close>

text \<open>The levels that PostgreSQL has, and the default.\<close>

definition pg_levels :: "int set" where
  "pg_levels = {0, LevelReadUncommitted, LevelReadCommitted, LevelRepeatableRead, LevelSerializable}"

definition pgx_levels :: "string set" where
  "pgx_levels = {[], pgx_ReadUncommitted, pgx_ReadCommitted, pgx_RepeatableRead, pgx_Serializable}"

lemmas option_constants =
  pgx_Serializable_def pgx_RepeatableRead_def pgx_ReadCommitted_def pgx_ReadUncommitted_def pgx_ReadOnly_def
  LevelReadUncommitted_def LevelReadCommitted_def LevelWriteCommitted_def LevelRepeatableRead_def
  LevelSnapshot_def LevelSerializable_def LevelLinearizable_def pgx_no_options_def no_options_def

lemma no_options_iff: "o' = no_options \<longleftrightarrow> Isolation o' = 0 \<and> \<not> ReadOnly o'"
  by (cases o') (simp add: no_options_def)

lemma ToPgxTxOptions_fields:
  "IsoLevel (ToPgxTxOptions (Some o')) =
     (if Isolation o' = 6 then ''serializable'' else if Isolation o' = 4 then ''repeatable read''
      else if Isolation o' = 2 then ''read committed'' else if Isolation o' = 1 then ''read uncommitted'' else [])"
  "AccessMode (ToPgxTxOptions (Some o')) = (if ReadOnly o' then ''read only'' else [])"
  "DeferrableMode (ToPgxTxOptions opts) = []"
  by (auto simp: ToPgxTxOptions_def no_options_iff option_constants split: option.splits)

text \<open>
  C12. Transaction options survive the two conversions of the pgx adapter. From \<^verbatim>\<open>database/sql\<close> to pgx
  and back, options come back as they were, with nil for the zero options; the levels that
  PostgreSQL does not have (write committed, snapshot, linearizable) come back as the default level.
  From pgx and back, the level and the read-only mode come back; the deferrable mode and the explicit
  read-write mode are lost.
\<close>

theorem options_round_trip:
  "ToTxOptions (ToPgxTxOptions opts) =
     (case opts of
        None \<Rightarrow> None
      | Some o' \<Rightarrow> let kept = (if Isolation o' \<in> pg_levels then o' else o'\<lparr>Isolation := 0\<rparr>)
                  in if kept = no_options then None else Some kept)
   \<and> ToPgxTxOptions (ToTxOptions p) =
     \<lparr>IsoLevel = (if IsoLevel p \<in> pgx_levels then IsoLevel p else []),
      AccessMode = (if AccessMode p = pgx_ReadOnly then pgx_ReadOnly else []), DeferrableMode = []\<rparr>"
proof
  show "ToTxOptions (ToPgxTxOptions opts) =
     (case opts of None \<Rightarrow> None
      | Some o' \<Rightarrow> let kept = (if Isolation o' \<in> pg_levels then o' else o'\<lparr>Isolation := 0\<rparr>)
                  in if kept = no_options then None else Some kept)"
  proof (cases opts)
    case None
    then show ?thesis by (simp add: ToTxOptions_def ToPgxTxOptions_def option_constants)
  next
    case (Some o')
    then show ?thesis
      by (cases o') (simp add: ToTxOptions_def ToPgxTxOptions_fields no_options_iff pg_levels_def option_constants)
  qed
  show "ToPgxTxOptions (ToTxOptions p) =
     \<lparr>IsoLevel = (if IsoLevel p \<in> pgx_levels then IsoLevel p else []),
      AccessMode = (if AccessMode p = pgx_ReadOnly then pgx_ReadOnly else []), DeferrableMode = []\<rparr>"
    by (simp add: ToTxOptions_def ToPgxTxOptions_def Let_def pgx_levels_def option_constants)
qed

section \<open>Cursors\<close>

text \<open>
  The contract of a cursor: the rows that are left, the error that ends them, and the row it stands on.
  The error shows when there are no more rows.
\<close>

locale cursor =
  fixes C :: "('c, 'v) cursor_ops" and rows_left :: "'c \<Rightarrow> 'v list" and failure :: "'c \<Rightarrow> goerr option"
    and row :: "'c \<Rightarrow> 'v option"
  assumes next_row: "rows_left c = v # vs \<Longrightarrow> cur_Next C c = (b, c') \<Longrightarrow>
      b \<and> row c' = Some v \<and> rows_left c' = vs \<and> failure c' = failure c"
    and next_end: "rows_left c = [] \<Longrightarrow> cur_Next C c = (b, c') \<Longrightarrow>
      \<not> b \<and> row c' = None \<and> rows_left c' = [] \<and> cur_Err C c' = failure c"
    and scan_row: "row c = Some v \<Longrightarrow> cur_Scan C c = (x, c') \<Longrightarrow>
      x = (None, Some v) \<and> rows_left c' = rows_left c \<and> failure c' = failure c"

text \<open>
  The use that the interface documents: scan while \<open>Next\<close> is true, then look at \<open>Err\<close>. An error of
  \<open>Scan\<close> ends the loop; the fuel bounds the calls of \<open>Next\<close>.
\<close>

fun read_rows :: "('c, 'v) cursor_ops \<Rightarrow> nat \<Rightarrow> 'c \<Rightarrow> ('v list \<times> goerr option) option" where
  "read_rows C 0 c = None"
| "read_rows C (Suc n) c =
     (case cur_Next C c of
        (False, c1) \<Rightarrow> Some ([], cur_Err C c1)
      | (True, c1) \<Rightarrow>
          (case cur_Scan C c1 of
             ((Some err, _), c2) \<Rightarrow> Some ([], Some err)
           | ((None, v), c2) \<Rightarrow>
               (case read_rows C n c2 of
                  None \<Rightarrow> None
                | Some (vs, err) \<Rightarrow> Some ((case v of None \<Rightarrow> vs | Some x \<Rightarrow> x # vs), err))))"

context cursor begin

lemma reads_all: "length (rows_left c) < n \<Longrightarrow> read_rows C n c = Some (rows_left c, failure c)"
proof (induction n arbitrary: c)
  case (Suc n)
  obtain b c1 where next1: "cur_Next C c = (b, c1)" by fastforce
  show ?case
  proof (cases "rows_left c")
    case Nil
    from next_end [OF Nil next1] next1 Nil show ?thesis by simp
  next
    case (Cons v vs)
    note n1 = next_row [OF Cons next1]
    obtain x c2 where scan: "cur_Scan C c1 = (x, c2)" by fastforce
    from n1 scan_row [OF _ scan, of v] have "x = (None, Some v)" "rows_left c2 = vs" "failure c2 = failure c"
      by auto
    with Suc.IH [of c2] Suc.prems Cons n1 next1 scan show ?thesis by simp
  qed
qed simp

end

text \<open>The contract of the rows behind a cursor, from which both adapters' cursors keep theirs.\<close>

locale query_rows =
  fixes R :: "('rs, 'v) rows_ops" and rs_left :: "'rs \<Rightarrow> 'v list" and rs_failure :: "'rs \<Rightarrow> goerr option"
    and rs_row :: "'rs \<Rightarrow> 'v option"
  assumes rows_next: "rs_left s = v # vs \<Longrightarrow> rows_Next R s = (b, s') \<Longrightarrow>
      b \<and> rs_row s' = Some v \<and> rs_left s' = vs \<and> rs_failure s' = rs_failure s"
    and rows_end: "rs_left s = [] \<Longrightarrow> rows_Next R s = (b, s') \<Longrightarrow>
      \<not> b \<and> rs_row s' = None \<and> rs_left s' = [] \<and> rows_Err R s' = rs_failure s"
    and rows_scan: "rs_row s = Some v \<Longrightarrow> scan_ScanRow R s = (x, s') \<Longrightarrow>
      x = (None, Some v) \<and> rs_left s' = rs_left s \<and> rs_failure s' = rs_failure s"

text \<open>A cursor of \<^verbatim>\<open>sqladapt\<close> has the rows and the error of its rows, or no rows and its first error.\<close>

definition sql_cursor_left :: "('rs \<Rightarrow> 'v list) \<Rightarrow> 'rs sql_cursor \<Rightarrow> 'v list" where
  "sql_cursor_left rows_of c = (case sc_rows c of None \<Rightarrow> [] | Some s \<Rightarrow> rows_of s)"

definition sql_cursor_failure :: "('rs \<Rightarrow> goerr option) \<Rightarrow> 'rs sql_cursor \<Rightarrow> goerr option" where
  "sql_cursor_failure failure_of c = (case sc_rows c of None \<Rightarrow> sc_initErr c | Some s \<Rightarrow> failure_of s)"

definition sql_cursor_row :: "('rs \<Rightarrow> 'v option) \<Rightarrow> 'rs sql_cursor \<Rightarrow> 'v option" where
  "sql_cursor_row row_of c = Option.bind (sc_rows c) row_of"

sublocale query_rows \<subseteq> pgx: cursor "pgx_cursor_ops R" rs_left rs_failure rs_row
  by unfold_locales
    (auto simp: pgx_cursor_ops_def pgx_cursor_Next_def pgx_cursor_Err_def pgx_cursor_Scan_def
      dest: rows_next rows_end rows_scan)

sublocale query_rows \<subseteq> sql: cursor "sql_cursor_ops R" "sql_cursor_left rs_left" "sql_cursor_failure rs_failure"
    "sql_cursor_row rs_row"
proof unfold_locales
  fix c :: "'rs sql_cursor" and v vs b c'
  assume "sql_cursor_left rs_left c = v # vs" "cur_Next (sql_cursor_ops R) c = (b, c')"
  then show "b \<and> sql_cursor_row rs_row c' = Some v \<and> sql_cursor_left rs_left c' = vs
    \<and> sql_cursor_failure rs_failure c' = sql_cursor_failure rs_failure c"
    by (auto simp: sql_cursor_ops_def sql_cursor_Next_def sql_cursor_left_def sql_cursor_failure_def
        sql_cursor_row_def split: option.splits prod.splits dest: rows_next)
next
  fix c :: "'rs sql_cursor" and b c'
  assume "sql_cursor_left rs_left c = []" "cur_Next (sql_cursor_ops R) c = (b, c')"
  then show "\<not> b \<and> sql_cursor_row rs_row c' = None \<and> sql_cursor_left rs_left c' = []
    \<and> cur_Err (sql_cursor_ops R) c' = sql_cursor_failure rs_failure c"
    by (auto simp: sql_cursor_ops_def sql_cursor_Next_def sql_cursor_Err_def sql_cursor_left_def
        sql_cursor_failure_def sql_cursor_row_def split: option.splits prod.splits dest: rows_end)
next
  fix c :: "'rs sql_cursor" and v x c'
  assume "sql_cursor_row rs_row c = Some v" "cur_Scan (sql_cursor_ops R) c = (x, c')"
  then show "x = (None, Some v) \<and> sql_cursor_left rs_left c' = sql_cursor_left rs_left c
    \<and> sql_cursor_failure rs_failure c' = sql_cursor_failure rs_failure c"
    by (auto simp: sql_cursor_ops_def sql_cursor_Scan_def sql_cursor_left_def sql_cursor_failure_def
        sql_cursor_row_def bind_eq_Some_conv split: option.splits prod.splits dest: rows_scan)
qed

text \<open>
  The rows of \<^verbatim>\<open>database/sql\<close>, and of pgx, as their documentation has them: the rows still to come and the
  error after them; the end closes them and sets the error.
\<close>

record 'v row_state =
  rw_row :: "'v option"
  rw_todo :: "'v list"
  rw_failure :: "goerr option"
  rw_closed :: bool
  rw_err :: "goerr option"

definition list_rows :: "('v row_state, 'v) rows_ops" where
  "list_rows = \<lparr>
     rows_Next = (\<lambda>s. if rw_closed s then (False, s\<lparr>rw_row := None\<rparr>)
        else (case rw_todo s of
                [] \<Rightarrow> (False, s\<lparr>rw_row := None, rw_closed := True, rw_err := rw_failure s\<rparr>)
              | v # vs \<Rightarrow> (True, s\<lparr>rw_row := Some v, rw_todo := vs\<rparr>))),
     rows_Err = rw_err,
     rows_Close = (\<lambda>s. (None, s\<lparr>rw_closed := True\<rparr>)),
     scan_ScanRow = (\<lambda>s.
        if rw_closed s then ((Some (OpaqueErr ''sql: Rows are closed''), None), s)
        else (case rw_row s of
                None \<Rightarrow> ((Some (OpaqueErr ''sql: Scan called without calling Next''), None), s)
              | Some v \<Rightarrow> ((None, Some v), s)))\<rparr>"

definition list_left :: "'v row_state \<Rightarrow> 'v list" where
  "list_left s = (if rw_closed s then [] else rw_todo s)"

definition list_failure :: "'v row_state \<Rightarrow> goerr option" where
  "list_failure s = (if rw_closed s then rw_err s else rw_failure s)"

definition list_row :: "'v row_state \<Rightarrow> 'v option" where
  "list_row s = (if rw_closed s then None else rw_row s)"

interpretation list_rows: query_rows list_rows list_left list_failure list_row
  by unfold_locales
    (auto simp: list_rows_def list_left_def list_failure_def list_row_def split: if_splits list.splits)

text \<open>
  What a query promises its reader: the rows and the error after them, or no rows and its error. The
  documentation of pgx has it that the rows of a query that failed are closed, with the error of the query.
\<close>

definition sql_outcome :: "('rs \<Rightarrow> 'v list) \<Rightarrow> ('rs \<Rightarrow> goerr option) \<Rightarrow> 'rs res \<Rightarrow> 'v list \<times> goerr option" where
  "sql_outcome lft failure q = (case q of Inl err \<Rightarrow> ([], Some err) | Inr rows \<Rightarrow> (lft rows, failure rows))"

definition pgx_outcome :: "('rs \<Rightarrow> 'v list) \<Rightarrow> ('rs \<Rightarrow> goerr option) \<Rightarrow> 'rs \<times> goerr option \<Rightarrow> 'v list \<times> goerr option" where
  "pgx_outcome lft failure q = (case q of (rows, Some err) \<Rightarrow> ([], Some err) | (rows, None) \<Rightarrow> (lft rows, failure rows))"

definition failed_rows :: "('rs \<Rightarrow> 'v list) \<Rightarrow> ('rs \<Rightarrow> goerr option) \<Rightarrow> ('w, 'x, 's, 'v, 'rs, 'tag) pgx_lib \<Rightarrow> bool" where
  "failed_rows lft failure P \<longleftrightarrow>
     (\<forall>h st w rows err w'. pgx_Query P h st w = ((rows, Some err), w') \<longrightarrow> lft rows = [] \<and> failure rows = Some err)"

context query_rows begin

lemma sql_cursor_reads:
  assumes "length (fst (sql_outcome rs_left rs_failure (fst q))) < n"
  shows "read_rows (sql_cursor_ops R) n (fst (sql_cursor_of q)) = Some (sql_outcome rs_left rs_failure (fst q))"
proof -
  have "sql_cursor_left rs_left (fst (sql_cursor_of q)) = fst (sql_outcome rs_left rs_failure (fst q))"
    "sql_cursor_failure rs_failure (fst (sql_cursor_of q)) = snd (sql_outcome rs_left rs_failure (fst q))"
    by (auto simp: sql_cursor_of_def sql_outcome_def sql_cursor_left_def sql_cursor_failure_def
        split: prod.splits sum.splits)
  with sql.reads_all [of "fst (sql_cursor_of q)" n] assms show ?thesis by simp
qed

lemma pgx_cursor_reads:
  assumes "failed_rows rs_left rs_failure P" "length (fst (pgx_outcome rs_left rs_failure (fst (pgx_Query P h st w)))) < n"
  shows "read_rows (pgx_cursor_ops R) n (fst (fst (pgx_Query P h st w)))
    = Some (pgx_outcome rs_left rs_failure (fst (pgx_Query P h st w)))"
proof -
  obtain rows err w' where q: "pgx_Query P h st w = ((rows, err), w')" by (metis prod.collapse)
  with assms(1) have "(rs_left rows, rs_failure rows) = pgx_outcome rs_left rs_failure (rows, err)"
    unfolding failed_rows_def by (cases err) (fastforce simp: pgx_outcome_def)+
  with pgx.reads_all [of rows n] assms(2) q show ?thesis by (metis fst_conv)
qed

end

text \<open>
  C28. Over any rows of the libraries that keep their contract, reading a cursor as its interface documents (scan while \<open>Next\<close> is true, then ask \<open>Err\<close>) gives
  every row of the query in order, then the error that ended the rows, whatever the adapter and whether
  the query ran on a pool, a connection or a transaction. The cursor of a query that failed has no rows
  and reports the error of the query, also with pgx, where the adapter drops that error when it makes the cursor. A loop of more steps than there are rows is enough.
\<close>

theorem cursor_reads_all:
  assumes "query_rows R lft failure row" "failed_rows lft failure P"
  shows "(\<forall>(h, cursor) \<in> {(SqlDB i, sql_db_Cursor L i), (SqlConn i, sql_conn_Cursor L i), (SqlTx i, sql_tx_Cursor L i)}.
      length (fst (sql_outcome lft failure (fst (sql_QueryContext L h st w)))) < n \<longrightarrow>
      read_rows (sql_cursor_ops R) n (fst (cursor st w)) = Some (sql_outcome lft failure (fst (sql_QueryContext L h st w))))
   \<and> (\<forall>(h, cursor) \<in> {(PgxPool i, pgx_db_Cursor P i), (PgxConn i, pgx_conn_Cursor P i), (PgxTx i, pgx_tx_Cursor P i)}.
      length (fst (pgx_outcome lft failure (fst (pgx_Query P h st' w')))) < n \<longrightarrow>
      read_rows (pgx_cursor_ops R) n (fst (cursor st' w')) = Some (pgx_outcome lft failure (fst (pgx_Query P h st' w'))))"
proof -
  have pgx: "fst (pgx_db_Cursor P i st' w') = fst (fst (pgx_Query P (PgxPool i) st' w'))"
    "fst (pgx_conn_Cursor P i st' w') = fst (fst (pgx_Query P (PgxConn i) st' w'))"
    "fst (pgx_tx_Cursor P i st' w') = fst (fst (pgx_Query P (PgxTx i) st' w'))"
    by (simp_all add: pgx_db_Cursor_def pgx_conn_Cursor_def pgx_tx_Cursor_def case_prod_unfold)
  show ?thesis
    by (simp add: pgx sql_db_Cursor_def sql_conn_Cursor_def sql_tx_Cursor_def
        query_rows.sql_cursor_reads [OF assms(1)] query_rows.pgx_cursor_reads [OF assms])
qed

section \<open>The adapters over the database\<close>

text \<open>
  The libraries on the database of \<open>Sqltx\<close>: a statement runs on the pool, a connection or a
  transaction, and the scanning library takes one row of its rows; without a row it fails with
  its own error, which \<open>NotFound\<close> recognises.
\<close>

fun queryer_of :: "handle \<Rightarrow> queryer" where
  "queryer_of (SqlTx t) = QTx t"
| "queryer_of (PgxTx t) = QTx t"
| "queryer_of _ = QConn"

definition scany_several :: goerr where "scany_several = OpaqueErr ''scany: expected 1 row''"

definition scan_one :: "goerr \<Rightarrow> 'r list res \<times> 'w \<Rightarrow> 'r res \<times> 'w" where
  "scan_one none r =
     (case r of
        (Inl err, w) \<Rightarrow> (Inl err, w)
      | (Inr [], w) \<Rightarrow> (Inl none, w)
      | (Inr [x], w) \<Rightarrow> (Inr x, w)
      | (Inr rows, w) \<Rightarrow> (Inl scany_several, w))"

definition row_state_of :: "'v list \<Rightarrow> 'v row_state" where
  "row_state_of vs = \<lparr>rw_row = None, rw_todo = vs, rw_failure = None, rw_closed = False, rw_err = None\<rparr>"

definition engine_sql ::
  "goerr \<Rightarrow> (goerr \<Rightarrow> bool) \<Rightarrow> ('d engine, ('d, unit) stmt, ('d, 'r list) stmt, 'r, 'r row_state) sql_lib" where
  "engine_sql none NotFound = \<lparr>
     sql_BeginTx = (\<lambda>_. engine_BeginTx), sql_Commit = engine_Commit, sql_Rollback = engine_Rollback,
     sql_Conn = (\<lambda>d w. (Inr d, w)), sql_Close = (\<lambda>_ w. (None, w)),
     sql_ExecContext = (\<lambda>h st w. case run_stmt (queryer_of h) st w of
        (Inl err, w1) \<Rightarrow> (Inl err, w1) | (Inr _, w1) \<Rightarrow> (Inr \<lparr>LastInsertId = Inr 0, RowsAffected = Inr 0\<rparr>, w1)),
     sql_QueryContext = (\<lambda>h st w. case run_stmt (queryer_of h) st w of
        (Inl err, w1) \<Rightarrow> (Inl err, w1) | (Inr vs, w1) \<Rightarrow> (Inr (row_state_of vs), w1)),
     sqlscan_Get = (\<lambda>h st w. scan_one none (run_stmt (queryer_of h) st w)),
     sqlscan_Select = (\<lambda>h. run_stmt (queryer_of h)),
     sqlscan_NotFound = NotFound\<rparr>"

definition engine_pgx ::
  "goerr \<Rightarrow> (goerr \<Rightarrow> bool) \<Rightarrow> ('d engine, ('d, unit) stmt, ('d, 'r list) stmt, 'r, 'r row_state, unit) pgx_lib" where
  "engine_pgx none NotFound = \<lparr>
     pgx_BeginTx = (\<lambda>_ opts. engine_BeginTx (ToTxOptions opts)), pgx_Commit = engine_Commit,
     pgx_Rollback = engine_Rollback, pgx_Acquire = (\<lambda>d w. (Inr d, w)), pgx_Close = (\<lambda>_ w. w),
     pgx_Release = (\<lambda>_ w. w),
     pgx_Exec = (\<lambda>h. run_stmt (queryer_of h)),
     pgx_Query = (\<lambda>h st w. case run_stmt (queryer_of h) st w of
        (Inl err, w1) \<Rightarrow> ((row_state_of []\<lparr>rw_closed := True, rw_err := Some err\<rparr>, Some err), w1)
      | (Inr vs, w1) \<Rightarrow> ((row_state_of vs, None), w1)),
     pgxscan_Get = (\<lambda>h st w. scan_one none (run_stmt (queryer_of h) st w)),
     pgxscan_Select = (\<lambda>h. run_stmt (queryer_of h)),
     pgxscan_NotFound = NotFound, tag_RowsAffected = (\<lambda>_. 0)\<rparr>"

text \<open>The errors of statements and of the scan of several rows are not the one for a missing row.\<close>

definition distinguishes :: "(goerr \<Rightarrow> bool) \<Rightarrow> goerr \<Rightarrow> 'r res \<Rightarrow> bool" where
  "distinguishes NotFound none r \<longleftrightarrow>
     NotFound none \<and> \<not> NotFound scany_several \<and> (case r of Inl err \<Rightarrow> \<not> NotFound err | Inr _ \<Rightarrow> True)"

lemma not_found_scan_one:
  "distinguishes NotFound none (fst (run_stmt q st w)) \<Longrightarrow>
     not_found NotFound (scan_one none (run_stmt q st w)) = QueryOne q st w"
  by (auto simp: distinguishes_def not_found_def scan_one_def QueryOne_def scany_several_def
      split: prod.splits sum.splits list.splits)

lemmas one_defs = sql_db_QueryOne_def sql_conn_QueryOne_def sql_tx_QueryOne_def
  pgx_db_QueryOne_def pgx_conn_QueryOne_def pgx_tx_QueryOne_def

lemmas many_defs = sql_db_QueryMany_def sql_conn_QueryMany_def sql_tx_QueryMany_def
  pgx_db_QueryMany_def pgx_conn_QueryMany_def pgx_tx_QueryMany_def

lemma engine_drivers:
  "sql_driver (engine_sql none NotFound) d = engine_driver"
  "pgx_driver (engine_pgx none NotFound) d = engine_driver"
  by (auto simp: sql_driver_def pgx_driver_def engine_driver_def engine_sql_def engine_pgx_def fun_eq_iff
      sql_db_BeginTx_def sql_tx_Commit_def sql_tx_Rollback_def pgx_db_BeginTx_def pgx_tx_Commit_def
      pgx_tx_Rollback_def engine_BeginTx_def)

text \<open>The result of \<open>Exec\<close> is not used by the components.\<close>

definition drop_result :: "sql_Result res \<Rightarrow> unit res" where
  "drop_result r = (case r of Inl err \<Rightarrow> Inl err | Inr _ \<Rightarrow> Inr ())"

lemma engine_execs:
  "apfst drop_result (sql_db_Exec (engine_sql none NotFound) d x w) = Exec QConn x w"
  "apfst drop_result (sql_tx_Exec (engine_sql none NotFound) t x w) = Exec (QTx t) x w"
  "apfst drop_result (pgx_db_Exec (engine_pgx none NotFound) d x w) = Exec QConn x w"
  "apfst drop_result (pgx_tx_Exec (engine_pgx none NotFound) t x w) = Exec (QTx t) x w"
  by (simp_all add: sql_db_Exec_def sql_tx_Exec_def pgx_db_Exec_def pgx_tx_Exec_def pgx_exec_def engine_sql_def
      engine_pgx_def Exec_def drop_result_def split: prod.splits sum.splits)

text \<open>
  Both adapters implement the database that every other component is proved against: their
  transactions are its transactions, \<open>QueryMany\<close> its statement, and \<open>QueryOne\<close> its query of one row
  (with \<^verbatim>\<open>sql.ErrNoRows\<close> for no row), on the pool and connections outside a transaction and on the
  transaction inside one. So what is proved of a component holds over either adapter.
\<close>

lemma adapters_refine:
  assumes "\<And>q. distinguishes NotFound none (fst (run_stmt q st w))"
  shows "sql_driver (engine_sql none NotFound) d = engine_driver
    \<and> pgx_driver (engine_pgx none NotFound) d = engine_driver
    \<and> sql_db_QueryOne (engine_sql none NotFound) d st w = QueryOne QConn st w
    \<and> sql_conn_QueryOne (engine_sql none NotFound) d st w = QueryOne QConn st w
    \<and> sql_tx_QueryOne (engine_sql none NotFound) t st w = QueryOne (QTx t) st w
    \<and> pgx_db_QueryOne (engine_pgx none NotFound) d st w = QueryOne QConn st w
    \<and> pgx_conn_QueryOne (engine_pgx none NotFound) d st w = QueryOne QConn st w
    \<and> pgx_tx_QueryOne (engine_pgx none NotFound) t st w = QueryOne (QTx t) st w
    \<and> sql_db_QueryMany (engine_sql none NotFound) d st w = QueryMany QConn st w
    \<and> sql_tx_QueryMany (engine_sql none NotFound) t st w = QueryMany (QTx t) st w
    \<and> pgx_db_QueryMany (engine_pgx none NotFound) d st w = QueryMany QConn st w
    \<and> pgx_tx_QueryMany (engine_pgx none NotFound) t st w = QueryMany (QTx t) st w
    \<and> apfst drop_result (sql_db_Exec (engine_sql none NotFound) d x w) = Exec QConn x w
    \<and> apfst drop_result (sql_tx_Exec (engine_sql none NotFound) t x w) = Exec (QTx t) x w
    \<and> apfst drop_result (pgx_db_Exec (engine_pgx none NotFound) d x w) = Exec QConn x w
    \<and> apfst drop_result (pgx_tx_Exec (engine_pgx none NotFound) t x w) = Exec (QTx t) x w"
  using not_found_scan_one [OF assms]
  by (simp add: engine_drivers engine_execs one_defs many_defs QueryMany_def)
    (simp add: engine_sql_def engine_pgx_def QueryMany_def)

text \<open>A query of two rows over each library, and a query that fails, read with the rows above.\<close>

abbreviation sample_query :: "(nat list, nat list) stmt" where
  "sample_query \<equiv> (\<lambda>_ d. if d = [] then Inl (OpaqueErr ''no table'') else Inr (d, d))"

definition sample_store :: "nat list \<Rightarrow> nat list engine" where
  "sample_store d = \<lparr>contents = d, txs = [], now = 0, faults = [], lost_commit = False\<rparr>"

lemma engine_pgx_failed_rows: "failed_rows list_left list_failure (engine_pgx none NotFound)"
  by (auto simp: failed_rows_def engine_pgx_def list_left_def list_failure_def row_state_of_def
      split: prod.splits sum.splits)

theorem cursor_reads_all_witness:
  "read_rows (sql_cursor_ops list_rows) 3 (fst (sql_db_Cursor (engine_sql scany_several (\<lambda>_. False)) 0 sample_query (sample_store [4, 5])))
     = Some ([4, 5], None)
   \<and> read_rows (pgx_cursor_ops list_rows) 3 (fst (pgx_conn_Cursor (engine_pgx scany_several (\<lambda>_. False)) 0 sample_query (sample_store [])))
     = Some ([], Some (OpaqueErr ''no table''))"
proof -
  have q: "fst (sql_QueryContext (engine_sql scany_several (\<lambda>_. False)) (SqlDB 0) sample_query (sample_store [4, 5]))
      = Inr (row_state_of [4, 5])"
    "fst (pgx_Query (engine_pgx scany_several (\<lambda>_. False)) (PgxConn 0) sample_query (sample_store []))
      = (row_state_of []\<lparr>rw_closed := True, rw_err := Some (OpaqueErr ''no table'')\<rparr>, Some (OpaqueErr ''no table''))"
    by (simp_all add: engine_sql_def engine_pgx_def run_stmt_def sample_store_def pop_fault_def)
  have "sql_outcome list_left list_failure (Inr (row_state_of [4 :: nat, 5])) = ([4, 5], None)"
    "pgx_outcome list_left list_failure (rows, Some err) = ([] :: nat list, Some err)" for rows err
    by (simp_all add: sql_outcome_def pgx_outcome_def row_state_of_def list_left_def list_failure_def)
  with q cursor_reads_all [OF list_rows.query_rows_axioms engine_pgx_failed_rows,
      where L = "engine_sql scany_several (\<lambda>_. False)" and i = 0 and st = sample_query and w = "sample_store [4, 5]" and n = 3
        and st' = sample_query and w' = "sample_store []", of scany_several "\<lambda>_. False"]
  show ?thesis by (simp del: read_rows.simps)
qed

end
