(* ===== verification/Mockdb.thy ===== *)
theory Mockdb
  imports Adapters
begin

text \<open>
  The mocks of the interfaces of \<^verbatim>\<open>pgdb\<close> (\<^verbatim>\<open>src/pgdb/mockdb/mockdb.go\<close>). A Go value with methods is an object
  that has some of the methods of the interfaces; a type assertion looks for methods. Methods and
  functions act on a world \<open>'w\<close>; a function value may be nil (\<open>None\<close>). Contexts are \<open>'c\<close>, values of type
  \<^verbatim>\<open>any\<close> are \<open>'x\<close>.
\<close>

section \<open>Values\<close>

type_synonym ('w, 'c, 'x) exec_fn = "'c \<Rightarrow> string \<Rightarrow> 'x list \<Rightarrow> 'w \<Rightarrow> sql_Result res \<times> 'w"
type_synonym ('w, 'c, 'x) query_fn = "'c \<Rightarrow> 'x \<Rightarrow> string \<Rightarrow> 'x list \<Rightarrow> 'w \<Rightarrow> goerr option \<times> 'w"
type_synonym ('w, 'c, 'x, 'o) cursor_fn = "'c \<Rightarrow> string \<Rightarrow> 'x list \<Rightarrow> 'w \<Rightarrow> 'o \<times> 'w"
type_synonym ('w, 'x) as_fn = "'x \<Rightarrow> 'w \<Rightarrow> bool \<times> 'w"
type_synonym ('w, 'c, 'o) begin_fn = "'c \<Rightarrow> sql_TxOptions option \<Rightarrow> 'w \<Rightarrow> 'o res \<times> 'w"
type_synonym ('w, 'c) end_fn = "'c \<Rightarrow> 'w \<Rightarrow> goerr option \<times> 'w"
type_synonym ('w, 'c, 'o) conn_fn = "'c \<Rightarrow> 'w \<Rightarrow> 'o res \<times> 'w"
type_synonym 'w err_fn = "'w \<Rightarrow> goerr option \<times> 'w"
type_synonym 'w next_fn = "'w \<Rightarrow> bool \<times> 'w"
type_synonym ('w, 'x) scan_fn = "'x \<Rightarrow> 'w \<Rightarrow> goerr option \<times> 'w"

datatype ('w, 'c, 'x) obj = Obj
  (m_Exec: "('w, 'c, 'x) exec_fn option")
  (m_QueryOne: "('w, 'c, 'x) query_fn option")
  (m_QueryMany: "('w, 'c, 'x) query_fn option")
  (m_Cursor: "('w, 'c, 'x, ('w, 'c, 'x) obj) cursor_fn option")
  (m_As: "('w, 'x) as_fn option")
  (m_BeginTx: "('w, 'c, ('w, 'c, 'x) obj) begin_fn option")
  (m_Commit: "('w, 'c) end_fn option")
  (m_Rollback: "('w, 'c) end_fn option")
  (m_Close: "'w err_fn option")
  (m_Conn: "('w, 'c, ('w, 'c, 'x) obj) conn_fn option")
  (m_Err: "'w err_fn option")
  (m_Next: "'w next_fn option")
  (m_Scan: "('w, 'x) scan_fn option")

definition is_Queryer :: "('w, 'c, 'x) obj \<Rightarrow> bool" where
  "is_Queryer v \<longleftrightarrow> m_As v \<noteq> None \<and> m_Exec v \<noteq> None \<and> m_QueryOne v \<noteq> None \<and> m_QueryMany v \<noteq> None \<and> m_Cursor v \<noteq> None"

definition is_Txer :: "('w, 'c, 'x) obj \<Rightarrow> bool" where
  "is_Txer v \<longleftrightarrow> is_Queryer v \<and> m_Commit v \<noteq> None \<and> m_Rollback v \<noteq> None"

definition is_Connection :: "('w, 'c, 'x) obj \<Rightarrow> bool" where
  "is_Connection v \<longleftrightarrow> is_Queryer v \<and> m_BeginTx v \<noteq> None \<and> m_Close v \<noteq> None"

definition is_Pool :: "('w, 'c, 'x) obj \<Rightarrow> bool" where
  "is_Pool v \<longleftrightarrow> is_Connection v \<and> m_Conn v \<noteq> None"

text \<open>An argument of a constructor: a function of one of the signatures, or another value.\<close>

datatype ('w, 'c, 'x) arg =
    FExec "('w, 'c, 'x) exec_fn option"
  | FQuery "('w, 'c, 'x) query_fn option"
  | FCursor "('w, 'c, 'x, ('w, 'c, 'x) obj) cursor_fn option"
  | FAs "('w, 'x) as_fn option"
  | FBeginTx "('w, 'c, ('w, 'c, 'x) obj) begin_fn option"
  | FEnd "('w, 'c) end_fn option"
  | FConn "('w, 'c, ('w, 'c, 'x) obj) conn_fn option"
  | FErr "'w err_fn option"
  | FNext "'w next_fn option"
  | FScan "('w, 'x) scan_fn option"
  | AObj "('w, 'c, 'x) obj"
  | ANil

definition ErrNotMocked :: goerr where
  "ErrNotMocked = ConstError ''operation not mocked''"

text \<open>A field set from a type assertion on one method: kept when the assertion fails.\<close>

definition assert_method :: "'f option \<Rightarrow> 'f option \<Rightarrow> 'f option" where
  "assert_method meth old = (case meth of None \<Rightarrow> old | Some f \<Rightarrow> Some f)"

section \<open>Cursors\<close>

record ('w, 'x) Cursor =
  cu_CloseFunc :: "'w err_fn option"
  cu_ErrFunc :: "'w err_fn option"
  cu_NextFunc :: "'w next_fn option"
  cu_ScanFunc :: "('w, 'x) scan_fn option"

definition zero_Cursor :: "('w, 'x) Cursor" where
  "zero_Cursor = \<lparr>cu_CloseFunc = None, cu_ErrFunc = None, cu_NextFunc = None, cu_ScanFunc = None\<rparr>"

definition cursor_arg :: "('w, 'c, 'x) arg \<Rightarrow> ('w, 'x) Cursor \<Rightarrow> ('w, 'x) Cursor" where
  "cursor_arg a cur =
     (case a of
        FErr v \<Rightarrow> if cu_CloseFunc cur = None then cur\<lparr>cu_CloseFunc := v\<rparr> else cur\<lparr>cu_ErrFunc := v\<rparr>
      | FNext v \<Rightarrow> cur\<lparr>cu_NextFunc := v\<rparr>
      | FScan v \<Rightarrow> cur\<lparr>cu_ScanFunc := v\<rparr>
      | AObj v \<Rightarrow> cur
          \<lparr>cu_CloseFunc := assert_method (m_Close v) (cu_CloseFunc cur),
           cu_ErrFunc := assert_method (m_Err v) (cu_ErrFunc cur),
           cu_NextFunc := assert_method (m_Next v) (cu_NextFunc cur),
           cu_ScanFunc := assert_method (m_Scan v) (cu_ScanFunc cur)\<rparr>
      | _ \<Rightarrow> cur)"

definition NewCursor :: "('w, 'c, 'x) arg list \<Rightarrow> ('w, 'x) Cursor" where
  "NewCursor args = fold cursor_arg args zero_Cursor"

definition Cursor_Close :: "('w, 'x) Cursor \<Rightarrow> 'w err_fn" where
  "Cursor_Close c w = (case cu_CloseFunc c of Some f \<Rightarrow> f w | None \<Rightarrow> (Some ErrNotMocked, w))"

definition Cursor_Err :: "('w, 'x) Cursor \<Rightarrow> 'w err_fn" where
  "Cursor_Err c w = (case cu_ErrFunc c of Some f \<Rightarrow> f w | None \<Rightarrow> (Some ErrNotMocked, w))"

definition Cursor_Next :: "('w, 'x) Cursor \<Rightarrow> 'w next_fn" where
  "Cursor_Next c w = (case cu_NextFunc c of Some f \<Rightarrow> f w | None \<Rightarrow> (False, w))"

definition Cursor_Scan :: "('w, 'x) Cursor \<Rightarrow> ('w, 'x) scan_fn" where
  "Cursor_Scan c dst w = (case cu_ScanFunc c of Some f \<Rightarrow> f dst w | None \<Rightarrow> (Some ErrNotMocked, w))"

text \<open>The mock as a value with its methods.\<close>

definition Cursor_value :: "('w, 'x) Cursor \<Rightarrow> ('w, 'c, 'x) obj" where
  "Cursor_value c = Obj None None None None None None None None (Some (Cursor_Close c)) None
     (Some (Cursor_Err c)) (Some (Cursor_Next c)) (Some (Cursor_Scan c))"

section \<open>Queries\<close>

record ('w, 'c, 'x) Queryer =
  ExecFunc :: "('w, 'c, 'x) exec_fn option"
  QueryOneFunc :: "('w, 'c, 'x) query_fn option"
  QueryManyFunc :: "('w, 'c, 'x) query_fn option"
  CursorFunc :: "('w, 'c, 'x, ('w, 'c, 'x) obj) cursor_fn option"
  AsFunc :: "('w, 'x) as_fn option"

definition zero_Queryer :: "('w, 'c, 'x) Queryer" where
  "zero_Queryer = \<lparr>ExecFunc = None, QueryOneFunc = None, QueryManyFunc = None, CursorFunc = None, AsFunc = None\<rparr>"

definition queryer_arg :: "('w, 'c, 'x) arg \<Rightarrow> ('w, 'c, 'x) Queryer \<Rightarrow> ('w, 'c, 'x) Queryer" where
  "queryer_arg a q =
     (case a of
        FExec v \<Rightarrow> q\<lparr>ExecFunc := v\<rparr>
      | FQuery v \<Rightarrow> if QueryOneFunc q = None then q\<lparr>QueryOneFunc := v\<rparr> else q\<lparr>QueryManyFunc := v\<rparr>
      | FCursor v \<Rightarrow> q\<lparr>CursorFunc := v\<rparr>
      | FAs v \<Rightarrow> q\<lparr>AsFunc := v\<rparr>
      | AObj v \<Rightarrow>
          if is_Queryer v
          then \<lparr>ExecFunc = m_Exec v, QueryOneFunc = m_QueryOne v, QueryManyFunc = m_QueryMany v,
                CursorFunc = m_Cursor v, AsFunc = m_As v\<rparr>
          else \<lparr>ExecFunc = assert_method (m_Exec v) (ExecFunc q),
                QueryOneFunc = assert_method (m_QueryOne v) (QueryOneFunc q),
                QueryManyFunc = assert_method (m_QueryMany v) (QueryManyFunc q),
                CursorFunc = assert_method (m_Cursor v) (CursorFunc q),
                AsFunc = assert_method (m_As v) (AsFunc q)\<rparr>
      | _ \<Rightarrow> q)"

definition NewQueryer :: "('w, 'c, 'x) arg list \<Rightarrow> ('w, 'c, 'x) Queryer" where
  "NewQueryer args = fold queryer_arg args zero_Queryer"

definition Queryer_Exec :: "('w, 'c, 'x) Queryer \<Rightarrow> ('w, 'c, 'x) exec_fn" where
  "Queryer_Exec q c stmt args w =
     (case ExecFunc q of Some f \<Rightarrow> f c stmt args w | None \<Rightarrow> (Inl ErrNotMocked, w))"

definition Queryer_QueryOne :: "('w, 'c, 'x) Queryer \<Rightarrow> ('w, 'c, 'x) query_fn" where
  "Queryer_QueryOne q c dst stmt args w =
     (case QueryOneFunc q of Some f \<Rightarrow> f c dst stmt args w | None \<Rightarrow> (Some ErrNotMocked, w))"

definition Queryer_QueryMany :: "('w, 'c, 'x) Queryer \<Rightarrow> ('w, 'c, 'x) query_fn" where
  "Queryer_QueryMany q c dst stmt args w =
     (case QueryManyFunc q of Some f \<Rightarrow> f c dst stmt args w | None \<Rightarrow> (Some ErrNotMocked, w))"

definition Queryer_Cursor :: "('w, 'c, 'x) Queryer \<Rightarrow> ('w, 'c, 'x, ('w, 'c, 'x) obj) cursor_fn" where
  "Queryer_Cursor q c stmt args w =
     (case CursorFunc q of Some f \<Rightarrow> f c stmt args w | None \<Rightarrow> (Cursor_value zero_Cursor, w))"

definition Queryer_As :: "('w, 'c, 'x) Queryer \<Rightarrow> ('w, 'x) as_fn" where
  "Queryer_As q i w = (case AsFunc q of Some f \<Rightarrow> f i w | None \<Rightarrow> (False, w))"

section \<open>Beginning transactions\<close>

record ('w, 'c, 'x) BeginTxer =
  BeginTxFunc :: "('w, 'c, ('w, 'c, 'x) obj) begin_fn option"

definition begin_arg :: "('w, 'c, 'x) arg \<Rightarrow> ('w, 'c, 'x) BeginTxer \<Rightarrow> ('w, 'c, 'x) BeginTxer" where
  "begin_arg a btx =
     (case a of
        FBeginTx v \<Rightarrow> btx\<lparr>BeginTxFunc := v\<rparr>
      | AObj v \<Rightarrow>
          if is_Txer v
          then (if BeginTxFunc btx = None then btx\<lparr>BeginTxFunc := Some (\<lambda>_ _ w. (Inr v, w))\<rparr> else btx)
          else btx\<lparr>BeginTxFunc := assert_method (m_BeginTx v) (BeginTxFunc btx)\<rparr>
      | _ \<Rightarrow> btx)"

definition NewBeginTxer :: "('w, 'c, 'x) arg list \<Rightarrow> ('w, 'c, 'x) BeginTxer" where
  "NewBeginTxer args = fold begin_arg args \<lparr>BeginTxFunc = None\<rparr>"

definition BeginTxer_BeginTx :: "('w, 'c, 'x) BeginTxer \<Rightarrow> ('w, 'c, ('w, 'c, 'x) obj) begin_fn" where
  "BeginTxer_BeginTx b c opts w =
     (case BeginTxFunc b of Some f \<Rightarrow> f c opts w | None \<Rightarrow> (Inl ErrNotMocked, w))"

section \<open>Transactions\<close>

record ('w, 'c, 'x) Txer =
  tx_Queryer :: "('w, 'c, 'x) Queryer"
  CommitFunc :: "('w, 'c) end_fn option"
  RollbackFunc :: "('w, 'c) end_fn option"

definition txer_arg :: "('w, 'c, 'x) arg \<Rightarrow> ('w, 'c, 'x) Txer \<Rightarrow> ('w, 'c, 'x) Txer" where
  "txer_arg a txer =
     (case a of
        FEnd v \<Rightarrow> if CommitFunc txer = None then txer\<lparr>CommitFunc := v\<rparr> else txer\<lparr>RollbackFunc := v\<rparr>
      | AObj v \<Rightarrow> txer
          \<lparr>CommitFunc := assert_method (m_Commit v) (CommitFunc txer),
           RollbackFunc := assert_method (m_Rollback v) (RollbackFunc txer)\<rparr>
      | _ \<Rightarrow> txer)"

definition NewTxer :: "('w, 'c, 'x) arg list \<Rightarrow> ('w, 'c, 'x) Txer" where
  "NewTxer args =
     fold txer_arg args \<lparr>tx_Queryer = NewQueryer args, CommitFunc = None, RollbackFunc = None\<rparr>"

definition Txer_Commit :: "('w, 'c, 'x) Txer \<Rightarrow> ('w, 'c) end_fn" where
  "Txer_Commit t c w = (case CommitFunc t of Some f \<Rightarrow> f c w | None \<Rightarrow> (Some ErrNotMocked, w))"

definition Txer_Rollback :: "('w, 'c, 'x) Txer \<Rightarrow> ('w, 'c) end_fn" where
  "Txer_Rollback t c w = (case RollbackFunc t of Some f \<Rightarrow> f c w | None \<Rightarrow> (Some ErrNotMocked, w))"

definition Txer_value :: "('w, 'c, 'x) Txer \<Rightarrow> ('w, 'c, 'x) obj" where
  "Txer_value t = (let q = tx_Queryer t in
     Obj (Some (Queryer_Exec q)) (Some (Queryer_QueryOne q)) (Some (Queryer_QueryMany q)) (Some (Queryer_Cursor q))
       (Some (Queryer_As q)) None (Some (Txer_Commit t)) (Some (Txer_Rollback t)) None None None None None)"

section \<open>Connections and pools\<close>

record ('w, 'c, 'x) Connection =
  conn_Queryer :: "('w, 'c, 'x) Queryer"
  conn_BeginTxer :: "('w, 'c, 'x) BeginTxer"
  CloseFunc :: "'w err_fn option"

definition connection_arg :: "('w, 'c, 'x) arg \<Rightarrow> ('w, 'c, 'x) Connection \<Rightarrow> ('w, 'c, 'x) Connection" where
  "connection_arg a conn =
     (case a of
        FErr v \<Rightarrow> conn\<lparr>CloseFunc := v\<rparr>
      | AObj v \<Rightarrow> conn\<lparr>CloseFunc := assert_method (m_Close v) (CloseFunc conn)\<rparr>
      | _ \<Rightarrow> conn)"

definition NewConnection :: "('w, 'c, 'x) arg list \<Rightarrow> ('w, 'c, 'x) Connection" where
  "NewConnection args = fold connection_arg args
     \<lparr>conn_Queryer = NewQueryer args, conn_BeginTxer = NewBeginTxer args, CloseFunc = None\<rparr>"

definition Connection_Close :: "('w, 'c, 'x) Connection \<Rightarrow> 'w err_fn" where
  "Connection_Close c w = (case CloseFunc c of Some f \<Rightarrow> f w | None \<Rightarrow> (Some ErrNotMocked, w))"

record ('w, 'c, 'x) Pool =
  pool_Connection :: "('w, 'c, 'x) Connection"
  ConnFunc :: "('w, 'c, ('w, 'c, 'x) obj) conn_fn option"

definition pool_arg :: "('w, 'c, 'x) arg \<Rightarrow> ('w, 'c, 'x) Pool \<Rightarrow> ('w, 'c, 'x) Pool" where
  "pool_arg a pool =
     (case a of
        AObj v \<Rightarrow>
          if is_Connection v
          then (if ConnFunc pool = None then pool\<lparr>ConnFunc := Some (\<lambda>_ w. (Inr v, w))\<rparr> else pool)
          else pool\<lparr>ConnFunc := assert_method (m_Conn v) (ConnFunc pool)\<rparr>
      | FConn v \<Rightarrow> pool\<lparr>ConnFunc := v\<rparr>
      | _ \<Rightarrow> pool)"

definition NewPool :: "('w, 'c, 'x) arg list \<Rightarrow> ('w, 'c, 'x) Pool" where
  "NewPool args = fold pool_arg args \<lparr>pool_Connection = NewConnection args, ConnFunc = None\<rparr>"

definition Pool_Conn :: "('w, 'c, 'x) Pool \<Rightarrow> ('w, 'c, ('w, 'c, 'x) obj) conn_fn" where
  "Pool_Conn p c w = (case ConnFunc p of Some f \<Rightarrow> f c w | None \<Rightarrow> (Inl ErrNotMocked, w))"

definition Connection_value :: "('w, 'c, 'x) Connection \<Rightarrow> ('w, 'c, 'x) obj" where
  "Connection_value c = (let q = conn_Queryer c in
     Obj (Some (Queryer_Exec q)) (Some (Queryer_QueryOne q)) (Some (Queryer_QueryMany q)) (Some (Queryer_Cursor q))
       (Some (Queryer_As q)) (Some (BeginTxer_BeginTx (conn_BeginTxer c))) None None (Some (Connection_Close c))
       None None None None)"

definition Pool_value :: "('w, 'c, 'x) Pool \<Rightarrow> ('w, 'c, 'x) obj" where
  "Pool_value p = (let c = pool_Connection p; q = conn_Queryer c in
     Obj (Some (Queryer_Exec q)) (Some (Queryer_QueryOne q)) (Some (Queryer_QueryMany q)) (Some (Queryer_Cursor q))
       (Some (Queryer_As q)) (Some (BeginTxer_BeginTx (conn_BeginTxer c))) None None (Some (Connection_Close c))
       (Some (Pool_Conn p)) None None None)"

section \<open>Operations that nothing mocks\<close>

text \<open>What an argument gives: a function that is not nil, or a value with the method.\<close>

definition gives_Exec :: "('w, 'c, 'x) arg \<Rightarrow> bool" where
  "gives_Exec a = (case a of FExec v \<Rightarrow> v \<noteq> None | AObj v \<Rightarrow> m_Exec v \<noteq> None | _ \<Rightarrow> False)"

definition gives_QueryOne :: "('w, 'c, 'x) arg \<Rightarrow> bool" where
  "gives_QueryOne a = (case a of FQuery v \<Rightarrow> v \<noteq> None | AObj v \<Rightarrow> m_QueryOne v \<noteq> None | _ \<Rightarrow> False)"

definition gives_QueryMany :: "('w, 'c, 'x) arg \<Rightarrow> bool" where
  "gives_QueryMany a = (case a of FQuery v \<Rightarrow> v \<noteq> None | AObj v \<Rightarrow> m_QueryMany v \<noteq> None | _ \<Rightarrow> False)"

definition gives_Cursor :: "('w, 'c, 'x) arg \<Rightarrow> bool" where
  "gives_Cursor a = (case a of FCursor v \<Rightarrow> v \<noteq> None | AObj v \<Rightarrow> m_Cursor v \<noteq> None | _ \<Rightarrow> False)"

definition gives_As :: "('w, 'c, 'x) arg \<Rightarrow> bool" where
  "gives_As a = (case a of FAs v \<Rightarrow> v \<noteq> None | AObj v \<Rightarrow> m_As v \<noteq> None | _ \<Rightarrow> False)"

definition gives_BeginTx :: "('w, 'c, 'x) arg \<Rightarrow> bool" where
  "gives_BeginTx a = (case a of FBeginTx v \<Rightarrow> v \<noteq> None | AObj v \<Rightarrow> is_Txer v \<or> m_BeginTx v \<noteq> None | _ \<Rightarrow> False)"

definition gives_Commit :: "('w, 'c, 'x) arg \<Rightarrow> bool" where
  "gives_Commit a = (case a of FEnd v \<Rightarrow> v \<noteq> None | AObj v \<Rightarrow> m_Commit v \<noteq> None | _ \<Rightarrow> False)"

definition gives_Rollback :: "('w, 'c, 'x) arg \<Rightarrow> bool" where
  "gives_Rollback a = (case a of FEnd v \<Rightarrow> v \<noteq> None | AObj v \<Rightarrow> m_Rollback v \<noteq> None | _ \<Rightarrow> False)"

definition gives_Close :: "('w, 'c, 'x) arg \<Rightarrow> bool" where
  "gives_Close a = (case a of FErr v \<Rightarrow> v \<noteq> None | AObj v \<Rightarrow> m_Close v \<noteq> None | _ \<Rightarrow> False)"

definition gives_Conn :: "('w, 'c, 'x) arg \<Rightarrow> bool" where
  "gives_Conn a = (case a of FConn v \<Rightarrow> v \<noteq> None | AObj v \<Rightarrow> is_Connection v \<or> m_Conn v \<noteq> None | _ \<Rightarrow> False)"

lemmas gives_defs = gives_Exec_def gives_QueryOne_def gives_QueryMany_def gives_Cursor_def gives_As_def
  gives_BeginTx_def gives_Commit_def gives_Rollback_def gives_Close_def gives_Conn_def

lemma assert_method_None [simp]: "assert_method None old = old" "assert_method meth None = meth"
  by (auto simp: assert_method_def split: option.splits)

lemma assert_method_Some [simp]: "assert_method (Some f) old = Some f"
  by (simp add: assert_method_def)

text \<open>A field that starts empty stays empty over arguments that do not give it.\<close>

lemma queryer_unset:
  "\<forall>a\<in>set args. \<not> gives_Exec a \<Longrightarrow> ExecFunc (NewQueryer args) = None"
  "\<forall>a\<in>set args. \<not> gives_QueryOne a \<Longrightarrow> QueryOneFunc (NewQueryer args) = None"
  "\<forall>a\<in>set args. \<not> gives_QueryMany a \<Longrightarrow> QueryManyFunc (NewQueryer args) = None"
  "\<forall>a\<in>set args. \<not> gives_Cursor a \<Longrightarrow> CursorFunc (NewQueryer args) = None"
  "\<forall>a\<in>set args. \<not> gives_As a \<Longrightarrow> AsFunc (NewQueryer args) = None"
  unfolding NewQueryer_def
  by (rule fold_invariant [where P = "\<lambda>q. ExecFunc q = None" and Q = "\<lambda>a. \<not> gives_Exec a"]
       fold_invariant [where P = "\<lambda>q. QueryOneFunc q = None" and Q = "\<lambda>a. \<not> gives_QueryOne a"]
       fold_invariant [where P = "\<lambda>q. QueryManyFunc q = None" and Q = "\<lambda>a. \<not> gives_QueryMany a"]
       fold_invariant [where P = "\<lambda>q. CursorFunc q = None" and Q = "\<lambda>a. \<not> gives_Cursor a"]
       fold_invariant [where P = "\<lambda>q. AsFunc q = None" and Q = "\<lambda>a. \<not> gives_As a"],
      auto simp: zero_Queryer_def queryer_arg_def gives_defs is_Queryer_def split: arg.splits)+

lemma begin_unset: "\<forall>a\<in>set args. \<not> gives_BeginTx a \<Longrightarrow> BeginTxFunc (NewBeginTxer args) = None"
  unfolding NewBeginTxer_def
  by (rule fold_invariant [where Q = "\<lambda>a. \<not> gives_BeginTx a"])
    (auto simp: begin_arg_def gives_defs split: arg.splits)

lemma txer_unset:
  "\<forall>a\<in>set args. \<not> gives_Commit a \<Longrightarrow> CommitFunc (NewTxer args) = None"
  "\<forall>a\<in>set args. \<not> gives_Rollback a \<Longrightarrow> RollbackFunc (NewTxer args) = None"
  unfolding NewTxer_def
  by (rule fold_invariant [where P = "\<lambda>t. CommitFunc t = None" and Q = "\<lambda>a. \<not> gives_Commit a"]
       fold_invariant [where P = "\<lambda>t. RollbackFunc t = None" and Q = "\<lambda>a. \<not> gives_Rollback a"],
      auto simp: txer_arg_def gives_defs split: arg.splits)+

lemma connection_unset: "\<forall>a\<in>set args. \<not> gives_Close a \<Longrightarrow> CloseFunc (NewConnection args) = None"
  unfolding NewConnection_def
  by (rule fold_invariant [where Q = "\<lambda>a. \<not> gives_Close a"])
    (auto simp: connection_arg_def gives_defs split: arg.splits)

lemma pool_unset: "\<forall>a\<in>set args. \<not> gives_Conn a \<Longrightarrow> ConnFunc (NewPool args) = None"
  unfolding NewPool_def
  by (rule fold_invariant [where Q = "\<lambda>a. \<not> gives_Conn a"])
    (auto simp: pool_arg_def gives_defs split: arg.splits)

text \<open>The parts that a constructor passes its arguments on to.\<close>

lemma tx_Queryer_NewTxer [simp]: "tx_Queryer (NewTxer args) = NewQueryer args"
  unfolding NewTxer_def
  by (rule fold_invariant [where Q = "\<lambda>_. True"]) (auto simp: txer_arg_def split: arg.splits)

lemma NewConnection_parts [simp]:
  "conn_Queryer (NewConnection args) = NewQueryer args" "conn_BeginTxer (NewConnection args) = NewBeginTxer args"
  unfolding NewConnection_def
  by (rule fold_invariant [where Q = "\<lambda>_. True"], auto simp: connection_arg_def split: arg.splits)+

lemma pool_Connection_NewPool [simp]: "pool_Connection (NewPool args) = NewConnection args"
  unfolding NewPool_def
  by (rule fold_invariant [where Q = "\<lambda>_. True"]) (auto simp: pool_arg_def split: arg.splits)

text \<open>The methods of a mock, as a caller of the interface reaches them.\<close>

lemma Pool_value_methods [simp]:
  "m_Exec (Pool_value p) = Some (Queryer_Exec (conn_Queryer (pool_Connection p)))"
  "m_QueryOne (Pool_value p) = Some (Queryer_QueryOne (conn_Queryer (pool_Connection p)))"
  "m_QueryMany (Pool_value p) = Some (Queryer_QueryMany (conn_Queryer (pool_Connection p)))"
  "m_Cursor (Pool_value p) = Some (Queryer_Cursor (conn_Queryer (pool_Connection p)))"
  "m_As (Pool_value p) = Some (Queryer_As (conn_Queryer (pool_Connection p)))"
  "m_BeginTx (Pool_value p) = Some (BeginTxer_BeginTx (conn_BeginTxer (pool_Connection p)))"
  "m_Close (Pool_value p) = Some (Connection_Close (pool_Connection p))"
  "m_Conn (Pool_value p) = Some (Pool_Conn p)"
  by (simp_all add: Pool_value_def Let_def)

lemma Cursor_value_methods [simp]:
  "m_Close (Cursor_value c) = Some (Cursor_Close c)" "m_Err (Cursor_value c) = Some (Cursor_Err c)"
  "m_Next (Cursor_value c) = Some (Cursor_Next c)" "m_Scan (Cursor_value c) = Some (Cursor_Scan c)"
  by (simp_all add: Cursor_value_def)

text \<open>
  C37. An operation of a mock that no argument gives fails with \<open>ErrNotMocked\<close> and does nothing, one by one: the
  operations of a pool, and the end of a transaction; \<open>As\<close> is false and \<open>Cursor\<close> gives a cursor without rows
  whose other operations fail the same way.
\<close>

theorem not_mocked:
  "((\<forall>a\<in>set args. \<not> gives_Exec a) \<longrightarrow> (\<exists>f. m_Exec (Pool_value (NewPool args)) = Some f \<and> f c s xs w = (Inl ErrNotMocked, w)))
   \<and> ((\<forall>a\<in>set args. \<not> gives_QueryOne a) \<longrightarrow>
        (\<exists>f. m_QueryOne (Pool_value (NewPool args)) = Some f \<and> f c x s xs w = (Some ErrNotMocked, w)))
   \<and> ((\<forall>a\<in>set args. \<not> gives_QueryMany a) \<longrightarrow>
        (\<exists>f. m_QueryMany (Pool_value (NewPool args)) = Some f \<and> f c x s xs w = (Some ErrNotMocked, w)))
   \<and> ((\<forall>a\<in>set args. \<not> gives_BeginTx a) \<longrightarrow>
        (\<exists>f. m_BeginTx (Pool_value (NewPool args)) = Some f \<and> f c opts w = (Inl ErrNotMocked, w)))
   \<and> ((\<forall>a\<in>set args. \<not> gives_Close a) \<longrightarrow>
        (\<exists>f. m_Close (Pool_value (NewPool args)) = Some f \<and> f w = (Some ErrNotMocked, w)))
   \<and> ((\<forall>a\<in>set args. \<not> gives_Conn a) \<longrightarrow>
        (\<exists>f. m_Conn (Pool_value (NewPool args)) = Some f \<and> f c w = (Inl ErrNotMocked, w)))
   \<and> ((\<forall>a\<in>set args. \<not> gives_As a) \<longrightarrow> (\<exists>f. m_As (Pool_value (NewPool args)) = Some f \<and> f x w = (False, w)))
   \<and> ((\<forall>a\<in>set args. \<not> gives_Commit a) \<longrightarrow> Txer_Commit (NewTxer args) c w = (Some ErrNotMocked, w))
   \<and> ((\<forall>a\<in>set args. \<not> gives_Rollback a) \<longrightarrow> Txer_Rollback (NewTxer args) c w = (Some ErrNotMocked, w))
   \<and> ((\<forall>a\<in>set args. \<not> gives_Cursor a) \<longrightarrow>
        (\<exists>f cur next_f err_f scan_f close_f. m_Cursor (Pool_value (NewPool args)) = Some f \<and> f c s xs w = (cur, w)
           \<and> m_Next cur = Some next_f \<and> next_f w = (False, w)
           \<and> m_Err cur = Some err_f \<and> err_f w = (Some ErrNotMocked, w)
           \<and> m_Scan cur = Some scan_f \<and> scan_f x w = (Some ErrNotMocked, w)
           \<and> m_Close cur = Some close_f \<and> close_f w = (Some ErrNotMocked, w)))"
  by (intro conjI impI)
    (simp_all add: Queryer_Exec_def Queryer_QueryOne_def Queryer_QueryMany_def BeginTxer_BeginTx_def
      Connection_Close_def Pool_Conn_def Queryer_As_def Txer_Commit_def Txer_Rollback_def Queryer_Cursor_def
      Cursor_Next_def Cursor_Err_def Cursor_Scan_def Cursor_Close_def zero_Cursor_def
      queryer_unset begin_unset connection_unset pool_unset txer_unset)

theorem not_mocked_witness:
  "Txer_Rollback (NewTxer [FNext (Some (\<lambda>w. (True, w))), ANil, FEnd None :: (nat, unit, unit) arg]) () 7
     = (Some ErrNotMocked, 7)"
proof -
  let ?args = "[FNext (Some (\<lambda>w. (True, w))), ANil, FEnd None :: (nat, unit, unit) arg]"
  have "\<forall>a\<in>set ?args. \<not> gives_Rollback a" by (simp add: gives_Rollback_def)
  then show ?thesis
    using not_mocked [where args = ?args and c = "()" and w = 7] by blast
qed

section \<open>Two operations of one signature\<close>

text \<open>
  \<open>Commit\<close> and \<open>Rollback\<close>, \<open>QueryOne\<close> and \<open>QueryMany\<close>, \<open>Close\<close> and \<open>Err\<close> of a cursor have the same signature: a function
  goes to the first operation while that has none, then to the second.
\<close>

locale two_operations =
  fixes step :: "'a \<Rightarrow> 's \<Rightarrow> 's" and fst_op snd_op :: "'s \<Rightarrow> 'f option"
    and func :: "'a \<Rightarrow> 'f option option" and other :: "'a \<Rightarrow> bool"
  assumes step_func: "func a = Some f \<Longrightarrow>
      fst_op (step a s) = (if fst_op s = None then f else fst_op s)
      \<and> snd_op (step a s) = (if fst_op s = None then snd_op s else f)"
    and step_other: "other a \<Longrightarrow> fst_op (step a s) = fst_op s \<and> snd_op (step a s) = snd_op s"
    and other_func: "other a \<Longrightarrow> func a = None"
begin

text \<open>The functions among the arguments, in order.\<close>

definition given :: "'a list \<Rightarrow> 'f list" where
  "given args = List.map_filter (\<lambda>a. Option.bind (func a) (\<lambda>f. f)) args"

lemma given_simps [simp]:
  "given [] = []"
  "given (a # args) = (case func a of Some (Some f) \<Rightarrow> f # given args | _ \<Rightarrow> given args)"
  by (auto simp: given_def map_filter_simps split: option.splits)

lemma after_first:
  assumes "fst_op s = Some f" "\<forall>a\<in>set args. other a \<or> (\<exists>g. func a = Some (Some g))"
  shows "fst_op (fold step args s) = Some f
    \<and> snd_op (fold step args s) = (if given args = [] then snd_op s else Some (last (given args)))"
  using assms
proof (induction args arbitrary: s)
  case (Cons a args)
  from Cons.prems(2) consider "other a" | g where "func a = Some (Some g)" by auto
  then show ?case
  proof cases
    case 1
    with Cons step_other [OF 1, of s] other_func [OF 1] show ?thesis by simp
  next
    case (2 g)
    with Cons step_func [OF 2, of s] show ?thesis by simp
  qed
qed simp

lemma in_order:
  assumes "fst_op s = None" "snd_op s = None" "\<forall>a\<in>set args. other a \<or> (\<exists>g. func a = Some (Some g))"
  shows "fst_op (fold step args s) = (case given args of [] \<Rightarrow> None | f # _ \<Rightarrow> Some f)
    \<and> snd_op (fold step args s) = (case given args of f # g # fs \<Rightarrow> Some (last (g # fs)) | _ \<Rightarrow> None)"
  using assms
proof (induction args arbitrary: s)
  case (Cons a args)
  from Cons.prems(3) consider "other a" | g where "func a = Some (Some g)" by auto
  then show ?case
  proof cases
    case 1
    with Cons step_other [OF 1, of s] other_func [OF 1] show ?thesis by simp
  next
    case (2 g)
    with step_func [OF 2, of s] Cons.prems have "fst_op (step a s) = Some g" "snd_op (step a s) = None" by simp_all
    from after_first [OF this(1), of args] this(2) Cons.prems(3) 2
    show ?thesis by (auto split: list.splits)
  qed
qed simp

end

definition end_func :: "('w, 'c, 'x) arg \<Rightarrow> ('w, 'c) end_fn option option" where
  "end_func a = (case a of FEnd v \<Rightarrow> Some v | _ \<Rightarrow> None)"

definition query_func :: "('w, 'c, 'x) arg \<Rightarrow> ('w, 'c, 'x) query_fn option option" where
  "query_func a = (case a of FQuery v \<Rightarrow> Some v | _ \<Rightarrow> None)"

definition err_func :: "('w, 'c, 'x) arg \<Rightarrow> 'w err_fn option option" where
  "err_func a = (case a of FErr v \<Rightarrow> Some v | _ \<Rightarrow> None)"

text \<open>An argument without the operations of the pair, and no function of their signature.\<close>

definition not_end :: "('w, 'c, 'x) arg \<Rightarrow> bool" where
  "not_end a = (case a of FEnd _ \<Rightarrow> False | AObj v \<Rightarrow> m_Commit v = None \<and> m_Rollback v = None | _ \<Rightarrow> True)"

definition not_query :: "('w, 'c, 'x) arg \<Rightarrow> bool" where
  "not_query a = (case a of FQuery _ \<Rightarrow> False | AObj v \<Rightarrow> m_QueryOne v = None \<and> m_QueryMany v = None | _ \<Rightarrow> True)"

definition not_err :: "('w, 'c, 'x) arg \<Rightarrow> bool" where
  "not_err a = (case a of FErr _ \<Rightarrow> False | AObj v \<Rightarrow> m_Close v = None \<and> m_Err v = None | _ \<Rightarrow> True)"

interpretation ends: two_operations txer_arg CommitFunc RollbackFunc end_func not_end
  by unfold_locales (auto simp: txer_arg_def end_func_def not_end_def split: arg.splits)

interpretation queries: two_operations queryer_arg QueryOneFunc QueryManyFunc query_func not_query
  by unfold_locales (auto simp: queryer_arg_def query_func_def not_query_def is_Queryer_def split: arg.splits)

interpretation cursors: two_operations cursor_arg cu_CloseFunc cu_ErrFunc err_func not_err
  by unfold_locales (auto simp: cursor_arg_def err_func_def not_err_def split: arg.splits)

text \<open>
  Functions of one signature mock two operations in order: the first of them is \<open>Commit\<close> of a transaction
  (\<open>QueryOne\<close> of a queryer, \<open>Close\<close> of a cursor), and the last of the others is \<open>Rollback\<close> (\<open>QueryMany\<close>, \<open>Err\<close>); other
  arguments that have none of the two operations do not matter.
\<close>

theorem functions_in_order:
  "((\<forall>a\<in>set args. not_end a \<or> (\<exists>f. a = FEnd (Some f))) \<longrightarrow>
      CommitFunc (NewTxer args) = (case [f. FEnd (Some f) \<leftarrow> args] of [] \<Rightarrow> None | f # _ \<Rightarrow> Some f)
      \<and> RollbackFunc (NewTxer args) = (case [f. FEnd (Some f) \<leftarrow> args] of f # g # fs \<Rightarrow> Some (last (g # fs)) | _ \<Rightarrow> None))
   \<and> ((\<forall>a\<in>set args. not_query a \<or> (\<exists>f. a = FQuery (Some f))) \<longrightarrow>
      QueryOneFunc (NewQueryer args) = (case [f. FQuery (Some f) \<leftarrow> args] of [] \<Rightarrow> None | f # _ \<Rightarrow> Some f)
      \<and> QueryManyFunc (NewQueryer args) = (case [f. FQuery (Some f) \<leftarrow> args] of f # g # fs \<Rightarrow> Some (last (g # fs)) | _ \<Rightarrow> None))
   \<and> ((\<forall>a\<in>set args. not_err a \<or> (\<exists>f. a = FErr (Some f))) \<longrightarrow>
      cu_CloseFunc (NewCursor args) = (case [f. FErr (Some f) \<leftarrow> args] of [] \<Rightarrow> None | f # _ \<Rightarrow> Some f)
      \<and> cu_ErrFunc (NewCursor args) = (case [f. FErr (Some f) \<leftarrow> args] of f # g # fs \<Rightarrow> Some (last (g # fs)) | _ \<Rightarrow> None))"
proof -
  have e: "ends.given args = [f. FEnd (Some f) \<leftarrow> args]"
    unfolding ends.given_def end_func_def
    by (induction args) (auto simp: map_filter_simps split: arg.splits option.splits)
  have q: "queries.given args = [f. FQuery (Some f) \<leftarrow> args]"
    unfolding queries.given_def query_func_def
    by (induction args) (auto simp: map_filter_simps split: arg.splits option.splits)
  have c: "cursors.given args = [f. FErr (Some f) \<leftarrow> args]"
    unfolding cursors.given_def err_func_def
    by (induction args) (auto simp: map_filter_simps split: arg.splits option.splits)
  have "(\<forall>a\<in>set args. not_end a \<or> (\<exists>f. a = FEnd (Some f))) \<Longrightarrow> \<forall>a\<in>set args. not_end a \<or> (\<exists>g. end_func a = Some (Some g))"
    "(\<forall>a\<in>set args. not_query a \<or> (\<exists>f. a = FQuery (Some f))) \<Longrightarrow> \<forall>a\<in>set args. not_query a \<or> (\<exists>g. query_func a = Some (Some g))"
    "(\<forall>a\<in>set args. not_err a \<or> (\<exists>f. a = FErr (Some f))) \<Longrightarrow> \<forall>a\<in>set args. not_err a \<or> (\<exists>g. err_func a = Some (Some g))"
    by (auto simp: end_func_def query_func_def err_func_def)
  note h = this
  show ?thesis
    unfolding NewTxer_def NewQueryer_def NewCursor_def
    using ends.in_order [OF _ _ h(1)] queries.in_order [OF _ _ h(2)] cursors.in_order [OF _ _ h(3)]
    by (intro conjI impI) (simp_all add: e q c zero_Queryer_def zero_Cursor_def)
qed

theorem functions_in_order_witness:
  "CommitFunc (NewTxer [FEnd (Some (\<lambda>_ w. (None, w + 1))), ANil, FEnd (Some (\<lambda>_ w. (None, w + 2))) :: (nat, unit, unit) arg])
     = Some (\<lambda>_ w. (None, w + 1))
   \<and> RollbackFunc (NewTxer [FEnd (Some (\<lambda>_ w. (None, w + 1))), ANil, FEnd (Some (\<lambda>_ w. (None, w + 2))) :: (nat, unit, unit) arg])
     = Some (\<lambda>_ w. (None, w + 2))"
  using functions_in_order [of "[FEnd (Some (\<lambda>_ w. (None, w + 1))), ANil, FEnd (Some (\<lambda>_ w. (None, w + 2)))
      :: (nat, unit, unit) arg]"]
  by (simp add: not_end_def)

section \<open>Mocks of values\<close>

text \<open>A method is its function, or the failure.\<close>

lemma mock_methods:
  "Queryer_Exec q = (case ExecFunc q of Some f \<Rightarrow> f | None \<Rightarrow> (\<lambda>c s xs w. (Inl ErrNotMocked, w)))"
  "Queryer_QueryOne q = (case QueryOneFunc q of Some f \<Rightarrow> f | None \<Rightarrow> (\<lambda>c x s xs w. (Some ErrNotMocked, w)))"
  "Queryer_QueryMany q = (case QueryManyFunc q of Some f \<Rightarrow> f | None \<Rightarrow> (\<lambda>c x s xs w. (Some ErrNotMocked, w)))"
  "Queryer_Cursor q = (case CursorFunc q of Some f \<Rightarrow> f | None \<Rightarrow> (\<lambda>c s xs w. (Cursor_value zero_Cursor, w)))"
  "Queryer_As q = (case AsFunc q of Some f \<Rightarrow> f | None \<Rightarrow> (\<lambda>i w. (False, w)))"
  "BeginTxer_BeginTx b = (case BeginTxFunc b of Some f \<Rightarrow> f | None \<Rightarrow> (\<lambda>c opts w. (Inl ErrNotMocked, w)))"
  "Txer_Commit t = (case CommitFunc t of Some f \<Rightarrow> f | None \<Rightarrow> (\<lambda>c w. (Some ErrNotMocked, w)))"
  "Txer_Rollback t = (case RollbackFunc t of Some f \<Rightarrow> f | None \<Rightarrow> (\<lambda>c w. (Some ErrNotMocked, w)))"
  "Connection_Close k = (case CloseFunc k of Some f \<Rightarrow> f | None \<Rightarrow> (\<lambda>w. (Some ErrNotMocked, w)))"
  "Pool_Conn p = (case ConnFunc p of Some f \<Rightarrow> f | None \<Rightarrow> (\<lambda>c w. (Inl ErrNotMocked, w)))"
  by (auto simp: fun_eq_iff Queryer_Exec_def Queryer_QueryOne_def Queryer_QueryMany_def Queryer_Cursor_def
      Queryer_As_def BeginTxer_BeginTx_def Txer_Commit_def Txer_Rollback_def Connection_Close_def Pool_Conn_def
      split: option.splits)

text \<open>
  A mock made from one value of the interface is that value: a transaction keeps its operations, and so does a
  pool, with one exception: \<open>Conn\<close> of the mock does not call \<open>Conn\<close> of the pool, it returns the pool itself as the
  connection. So a caller that closes the connection closes the pool.
\<close>

theorem mock_of_value:
  "(is_Txer t \<longrightarrow> Txer_value (NewTxer [AObj t]) =
      Obj (m_Exec t) (m_QueryOne t) (m_QueryMany t) (m_Cursor t) (m_As t) None (m_Commit t) (m_Rollback t)
        None None None None None)
   \<and> (is_Pool p \<and> \<not> is_Txer p \<longrightarrow> Pool_value (NewPool [AObj p]) =
      Obj (m_Exec p) (m_QueryOne p) (m_QueryMany p) (m_Cursor p) (m_As p) (m_BeginTx p) None None (m_Close p)
        (Some (\<lambda>_ w. (Inr p, w))) None None None)"
  by (auto simp: Txer_value_def Pool_value_def NewTxer_def NewPool_def NewQueryer_def NewBeginTxer_def NewConnection_def
      queryer_arg_def txer_arg_def begin_arg_def connection_arg_def pool_arg_def mock_methods
      is_Pool_def is_Connection_def is_Txer_def is_Queryer_def)

theorem mock_of_value_witness:
  "m_Conn (Pool_value (NewPool [AObj (Pool_value (NewPool [] :: (nat, unit, unit) Pool))]))
     = Some (\<lambda>_ w. (Inr (Pool_value (NewPool [])), w))
   \<and> m_Rollback (Txer_value (NewTxer [AObj (Txer_value (NewTxer [FEnd (Some (\<lambda>_ w. (None, w))) :: (nat, unit, unit) arg]))]))
     = Some (\<lambda>_ w. (Some ErrNotMocked, w))"
proof -
  let ?p = "Pool_value (NewPool [] :: (nat, unit, unit) Pool)"
  let ?t = "Txer_value (NewTxer [FEnd (Some (\<lambda>_ w. (None, w))) :: (nat, unit, unit) arg])"
  have "is_Pool ?p \<and> \<not> is_Txer ?p"
    by (simp add: Pool_value_def is_Pool_def is_Connection_def is_Queryer_def is_Txer_def Let_def)
  moreover have "is_Txer ?t"
    by (simp add: Txer_value_def is_Queryer_def is_Txer_def Let_def)
  moreover have "m_Rollback ?t = Some (\<lambda>_ w. (Some ErrNotMocked, w))"
    by (simp add: Txer_value_def mock_methods NewTxer_def txer_arg_def Let_def)
  ultimately show ?thesis
    using mock_of_value [of ?t ?p] by simp
qed

text \<open>A function after a value that has \<open>QueryOne\<close> mocks \<open>QueryMany\<close>, though it is the first function.\<close>

lemma function_after_value:
  assumes "m_QueryOne v = Some f"
  shows "QueryOneFunc (NewQueryer [AObj v, FQuery (Some g)]) = Some f
    \<and> QueryManyFunc (NewQueryer [AObj v, FQuery (Some g)]) = Some g"
  using assms by (simp add: NewQueryer_def queryer_arg_def zero_Queryer_def)

end
