(* ===== verification/Testdb.thy ===== *)
theory Testdb
  imports Errors
begin

text \<open>
  Isolated test databases (\<^verbatim>\<open>src/pgdb/testdb/testdb.go\<close>): the creation of a database and its user, the setup
  functions and the clean-up, over records of the operations of the libraries, with statements as their text; and the
  mock of the \<^verbatim>\<open>pg_cron\<close> extension, whose SQL functions act on a table of jobs. A call of \<open>Fatal\<close> ends the test and is
  the error of a sum; what is registered with \<open>Cleanup\<close> runs at the end of the test, last registered first. Byte strings
  stand for Go's strings; \<open>strings.ToLower\<close> is modelled on ASCII.
\<close>

section \<open>The mock of pg_cron\<close>

text \<open>The statements that make it, in order.\<close>

datatype cron_stmt = CreateSchema | CreateJobTable | CreateJobIndex | CreateJobPolicy | CreateRunTable
  | CreateRunPolicy | CreateScheduleNamed | CreateSchedule | CreateUnscheduleName | CreateUnscheduleId

definition cron_stmts :: "cron_stmt list" where
  "cron_stmts = [CreateSchema, CreateJobTable, CreateJobIndex, CreateJobPolicy, CreateRunTable,
     CreateRunPolicy, CreateScheduleNamed, CreateSchedule, CreateUnscheduleName, CreateUnscheduleId]"

text \<open>Statements run one after the other; the first error ends it.\<close>

fun exec_stmts :: "('s \<Rightarrow> 'w \<Rightarrow> goerr option \<times> 'w) \<Rightarrow> 's list \<Rightarrow> 'w \<Rightarrow> goerr option \<times> 'w" where
  "exec_stmts ex [] w = (None, w)"
| "exec_stmts ex (s # ss) w = (case ex s w of (Some err, w1) \<Rightarrow> (Some err, w1) | (None, w1) \<Rightarrow> exec_stmts ex ss w1)"

definition mockPgcron :: "(cron_stmt \<Rightarrow> 'w \<Rightarrow> goerr option \<times> 'w) \<Rightarrow> 'w \<Rightarrow> goerr option \<times> 'w" where
  "mockPgcron ex w = exec_stmts ex cron_stmts w"

text \<open>A job, and who schedules: the values of the column defaults.\<close>

record job =
  jobid :: int
  schedule :: string
  command :: string
  nodename :: string
  nodeport :: int
  database :: string
  username :: string
  active :: bool
  jobname :: "string option"

record cron_session =
  server_port :: "int option" \<comment> \<open>null on a Unix socket\<close>
  current_database :: string
  current_user :: string

text \<open>The table, and the next value of the sequence of its key.\<close>

record cron_db =
  jobs :: "job list"
  job_seq :: int

text \<open>The column \<open>jobname\<close> has type \<open>NAME\<close>: a longer text is cut to 63 bytes when it is stored.\<close>

definition to_name :: "string \<Rightarrow> string" where
  "to_name s = take 63 s"

text \<open>
  \<^verbatim>\<open>cron.schedule(job_name, schedule, command)\<close>: an insert that becomes an update of the job of the same name and user.
  A null name conflicts with none. The default of the key is taken in any case, and the row to insert must have a port.
\<close>

definition same_job :: "cron_session \<Rightarrow> string option \<Rightarrow> job \<Rightarrow> bool" where
  "same_job s name j \<longleftrightarrow> name \<noteq> None \<and> jobname j = map_option to_name name \<and> username j = current_user s"

definition new_job :: "cron_session \<Rightarrow> int \<Rightarrow> int \<Rightarrow> string option \<Rightarrow> string \<Rightarrow> string \<Rightarrow> job" where
  "new_job s port i name sched cmd = \<lparr>jobid = i, schedule = sched, command = cmd, nodename = ''localhost'',
     nodeport = port, database = current_database s, username = current_user s, active = True,
     jobname = map_option to_name name\<rparr>"

definition null_port :: goerr where
  "null_port = OpaqueErr ''null value in column nodeport violates not-null constraint''"

definition cron_schedule_named :: "cron_session \<Rightarrow> string option \<Rightarrow> string \<Rightarrow> string \<Rightarrow> cron_db \<Rightarrow> int res \<times> cron_db" where
  "cron_schedule_named s name sched cmd db =
     (let i = job_seq db; db1 = db\<lparr>job_seq := i + 1\<rparr> in
      case server_port s of
        None \<Rightarrow> (Inl null_port, db1)
      | Some port \<Rightarrow>
          (case find (same_job s name) (jobs db1) of
             Some j \<Rightarrow> (Inr (jobid j),
               db1\<lparr>jobs := map (\<lambda>k. if same_job s name k then k\<lparr>schedule := sched, command := cmd\<rparr> else k) (jobs db1)\<rparr>)
           | None \<Rightarrow> (Inr i, db1\<lparr>jobs := jobs db1 @ [new_job s port i name sched cmd]\<rparr>)))"

definition cron_schedule :: "cron_session \<Rightarrow> string \<Rightarrow> string \<Rightarrow> cron_db \<Rightarrow> int res \<times> cron_db" where
  "cron_schedule s sched cmd db = cron_schedule_named s None sched cmd db"

text \<open>A delete that must find a row; the text is compared whole.\<close>

definition no_such_job :: "string \<Rightarrow> goerr" where
  "no_such_job j = OpaqueErr (''could not find valid entry for job '' @ j)"

definition cron_unschedule_name :: "string \<Rightarrow> cron_db \<Rightarrow> bool res \<times> cron_db" where
  "cron_unschedule_name name db =
     (if list_ex (\<lambda>j. jobname j = Some name) (jobs db)
      then (Inr True, db\<lparr>jobs := filter (\<lambda>j. jobname j \<noteq> Some name) (jobs db)\<rparr>)
      else (Inl (no_such_job name), db))"

definition cron_unschedule_id :: "int \<Rightarrow> cron_db \<Rightarrow> bool res \<times> cron_db" where
  "cron_unschedule_id i db =
     (if list_ex (\<lambda>j. jobid j = i) (jobs db)
      then (Inr True, db\<lparr>jobs := filter (\<lambda>j. jobid j \<noteq> i) (jobs db)\<rparr>)
      else (Inl (no_such_job (go_Sprint i)), db))"

section \<open>Properties of the mock of pg_cron\<close>

text \<open>The key is unique and below the sequence; a name is unique for its user.\<close>

definition cron_ok :: "cron_db \<Rightarrow> bool" where
  "cron_ok db \<longleftrightarrow> distinct (map jobid (jobs db)) \<and> (\<forall>j\<in>set (jobs db). jobid j < job_seq db)
     \<and> (\<forall>j\<in>set (jobs db). \<forall>k\<in>set (jobs db). jobname j \<noteq> None \<longrightarrow> jobname j = jobname k \<longrightarrow> username j = username k \<longrightarrow> j = k)
     \<and> (\<forall>j\<in>set (jobs db). \<forall>n. jobname j = Some n \<longrightarrow> length n \<le> 63)"

lemma cron_okD:
  assumes "cron_ok db" "j \<in> set (jobs db)"
  shows "jobid j < job_seq db" "jobname j = Some n \<Longrightarrow> length n \<le> 63"
    "k \<in> set (jobs db) \<Longrightarrow> jobname j \<noteq> None \<Longrightarrow> jobname j = jobname k \<Longrightarrow> username j = username k \<Longrightarrow> j = k"
  using assms unfolding cron_ok_def by blast+

lemma same_job_eq:
  assumes "cron_ok db" "j \<in> set (jobs db)" "k \<in> set (jobs db)" "same_job s name j" "same_job s name k"
  shows "j = k"
  using assms by (auto simp: same_job_def intro!: cron_okD(3) [OF assms(1,2,3)])

definition update_job :: "cron_session \<Rightarrow> string option \<Rightarrow> string \<Rightarrow> string \<Rightarrow> job \<Rightarrow> job" where
  "update_job s name sched cmd k = (if same_job s name k then k\<lparr>schedule := sched, command := cmd\<rparr> else k)"

lemma update_job_fields [simp]:
  "jobid (update_job s name sched cmd k) = jobid k" "jobname (update_job s name sched cmd k) = jobname k"
  "username (update_job s name sched cmd k) = username k"
  by (simp_all add: update_job_def)

lemma cron_ok_new:
  assumes "cron_ok db" "\<forall>j\<in>set (jobs db). \<not> same_job s name j"
  shows "cron_ok (db\<lparr>job_seq := job_seq db + 1, jobs := jobs db @ [new_job s port (job_seq db) name sched cmd]\<rparr>)"
  using assms by (auto simp: cron_ok_def new_job_def same_job_def to_name_def)

lemma cron_ok_update:
  assumes "cron_ok db"
  shows "cron_ok (db\<lparr>job_seq := job_seq db + 1, jobs := map (update_job s name sched cmd) (jobs db)\<rparr>)"
proof -
  have "distinct (map jobid (map (update_job s name sched cmd) (jobs db)))"
    using assms by (simp add: cron_ok_def comp_def)
  with assms show ?thesis
    by (auto simp: cron_ok_def)
qed

lemma cron_ok_filter: "cron_ok db \<Longrightarrow> cron_ok (db\<lparr>jobs := filter p (jobs db)\<rparr>)"
  by (auto simp: cron_ok_def distinct_map_filter)

lemma schedule_cases:
  "cron_schedule_named s name sched cmd db =
     (case server_port s of
        None \<Rightarrow> (Inl null_port, db\<lparr>job_seq := job_seq db + 1\<rparr>)
      | Some port \<Rightarrow>
          (case find (same_job s name) (jobs db) of
             Some j \<Rightarrow> (Inr (jobid j), db\<lparr>job_seq := job_seq db + 1, jobs := map (update_job s name sched cmd) (jobs db)\<rparr>)
           | None \<Rightarrow> (Inr (job_seq db),
               db\<lparr>job_seq := job_seq db + 1, jobs := jobs db @ [new_job s port (job_seq db) name sched cmd]\<rparr>)))"
  by (simp add: cron_schedule_named_def Let_def update_job_def [abs_def] split: option.split)

lemma cron_ok_seq: "cron_ok db \<Longrightarrow> cron_ok (db\<lparr>job_seq := job_seq db + 1\<rparr>)"
  by (force simp: cron_ok_def)

lemma to_name_short [simp]: "length name \<le> 63 \<Longrightarrow> to_name name = name"
  by (simp add: to_name_def)

lemma find_None_all: "find p xs = None \<longleftrightarrow> (\<forall>x\<in>set xs. \<not> p x)"
  by (auto simp: find_None_iff)

lemma find_SomeD: "find p xs = Some x \<Longrightarrow> x \<in> set xs \<and> p x"
  by (auto simp: find_Some_iff)

lemma cron_schedule_ok: "cron_ok db \<Longrightarrow> cron_ok (snd (cron_schedule_named s name sched cmd db))"
  unfolding schedule_cases
  by (auto split: option.split simp: find_None_all intro: cron_ok_new cron_ok_update cron_ok_seq)

text \<open>
  C38. Scheduling is an upsert on the name and the user: the id that is returned is that of a job with the given
  schedule, command and (63-byte) name, for the current user; all other jobs are as before; there is a new job
  exactly when the user had none of that name, and always without a name. The table keeps its unique keys
  and names, and unscheduling keeps them too.
\<close>

theorem cron_schedule_exact:
  assumes "cron_ok db" "cron_schedule_named s name sched cmd db = (Inr i, db')"
  shows "cron_ok db'
    \<and> (\<exists>j\<in>set (jobs db'). jobid j = i \<and> schedule j = sched \<and> command j = cmd
         \<and> jobname j = map_option to_name name \<and> username j = current_user s)
    \<and> (\<forall>k. jobid k \<noteq> i \<longrightarrow> (k \<in> set (jobs db') \<longleftrightarrow> k \<in> set (jobs db)))
    \<and> length (jobs db') = (if \<exists>j\<in>set (jobs db). same_job s name j then length (jobs db) else Suc (length (jobs db)))
    \<and> cron_ok (snd (cron_unschedule_name n db)) \<and> cron_ok (snd (cron_unschedule_id m db))"
proof -
  have un: "cron_ok (snd (cron_unschedule_name n db))" "cron_ok (snd (cron_unschedule_id m db))"
    using assms(1) by (auto simp: cron_unschedule_name_def cron_unschedule_id_def intro: cron_ok_filter)
  from cron_schedule_ok [OF assms(1)] assms(2) have ok: "cron_ok db'" by (metis snd_conv)
  show ?thesis
  proof (cases "find (same_job s name) (jobs db)")
    case None
    with assms(2) obtain port where d: "i = job_seq db" "jobs db' = jobs db @ [new_job s port (job_seq db) name sched cmd]"
      by (auto simp: schedule_cases split: option.splits)
    with None ok un show ?thesis by (auto simp: find_None_all new_job_def)
  next
    case (Some j)
    with assms(2) have d: "i = jobid j" "jobs db' = map (update_job s name sched cmd) (jobs db)"
      by (auto simp: schedule_cases split: option.splits)
    from find_SomeD [OF Some] have j: "j \<in> set (jobs db)" "same_job s name j" by auto
    from same_job_eq [OF assms(1)] j
    have "update_job s name sched cmd k = k" if "k \<in> set (jobs db)" "jobid k \<noteq> i" for k
      using that d by (auto simp: update_job_def)
    then have "k \<in> set (jobs db') \<longleftrightarrow> k \<in> set (jobs db)" if "jobid k \<noteq> i" for k
      using that d by (auto simp: image_iff) (metis update_job_fields(1))+
    moreover have "\<exists>j\<in>set (jobs db'). jobid j = i \<and> schedule j = sched \<and> command j = cmd
         \<and> jobname j = map_option to_name name \<and> username j = current_user s"
      by (rule bexI [of _ "update_job s name sched cmd j"]) (use j d in \<open>auto simp: update_job_def same_job_def\<close>)
    ultimately show ?thesis
      using j d ok un by auto
  qed
qed

definition sample_session :: cron_session where
  "sample_session = \<lparr>server_port = Some 5432, current_database = ''d'', current_user = ''u''\<rparr>"

definition sample_cron :: cron_db where "sample_cron = \<lparr>jobs = [], job_seq = 1\<rparr>"

lemma sample_schedule:
  "cron_schedule_named sample_session (Some ''a'') ''s'' ''c'' sample_cron
     = (Inr 1, \<lparr>jobs = [new_job sample_session 5432 1 (Some ''a'') ''s'' ''c''], job_seq = 2\<rparr>)"
  "cron_ok sample_cron"
  by (simp_all add: schedule_cases sample_session_def sample_cron_def cron_ok_def)

theorem cron_schedule_exact_witness:
  "\<exists>j\<in>set (jobs (snd (cron_schedule_named sample_session (Some ''a'') ''s'' ''c'' sample_cron))). jobid j = 1 \<and> schedule j = ''s''"
  using cron_schedule_exact [OF sample_schedule(2,1)] by (auto simp: sample_schedule(1))

text \<open>A job of a new name is gone after it is unscheduled, by its name or its id.\<close>

lemma schedule_new:
  assumes "\<forall>j\<in>set (jobs db). jobname j \<noteq> map_option to_name name" "server_port s = Some port"
  shows "cron_schedule_named s name sched cmd db =
    (Inr (job_seq db), db\<lparr>job_seq := job_seq db + 1, jobs := jobs db @ [new_job s port (job_seq db) name sched cmd]\<rparr>)"
  using assms by (auto simp: schedule_cases same_job_def find_None_all split: option.split dest!: find_SomeD)

text \<open>
  Scheduling a job under a new name and then unscheduling it, by that name (of at most 63 bytes) or by the id that
  \<open>schedule\<close> returned, succeeds and leaves the table as it was; doing it again fails and changes nothing.
\<close>

theorem cron_unschedule_schedule:
  assumes "cron_ok db" "\<forall>j\<in>set (jobs db). jobname j \<noteq> Some name" "length name \<le> 63"
    and "cron_schedule_named s (Some name) sched cmd db = (Inr i, db1)"
  shows "(\<exists>db2. cron_unschedule_name name db1 = (Inr True, db2) \<and> jobs db2 = jobs db
      \<and> cron_unschedule_name name db2 = (Inl (no_such_job name), db2))
    \<and> (\<exists>db2. cron_unschedule_id i db1 = (Inr True, db2) \<and> jobs db2 = jobs db
      \<and> cron_unschedule_id i db2 = (Inl (no_such_job (go_Sprint i)), db2))"
proof -
  from assms(4) obtain port where port: "server_port s = Some port" by (auto simp: schedule_cases split: option.splits)
  from schedule_new [OF _ port, of db "Some name" sched cmd] assms
  have d: "i = job_seq db" "jobs db1 = jobs db @ [new_job s port i (Some name) sched cmd]" by auto
  have n: "jobname (new_job s port i (Some name) sched cmd) = Some name" "jobid (new_job s port i (Some name) sched cmd) = i"
    using assms(3) by (simp_all add: new_job_def)
  have ids: "\<forall>j\<in>set (jobs db). jobid j \<noteq> i" using cron_okD(1) [OF assms(1)] d by force
  from assms(2) have "filter (\<lambda>j. jobname j \<noteq> Some name) (jobs db) = jobs db" by simp
  moreover from ids have "filter (\<lambda>j. jobid j \<noteq> i) (jobs db) = jobs db" by simp
  ultimately show ?thesis
    using d n assms(2) ids
    by (simp add: cron_unschedule_name_def cron_unschedule_id_def list_ex_iff)
qed

theorem cron_unschedule_schedule_witness:
  "fst (cron_unschedule_name ''a'' (snd (cron_schedule_named sample_session (Some ''a'') ''s'' ''c'' sample_cron))) = Inr True"
proof -
  have "\<forall>j\<in>set (jobs sample_cron). jobname j \<noteq> Some ''a''" by (simp add: sample_cron_def)
  from cron_unschedule_schedule [OF sample_schedule(2) this _ sample_schedule(1)] show ?thesis
    by (auto simp: sample_schedule(1))
qed

text \<open>Over a Unix socket nothing can be scheduled: the server has no port, and the column must have one.\<close>

lemma schedule_over_socket_fails:
  "server_port s = None \<Longrightarrow> fst (cron_schedule_named s name sched cmd db) = Inl null_port"
  by (simp add: schedule_cases)

text \<open>The name of a job of more than 63 bytes does not unschedule it: the stored name was cut.\<close>

lemma long_name_stays:
  assumes "cron_ok db" "63 < length name"
  shows "cron_unschedule_name name (snd (cron_schedule_named s (Some name) sched cmd db))
    = (Inl (no_such_job name), snd (cron_schedule_named s (Some name) sched cmd db))"
  using cron_schedule_ok [OF assms(1), of s "Some name" sched cmd] assms(2)
  by (auto simp: cron_unschedule_name_def list_ex_iff dest: cron_okD(2))

section \<open>Test databases\<close>

text \<open>The state of a test: the world, and what is registered with \<open>Cleanup\<close>, last first.\<close>

record 'w test =
  t_world :: 'w
  t_cleanups :: "('w \<Rightarrow> 'w) list"

definition t_Cleanup :: "('w \<Rightarrow> 'w) \<Rightarrow> 'w test \<Rightarrow> 'w test" where
  "t_Cleanup f st = st\<lparr>t_cleanups := f # t_cleanups st\<rparr>"

text \<open>The end of the test.\<close>

definition run_cleanups :: "'w test \<Rightarrow> 'w" where
  "run_cleanups st = fold (\<lambda>f w. f w) (t_cleanups st) (t_world st)"

definition on_world :: "('w \<Rightarrow> 'a \<times> 'w) \<Rightarrow> 'w test \<Rightarrow> 'a \<times> 'w test" where
  "on_world f st = (case f (t_world st) of (x, w) \<Rightarrow> (x, st\<lparr>t_world := w\<rparr>))"

text \<open>A step that may call \<open>Fatal\<close>, and the rest of the function.\<close>

definition tb_bind :: "'a res \<times> 'w test \<Rightarrow> ('a \<Rightarrow> 'w test \<Rightarrow> 'b res \<times> 'w test) \<Rightarrow> 'b res \<times> 'w test" where
  "tb_bind r f = (case r of (Inl err, st) \<Rightarrow> (Inl err, st) | (Inr x, st) \<Rightarrow> f x st)"

definition fatal_on :: "goerr option \<times> 'w test \<Rightarrow> unit res \<times> 'w test" where
  "fatal_on r = (case r of (Some err, st) \<Rightarrow> (Inl err, st) | (None, st) \<Rightarrow> (Inr (), st))"

text \<open>The configuration of a connection; the rest of it is kept.\<close>

record conn_config =
  cc_Database :: string
  cc_User :: string
  cc_Password :: string
  cc_RuntimeParams :: "(string, string) gomap option"
  cc_rest :: string

record pool_config =
  pc_ConnConfig :: conn_config
  pc_rest :: string

text \<open>The libraries: databases, connections and pools are handles.\<close>

record 'w testlib =
  sql_Open :: "string \<Rightarrow> string \<Rightarrow> 'w \<Rightarrow> nat res \<times> 'w"
  sql_Exec :: "nat \<Rightarrow> string \<Rightarrow> 'w \<Rightarrow> goerr option \<times> 'w"
  sql_Ping :: "nat \<Rightarrow> 'w \<Rightarrow> goerr option \<times> 'w"
  sql_Conn :: "nat \<Rightarrow> 'w \<Rightarrow> nat res \<times> 'w"
  sql_CloseConn :: "nat \<Rightarrow> 'w \<Rightarrow> 'w"
  sql_CloseDB :: "nat \<Rightarrow> 'w \<Rightarrow> 'w"
  pgx_Connect :: "string \<Rightarrow> 'w \<Rightarrow> nat res \<times> 'w"
  pgx_Exec :: "nat \<Rightarrow> string \<Rightarrow> 'w \<Rightarrow> goerr option \<times> 'w"
  pgx_CloseConn :: "nat \<Rightarrow> 'w \<Rightarrow> 'w"
  pgx_ParseConfig :: "string \<Rightarrow> conn_config res"
  RegisterConnConfig :: "conn_config \<Rightarrow> 'w \<Rightarrow> string \<times> 'w"
  pool_ParseConfig :: "string \<Rightarrow> pool_config res"
  pool_NewWithConfig :: "pool_config \<Rightarrow> 'w \<Rightarrow> nat res \<times> 'w"
  pool_Acquire :: "nat \<Rightarrow> 'w \<Rightarrow> nat res \<times> 'w"
  pool_Release :: "nat \<Rightarrow> 'w \<Rightarrow> 'w"
  pool_Close :: "nat \<Rightarrow> 'w \<Rightarrow> 'w"
  rand_Read :: "nat \<Rightarrow> 'w \<Rightarrow> string res \<times> 'w"
  os_Getenv :: "string \<Rightarrow> string"

definition sqlDBExecer_Exec :: "'w testlib \<Rightarrow> nat \<Rightarrow> string \<Rightarrow> 'w \<Rightarrow> goerr option \<times> 'w" where
  "sqlDBExecer_Exec L db stmt w = sql_Exec L db stmt w"

definition pgxExecer_Exec :: "'w testlib \<Rightarrow> nat \<Rightarrow> string \<Rightarrow> 'w \<Rightarrow> goerr option \<times> 'w" where
  "pgxExecer_Exec L conn stmt w = pgx_Exec L conn stmt w"

definition sqlConnExecer_Exec :: "'w testlib \<Rightarrow> nat \<Rightarrow> string \<Rightarrow> 'w \<Rightarrow> goerr option \<times> 'w" where
  "sqlConnExecer_Exec L conn stmt w = sql_Exec L conn stmt w"

text \<open>The setup functions that install the mock of pg_cron; \<open>stmt\<close> is the text of its statements.\<close>

definition MockPgcronPgx :: "'w testlib \<Rightarrow> (cron_stmt \<Rightarrow> string) \<Rightarrow> nat \<Rightarrow> 'w \<Rightarrow> goerr option \<times> 'w" where
  "MockPgcronPgx L stmt conn w = mockPgcron (\<lambda>s. pgxExecer_Exec L conn (stmt s)) w"

definition MockPgcronSQL :: "'w testlib \<Rightarrow> (cron_stmt \<Rightarrow> string) \<Rightarrow> nat \<Rightarrow> 'w \<Rightarrow> goerr option \<times> 'w" where
  "MockPgcronSQL L stmt conn w = mockPgcron (\<lambda>s. sqlConnExecer_Exec L conn (stmt s)) w"

definition set_test_config :: "string \<Rightarrow> conn_config \<Rightarrow> conn_config" where
  "set_test_config tempDB conf =
     (let m = (case cc_RuntimeParams conf of None \<Rightarrow> [] | Some m \<Rightarrow> m)
      in conf\<lparr>cc_Database := tempDB, cc_User := tempDB, cc_Password := tempDB,
           cc_RuntimeParams := Some (gomap_set ''application_name'' ''testdb'' m)\<rparr>)"

definition connConfig :: "'w testlib \<Rightarrow> string \<Rightarrow> string \<Rightarrow> conn_config res" where
  "connConfig L original tempDB =
     (case pgx_ParseConfig L original of Inl err \<Rightarrow> Inl err | Inr conf \<Rightarrow> Inr (set_test_config tempDB conf))"


definition randHex :: "'w testlib \<Rightarrow> nat \<Rightarrow> 'w test \<Rightarrow> string res \<times> 'w test" where
  "randHex L rawBytes st = tb_bind (on_world (rand_Read L rawBytes) st) (\<lambda>b st1. (Inr (hex_EncodeToString b), st1))"

definition temp_name :: "string \<Rightarrow> string \<Rightarrow> string" where
  "temp_name prefix rnd =
     (let tempDB = map lower prefix @ rnd
      in if length tempDB > 63 then drop (length tempDB - 63) tempDB else tempDB)"

definition create_database :: "string \<Rightarrow> string" where
  "create_database n = ''CREATE DATABASE '' @ n"

definition create_user :: "string \<Rightarrow> string" where
  "create_user n = ''CREATE USER '' @ n @ '' WITH PASSWORD'' @ [CHR 0x27] @ n @ [CHR 0x27]"

definition grant_all :: "string \<Rightarrow> string" where
  "grant_all n = ''GRANT ALL PRIVILEGES ON DATABASE '' @ n @ '' TO '' @ n"

definition alter_owner :: "string \<Rightarrow> string" where
  "alter_owner n = ''ALTER DATABASE '' @ n @ '' OWNER TO '' @ n"

definition drop_database :: "string \<Rightarrow> string" where
  "drop_database n = ''DROP DATABASE IF EXISTS '' @ n @ '' WITH (FORCE)''"

definition drop_user :: "string \<Rightarrow> string" where
  "drop_user n = ''DROP USER IF EXISTS '' @ n"

definition create_stmts :: "string \<Rightarrow> string list" where
  "create_stmts tempDB = [create_database tempDB, create_user tempDB, grant_all tempDB, alter_owner tempDB]"

definition createTestDBAndUser ::
  "'w testlib \<Rightarrow> (string \<Rightarrow> 'w \<Rightarrow> goerr option \<times> 'w) \<Rightarrow> string \<Rightarrow> 'w test \<Rightarrow> string res \<times> 'w test" where
  "createTestDBAndUser L ex prefix st =
     tb_bind (randHex L 8 st) (\<lambda>rnd st1.
       let tempDB = temp_name prefix rnd in
       tb_bind (fatal_on (on_world (exec_stmts ex (create_stmts tempDB)) st1)) (\<lambda>_ st2. (Inr tempDB, st2)))"

text \<open>The clean-up of a test database: the errors of the statements are ignored.\<close>

definition drop_temp :: "'w testlib \<Rightarrow> (string \<Rightarrow> 'w \<Rightarrow> goerr option \<times> 'w) \<Rightarrow> ('w \<Rightarrow> 'w) \<Rightarrow> string \<Rightarrow> 'w \<Rightarrow> 'w" where
  "drop_temp L ex close tempDB w =
     close (if os_Getenv L ''PGDB_KEEP_TESTDB'' = []
            then snd (ex (drop_user tempDB) (snd (ex (drop_database tempDB) w)))
            else w)"

fun run_fns :: "(nat \<Rightarrow> 'w \<Rightarrow> goerr option \<times> 'w) list \<Rightarrow> nat \<Rightarrow> 'w \<Rightarrow> goerr option \<times> 'w" where
  "run_fns [] conn w = (None, w)"
| "run_fns (f # fs) conn w = (case f conn w of (Some err, w1) \<Rightarrow> (Some err, w1) | (None, w1) \<Rightarrow> run_fns fs conn w1)"

definition default_prefix :: "string \<Rightarrow> string" where
  "default_prefix prefix = (if prefix = [] then ''test'' else prefix)"

text \<open>The connection for the setup functions is closed whether they fail or not.\<close>

definition newSQL ::
  "'w testlib \<Rightarrow> string \<Rightarrow> string \<Rightarrow> string \<Rightarrow> (nat \<Rightarrow> 'w \<Rightarrow> goerr option \<times> 'w) list \<Rightarrow> 'w test \<Rightarrow> nat res \<times> 'w test" where
  "newSQL L driver connStr prefix fns st =
     tb_bind (on_world (sql_Open L driver connStr) st) (\<lambda>db st1.
     tb_bind (createTestDBAndUser L (sqlDBExecer_Exec L db) (default_prefix prefix) st1) (\<lambda>tempDB st2.
       let st3 = t_Cleanup (drop_temp L (sql_Exec L db) (sql_CloseDB L db) tempDB) st2 in
     tb_bind (connConfig L connStr tempDB, st3) (\<lambda>conf st4.
       case on_world (RegisterConnConfig L conf) st4 of (connStrTemp, st5) \<Rightarrow>
     tb_bind (on_world (sql_Open L ''pgx'' connStrTemp) st5) (\<lambda>tdb st6.
       let st7 = t_Cleanup (sql_CloseDB L tdb) st6 in
     tb_bind (fatal_on (on_world (sql_Ping L tdb) st7)) (\<lambda>_ st8.
     if fns = [] then (Inr tdb, st8)
     else tb_bind (on_world (sql_Conn L tdb) st8) (\<lambda>conn st9.
       case on_world (run_fns fns conn) st9 of (err, st10) \<Rightarrow>
         (case err of None \<Rightarrow> Inr tdb | Some e \<Rightarrow> Inl e, st10\<lparr>t_world := sql_CloseConn L conn (t_world st10)\<rparr>)))))))"

definition NewSQL where "NewSQL L connStr prefix fns st = newSQL L ''pgx'' connStr prefix fns st"

definition NewPqSQL where "NewPqSQL L connStr prefix fns st = newSQL L ''postgres'' connStr prefix fns st"



section \<open>Names of test databases\<close>

lemma temp_name_suffix:
  "length rnd \<le> 63 \<Longrightarrow> \<exists>p. temp_name prefix rnd = p @ rnd"
  by (auto simp: temp_name_def Let_def)

text \<open>
  The name of a test database fits PostgreSQL's 63 bytes whatever the prefix, always ends in all of
  the random part, and so differs from every other whose random bytes differ, also with another prefix.
\<close>

theorem temp_name_ok:
  assumes "length raw = 8" "length raw' = 8"
  shows "length (temp_name prefix (hex_EncodeToString raw)) \<le> 63
    \<and> go_HasSuffix (temp_name prefix (hex_EncodeToString raw)) (hex_EncodeToString raw)
    \<and> (raw \<noteq> raw' \<longrightarrow> temp_name prefix (hex_EncodeToString raw) \<noteq> temp_name prefix' (hex_EncodeToString raw'))"
proof (intro conjI impI)
  have suffix: "\<exists>p. temp_name q (hex_EncodeToString r) = p @ hex_EncodeToString r" if "length r = 8" for q r
    using that by (intro temp_name_suffix) simp
  show "length (temp_name prefix (hex_EncodeToString raw)) \<le> 63"
    using assms by (simp add: temp_name_def Let_def)
  from suffix [OF assms(1), of prefix] show "go_HasSuffix (temp_name prefix (hex_EncodeToString raw)) (hex_EncodeToString raw)"
    by (auto simp: go_HasSuffix_iff)
  assume "raw \<noteq> raw'"
  with suffix [OF assms(1), of prefix] suffix [OF assms(2), of prefix'] assms
  show "temp_name prefix (hex_EncodeToString raw) \<noteq> temp_name prefix' (hex_EncodeToString raw')"
    by (auto simp: hex_EncodeToString_inj)
qed

theorem temp_name_ok_witness:
  "temp_name ''Test'' (hex_EncodeToString ''abcdefgh'') \<noteq> temp_name ''Testx'' (hex_EncodeToString ''abcdefgi'')"
  using temp_name_ok [of "''abcdefgh''" "''abcdefgi''" "''Test''" "''Testx''"] by simp

section \<open>The server\<close>


text \<open>The names that SQL takes without quotes.\<close>

definition ident_char :: "char \<Rightarrow> bool" where
  "ident_char c = (let n = (of_char c :: nat) in (97 \<le> n \<and> n \<le> 122) \<or> (48 \<le> n \<and> n \<le> 57) \<or> n = 95)"

definition ident :: "string \<Rightarrow> bool" where
  "ident n \<longleftrightarrow> n \<noteq> [] \<and> list_all ident_char n \<and> \<not> char_digit (hd n) \<noteq> None"








text \<open>
  A server: its databases, users, what is open (by handle: driver and connection string), and the faults that
  the next round-trips meet.
\<close>

record server =
  sv_dbs :: "string list"
  sv_users :: "string list"
  sv_opened :: "(string \<times> string) list"
  sv_faults :: "goerr option list"

datatype server_cmd = CmdCreateDatabase string | CmdCreateUser string | CmdDropDatabase string | CmdDropUser string
  | CmdGrant | CmdOther

definition server_parse :: "string \<Rightarrow> server_cmd" where
  "server_parse s =
     (let db = drop 16 s; us = takeWhile ident_char (drop 12 s); dd = takeWhile ident_char (drop 24 s); du = drop 20 s in
      if s = create_database db \<and> ident db then CmdCreateDatabase db
      else if s = create_user us \<and> ident us then CmdCreateUser us
      else if s = drop_database dd \<and> ident dd then CmdDropDatabase dd
      else if s = drop_user du \<and> ident du then CmdDropUser du
      else if go_HasPrefix s ''GRANT '' \<or> go_HasPrefix s ''ALTER '' then CmdGrant
      else CmdOther)"

definition server_fault :: "server \<Rightarrow> goerr option \<times> server" where
  "server_fault w = (case sv_faults w of [] \<Rightarrow> (None, w) | f # fs \<Rightarrow> (f, w\<lparr>sv_faults := fs\<rparr>))"

definition server_exec :: "string \<Rightarrow> server \<Rightarrow> goerr option \<times> server" where
  "server_exec s w =
     (case server_fault w of
        (Some f, w1) \<Rightarrow> (Some f, w1)
      | (None, w1) \<Rightarrow>
          (case server_parse s of
             CmdCreateDatabase n \<Rightarrow>
               if n \<in> set (sv_dbs w1) then (Some (OpaqueErr ''duplicate database''), w1)
               else (None, w1\<lparr>sv_dbs := n # sv_dbs w1\<rparr>)
           | CmdCreateUser n \<Rightarrow>
               if n \<in> set (sv_users w1) then (Some (OpaqueErr ''duplicate role''), w1)
               else (None, w1\<lparr>sv_users := n # sv_users w1\<rparr>)
           | CmdDropDatabase n \<Rightarrow> (None, w1\<lparr>sv_dbs := removeAll n (sv_dbs w1)\<rparr>)
           | CmdDropUser n \<Rightarrow> (None, w1\<lparr>sv_users := removeAll n (sv_users w1)\<rparr>)
           | CmdGrant \<Rightarrow> (None, w1)
           | CmdOther \<Rightarrow> (Some (OpaqueErr ''syntax error''), w1)))"

definition server_open :: "string \<Rightarrow> string \<Rightarrow> server \<Rightarrow> nat res \<times> server" where
  "server_open d c w =
     (case server_fault w of
        (Some f, w1) \<Rightarrow> (Inl f, w1)
      | (None, w1) \<Rightarrow> (Inr (length (sv_opened w1)), w1\<lparr>sv_opened := sv_opened w1 @ [(d, c)]\<rparr>))"

text \<open>The libraries on it, for a value of the environment variable, random bytes and a configuration.\<close>

definition server_lib :: "string \<Rightarrow> string res \<Rightarrow> conn_config res \<Rightarrow> server testlib" where
  "server_lib keep raw conf = \<lparr>
     sql_Open = server_open, sql_Exec = (\<lambda>_. server_exec), sql_Ping = (\<lambda>_. server_fault),
     sql_Conn = (\<lambda>_. server_open ''conn'' []), sql_CloseConn = (\<lambda>_ w. w), sql_CloseDB = (\<lambda>_ w. w),
     pgx_Connect = server_open ''pgx'', pgx_Exec = (\<lambda>_. server_exec), pgx_CloseConn = (\<lambda>_ w. w),
     pgx_ParseConfig = (\<lambda>_. conf), RegisterConnConfig = (\<lambda>cf w. (''registered '' @ cc_Database cf, w)),
     pool_ParseConfig = (\<lambda>_. map_sum id (\<lambda>cf. \<lparr>pc_ConnConfig = cf, pc_rest = []\<rparr>) conf),
     pool_NewWithConfig = (\<lambda>_. server_open ''pool'' []), pool_Acquire = (\<lambda>_. server_open ''conn'' []),
     pool_Release = (\<lambda>_ w. w), pool_Close = (\<lambda>_ w. w), rand_Read = (\<lambda>m w. (map_sum id (take m) raw, w)),
     os_Getenv = (\<lambda>v. if v = ''PGDB_KEEP_TESTDB'' then keep else [])\<rparr>"













definition sample_conf :: conn_config where
  "sample_conf = \<lparr>cc_Database = ''postgres'', cc_User = ''u'', cc_Password = ''p'', cc_RuntimeParams = None, cc_rest = []\<rparr>"

definition sample_test :: "goerr option list \<Rightarrow> server test" where
  "sample_test faults = \<lparr>t_world = \<lparr>sv_dbs = [''postgres''], sv_users = [''u''], sv_opened = [], sv_faults = faults\<rparr>,
     t_cleanups = []\<rparr>"


text \<open>
  The clean-up is registered after the database and the user are made: when the user cannot be made, the
  database stays.
\<close>

lemma failed_creation_leaks:
  "let (r, st') = NewSQL (server_lib [] (Inr ''abcdefgh'') (Inr sample_conf)) ''c'' ''Db'' []
         (sample_test [None, None, Some (OpaqueErr ''permission denied'')])
   in r = Inl (OpaqueErr ''permission denied'') \<and> ''db6162636465666768'' \<in> set (sv_dbs (run_cleanups st'))"
  by code_simp

text \<open>The database that \<open>NewPqSQL\<close> returns is opened with the driver of pgx, as that of \<open>NewSQL\<close>.\<close>

lemma NewPqSQL_opens_pgx:
  "sv_opened (t_world (snd (NewPqSQL (server_lib [] (Inr ''abcdefgh'') (Inr sample_conf)) ''c'' ''Db'' [] (sample_test []))))
     = [(''postgres'', ''c''), (''pgx'', ''registered db6162636465666768'')]"
  by code_simp

section \<open>Installing the mock of pg_cron\<close>

text \<open>What a statement needs, and that an object is not made twice.\<close>

definition cron_needs :: "cron_stmt \<Rightarrow> cron_stmt list" where
  "cron_needs s = (case s of
       CreateSchema \<Rightarrow> []
     | CreateJobTable \<Rightarrow> [CreateSchema]
     | CreateJobIndex \<Rightarrow> [CreateJobTable]
     | CreateJobPolicy \<Rightarrow> [CreateJobTable]
     | CreateRunTable \<Rightarrow> [CreateSchema]
     | CreateRunPolicy \<Rightarrow> [CreateRunTable]
     | CreateScheduleNamed \<Rightarrow> [CreateJobTable, CreateJobIndex]
     | CreateSchedule \<Rightarrow> [CreateScheduleNamed]
     | CreateUnscheduleName \<Rightarrow> [CreateSchema]
     | CreateUnscheduleId \<Rightarrow> [CreateSchema])"

definition cron_ddl :: "cron_stmt \<Rightarrow> cron_stmt list \<Rightarrow> goerr option \<times> cron_stmt list" where
  "cron_ddl s made =
     (if s \<in> set made then (Some (OpaqueErr ''already exists''), made)
      else if set (cron_needs s) \<subseteq> set made then (None, made @ [s])
      else (Some (OpaqueErr ''does not exist''), made))"

text \<open>The statements succeed in their order on a new database; on one that has the schema nothing changes.\<close>

lemma mockPgcron_installs:
  "mockPgcron cron_ddl [] = (None, cron_stmts)"
  "CreateSchema \<in> set made \<Longrightarrow> mockPgcron cron_ddl made = (Some (OpaqueErr ''already exists''), made)"
  by (simp_all add: mockPgcron_def cron_stmts_def cron_ddl_def cron_needs_def)

end
