(* ===== verification/Spec2Isabelle.thy ===== *)
theory Spec2Isabelle
  imports Acctstack Migrate Server Middleware Params Webpages Mockdb Testdb
begin

text \<open>
  A verification development of the Go library karbur: building blocks of web applications on
  PostgreSQL. The library is a stack of packages. At the bottom are errors with tags
  (\<^verbatim>\<open>errors\<close>) and values in contexts (\<^verbatim>\<open>ctxvals\<close>). On top of a database driver, \<^verbatim>\<open>pgdb\<close> gives
  transactions with retry, and \<^verbatim>\<open>pgdb/migrate\<close> applies migrations in one. \<^verbatim>\<open>tokens\<close> and \<^verbatim>\<open>accounts\<close> keep
  tables in the database, and \<^verbatim>\<open>accounts/acctmw\<close> makes sessions, login and authorization of them,
  as middleware around HTTP handlers. \<^verbatim>\<open>server\<close> runs an HTTP server, \<^verbatim>\<open>server/middleware\<close> has the
  middleware that every application needs, \<^verbatim>\<open>server/params\<close> decodes requests into structs, and
  \<^verbatim>\<open>server/webpages\<close> renders templates. For tests there are mocks of the database (\<^verbatim>\<open>pgdb/mockdb\<close>) and
  isolated real databases (\<^verbatim>\<open>pgdb/testdb\<close>).

  \<^bold>\<open>Theories\<close>, each importing those it builds on:

  \<^item> \<open>Prelude\<close>: outcomes of calls that may panic, Go's maps as association lists, 64-bit
    integers, strings and their numbers, and the lemmas all components share.
  \<^item> \<open>Errors\<close> (\<^verbatim>\<open>src/errors/errors.go\<close>): the error values of all packages as one datatype, since
    \<^verbatim>\<open>Is\<close>, \<^verbatim>\<open>As\<close> and \<^verbatim>\<open>Join\<close> look through all of them; tags, metadata and messages.
  \<^item> \<open>Ctxvals\<close> (\<^verbatim>\<open>src/ctxvals/ctxvals.go\<close>): contexts as lists of bindings, and the container of
    logged pairs as an address into a store, because derived contexts share it.
  \<^item> \<open>Pgdb\<close> (\<^verbatim>\<open>src/pgdb/database.go\<close>): \<open>Tx\<close>, \<open>EnsureTx\<close>, \<open>RequireTx\<close>, the backoff at 64 bits, protocol
    errors and the escaping of literals and patterns, over a record of driver calls.
  \<^item> \<open>Sqltx\<close>: a database engine with contents, open transactions and
    a list of faults that any call may hit; \<open>tx_spec\<close> is what a transaction function promises and
    what \<open>Tx\<close> makes of it, and the locale \<open>engine_property\<close> lifts a property of the contents to all
    operations, once for the committed contents and once for those an open transaction sees.
  \<^item> \<open>Adapters\<close> (\<^verbatim>\<open>src/pgdb/sqladapt/sqladapt.go\<close>, \<^verbatim>\<open>src/pgdb/pgxadapt/pgxadapt.go\<close>): both adapters over records of
    library operations, the conversions of transaction options, and cursors over any rows that keep the contract of the libraries;
    the engine of \<open>Sqltx\<close> is an instance of either.
  \<^item> \<open>Mockdb\<close> (\<^verbatim>\<open>src/pgdb/mockdb/mockdb.go\<close>): values as objects with some of the methods of the interfaces, the
    constructors as folds over their arguments.
  \<^item> \<open>Testdb\<close> (\<^verbatim>\<open>src/pgdb/testdb/testdb.go\<close>): the life of a test database over a record of library operations and
    a contract of the server, and the mock of pg_cron.
  \<^item> \<open>Base64\<close> and \<open>Tokens\<close> (\<^verbatim>\<open>src/tokens\<close>): the table with its constraints, every statement and every
    operation; runs interleave operations, other transactions and time.
  \<^item> \<open>Accounts\<close> (\<^verbatim>\<open>src/accounts/accounts.go\<close> and its migrations): three more tables with keys,
    checks and references.
  \<^item> \<open>Acctctx\<close>, \<open>Acctmw\<close>, \<open>Acctstack\<close> (\<^verbatim>\<open>src/accounts/acctctx\<close>, \<^verbatim>\<open>src/accounts/acctmw\<close>): sessions as addresses
    into a store, every middleware as a function of the request and the world, and any stack of
    them.
  \<^item> \<open>Migrate\<close> (\<^verbatim>\<open>src/pgdb/migrate\<close>): registration, order, rendering, export, and the transaction that
    applies what is missing.
  \<^item> \<open>Server\<close> (\<^verbatim>\<open>src/server/server.go\<close>): the construction of the HTTP server, and \<open>ListenAndServe\<close> as a step
    relation of two goroutines.
  \<^item> \<open>Negotiate\<close> and \<open>Middleware\<close> (\<^verbatim>\<open>src/server/middleware\<close>): the parser of Accept headers with
    floating-point qualities; middleware as transformations of the program of calls that a
    handler makes on its response writer.
  \<^item> \<open>Params\<close> (\<^verbatim>\<open>src/server/params/params.go\<close>): struct types as lists of fields and values as maps from index
    paths; the cache of types is the state.
  \<^item> \<open>Webpages\<close> (\<^verbatim>\<open>src/server/webpages/webpages.go\<close>): file systems as trees, the walk over them, and the
    template sets of pages.

  \<^bold>\<open>What is proved.\<close> For the data: the invariants of all tables under every sequence of operations,
  and under every stack of middleware. For transactions: atomicity with any faults, at most the
  configured number of runs, bounds of the backoff. For tokens: a single-use token verifies once in every history whose transactions
  do not overlap, and a counterexample for two that do; a verification is exactly the lookup of a live row and the caller's check. For accounts: exact effects and errors, login
  and sessions, that a login is the session of the next request, that authorization decides by the documented meaning of groups, and
  which requests reach a handler behind sessions and access rules. For migrations:
  a run is the reference that applies the missing statements of each group in dependency order,
  once. For the server: the possible sequences of states, and that it returns. For
  the middleware: negotiation is the choice of the first best candidate; the limit on responses holds for each write, but not for the
  response; custom errors, CORS and the limit on requests do what is documented. For the adapters: transaction options survive the
  conversions as far as PostgreSQL has them, and cursors read all rows. For parameters: decoding does not depend
  on its cache, tags mean what they say, and what cookies carry is read back. For pages: exactly the templates of the file system, or the
  first failure of the walk.
  For tests: what is not mocked fails and does nothing, and a test database does not outlive its test.

  \<^bold>\<open>Bounds.\<close> No definition of the program uses fuel: loops are structural or have a measure, and the retries of \<open>Tx\<close>
  are bounded by \<open>maxAttempts\<close>. The loop over a cursor, which is the caller's, has fuel: one more than the
  rows that are left, and any more gives the same result. Integers of 64 bits wrap around where the code computes with them.
  Floating-point numbers are exact for the exponents that the parser of qualities can reach.

  \<^bold>\<open>Parameters.\<close> Code that is not in the repository is an argument: random bytes, identifiers, hashes,
  the clock, JSON, form decoding, templates, topological sorting, the CORS, compression and rate limiting
  packages, the database drivers, and the SQL of migrations. Hypotheses name what is relied on, and every property with
  hypotheses has a witness on concrete functions.

  \<^bold>\<open>Not modelled.\<close> Logging output, signals other than as a cancellation, what the middleware of other packages
  does; the options of the form decoder; concurrent clients of the database, so that isolation levels make no difference and
  the advisory lock of the migrator is always free (where code needs more than a serial history, as the verification of tokens does,
  the theorem says so); of the mock of pg_cron the row policies and the table of runs,
  which nothing reads; and the four files of \<^verbatim>\<open>acctmw\<close> that only hold a comment.
\<close>

section \<open>The migrations of tokens and accounts\<close>

text \<open>
  \<^verbatim>\<open>RegisterMigrations\<close> of the packages \<^verbatim>\<open>tokens\<close> and \<^verbatim>\<open>accounts\<close>; \<open>null\<close> is the nil configuration, and
  the file systems are the embedded ones.
\<close>

definition tokens_RegisterMigrations :: "'conf \<Rightarrow> 'conf migfs \<Rightarrow> 'conf Migrator \<Rightarrow> goerr option \<times> 'conf Migrator" where
  "tokens_RegisterMigrations null migs mig = Register_group ''karbur/tokens'' null migs [] mig"

definition accounts_RegisterMigrations :: "'conf \<Rightarrow> 'conf migfs \<Rightarrow> 'conf Migrator \<Rightarrow> goerr option \<times> 'conf Migrator" where
  "accounts_RegisterMigrations null migs mig = Register_group ''karbur/accounts'' null migs [''karbur/tokens''] mig"

lemma Register_keeps_ok: "migrator_ok m \<Longrightarrow> migrator_ok (snd (Register_group g conf fs after m))"
  unfolding Register_group_def migrator_ok_def Let_def
  by (auto split: option.splits intro!: gomap_wf_set)

text \<open>Two elements of a list without repetitions, in their order.\<close>

lemma precedes_split:
  assumes "precedes x y xs"
  obtains us vs ws where "xs = us @ x # vs @ y # ws"
proof -
  from assms obtain us ws where xs: "xs = us @ y # ws" "x \<in> set us" by (auto simp: precedes_def)
  from xs(2) obtain a b where "us = a @ x # b" by (meson split_list)
  with xs(1) that [of a b ws] show ?thesis by simp
qed

text \<open>
  C40. Once both packages registered their migrations with a migrator, in either order, a run that
  succeeds executes the missing migrations of \<^verbatim>\<open>karbur/tokens\<close> before those of
  \<^verbatim>\<open>karbur/accounts\<close>, whatever other groups there are.
\<close>

theorem tokens_migrated_before_accounts:
  assumes "toposort_ok ts" "migrator_ok m0" "sql_ok sql" "observes sql done_log" "versions_ok (contents e)"
    and "map_of (mg_groupMigs m0) ''karbur/tokens'' = None" "map_of (mg_groupMigs m0) ''karbur/accounts'' = None"
    and "m = snd (accounts_RegisterMigrations null afs (snd (tokens_RegisterMigrations null tfs m0)))
       \<or> m = snd (tokens_RegisterMigrations null tfs (snd (accounts_RegisterMigrations null afs m0)))"
    and "prepareGroupMigrations m = Inr (groupStmts, groupNames)"
    and "\<And>g. create_versions_text \<notin> set (gomap_list groupStmts g)"
    and "Migrate ts sql (engine_runtime rnd waited) m c e = (Ret (Inr ()), e')"
  shows "\<exists>before between after. done_log (contents e') = done_log (contents e) @ before
      @ pending groupStmts (contents e) ''karbur/tokens'' @ between
      @ pending groupStmts (contents e) ''karbur/accounts'' @ after"
proof -
  note reg = tokens_RegisterMigrations_def accounts_RegisterMigrations_def
  have ok: "migrator_ok m" using assms(2,8) by (auto simp: reg intro: Register_keeps_ok)
  have dep: "depends m ''karbur/accounts'' ''karbur/tokens''"
    using assms(6,7,8) by (auto simp: reg Register_group_def depends_def Let_def)
  obtain order where o: "\<forall>g dep. depends m g dep \<longrightarrow> precedes dep g order"
    "done_log (contents e') = done_log (contents e) @ concat (map (pending groupStmts (contents e)) order)"
    using Migrate_outcome [OF assms(1) ok assms(3-5,9-11)] by auto
  with dep have "precedes ''karbur/tokens'' ''karbur/accounts'' order" by blast
  then obtain us vs ws where "order = us @ ''karbur/tokens'' # vs @ ''karbur/accounts'' # ws" by (rule precedes_split)
  with o(2) show ?thesis
    by (intro exI [of _ "concat (map (pending groupStmts (contents e)) us)"]
        exI [of _ "concat (map (pending groupStmts (contents e)) vs)"]
        exI [of _ "concat (map (pending groupStmts (contents e)) ws)"]) simp
qed

text \<open>Accounts registered first, and one migration each.\<close>

definition sample_stack_migrator :: "unit Migrator" where
  "sample_stack_migrator = snd (tokens_RegisterMigrations () (Inr [sample_tpl ''001'' ''t1''])
     (snd (accounts_RegisterMigrations () (Inr [sample_tpl ''001'' ''a1'']) (migrate_New None))))"

theorem tokens_migrated_before_accounts_witness:
  "\<exists>before between after. executed (contents (snd (Migrate sample_sort sample_sql (engine_runtime (\<lambda>_. 0) None)
      sample_stack_migrator ([] :: unit ctx) sample_mig_engine)))
    = ''t1'' # before @ [''t1''] @ between @ [''a1''] @ after"
proof -
  let ?e = "snd (Migrate sample_sort sample_sql (engine_runtime (\<lambda>_. 0) None) sample_stack_migrator ([] :: unit ctx) sample_mig_engine)"
  let ?stmts = "[(''karbur/accounts'', [''a1'']), (''karbur/tokens'', [''t1''])]"
  have m0: "migrator_ok (migrate_New None :: unit Migrator)" "map_of (mg_groupMigs (migrate_New None :: unit Migrator)) g = None" for g
    by (simp_all add: migrate_New_def migrator_ok_def)
  have prep: "prepareGroupMigrations sample_stack_migrator
      = Inr (?stmts, [(''karbur/accounts'', [''001'']), (''karbur/tokens'', [''001''])])" by code_simp
  have no: "create_versions_text \<notin> set (gomap_list ?stmts g)" for g
    by (auto simp: gomap_list_def create_versions_text_def split: option.splits if_splits)
  have "fst (Migrate sample_sort sample_sql (engine_runtime (\<lambda>_. 0) None) sample_stack_migrator ([] :: unit ctx) sample_mig_engine)
      = Ret (Inr ())" by code_simp
  then have run: "Migrate sample_sort sample_sql (engine_runtime (\<lambda>_. 0) None) sample_stack_migrator ([] :: unit ctx) sample_mig_engine
      = (Ret (Inr ()), ?e)" by (simp add: prod_eq_iff)
  have "pending ?stmts (contents sample_mig_engine) ''karbur/tokens'' = [''t1'']"
    "pending ?stmts (contents sample_mig_engine) ''karbur/accounts'' = [''a1'']"
    "executed (contents sample_mig_engine) = [''t1'']" by code_simp+
  with tokens_migrated_before_accounts [OF sample_sort_ok m0(1) sample_sql_ok sample_observes sample_migrator_facts(2) m0(2) m0(2)
      disjI2 [OF sample_stack_migrator_def] prep no run]
  show ?thesis by simp
qed

end
